(* ===== verification/Prelude.thy ===== *)
theory Prelude
  imports Main "HOL-Library.Word" "HOL-Library.Multiset"
begin

text \<open>
  Shared vocabulary of the development: the machine types of the C++ sources
  (\<open>uint8_t\<close> bytes, \<open>size_t\<close> positions), the exceptions the code throws, the
  named theorem collections the component theories fill, and generic lemmas on
  lists, options and sums that the component proofs use through \<open>simp\<close>.
\<close>

section \<open>Machine types\<close>

type_synonym byte = "8 word"
type_synonym size_t = "64 word"

text \<open>\<open>int64_t\<close> offsets and lengths are \<open>int\<close>; the development states where
  a value must lie in the \<open>int64_t\<close> range.\<close>

definition int64_min :: int where
  "int64_min = - (2 ^ 63)"

definition int64_max :: int where
  "int64_max = 2 ^ 63 - 1"

definition in_int64 :: "int \<Rightarrow> bool" where
  "in_int64 i \<longleftrightarrow> int64_min \<le> i \<and> i \<le> int64_max"

section \<open>Exceptions as values\<close>

text \<open>
  Every exception the modelled code throws or lets escape is a constructor:
  the standard library's \<open>std::invalid_argument\<close>, \<open>std::runtime_error\<close> and
  \<open>std::out_of_range\<close> with their messages, the storage service's error
  responses (a status code), network faults, cancellation, and the points where
  C++ has undefined behaviour (division by zero).
\<close>

datatype error =
    InvalidArgument string
  | RuntimeError string
  | OutOfRange string
  | TransportFault
  | ServiceFault nat
  | CancelledFault
  | UndefinedBehaviour string
  | Blocked

type_synonym 'a result = "error + 'a"

section \<open>Collections of facts\<close>

named_theorems model_defs "definitions of the model unfolded by component proofs"
named_theorems range_simps "evaluation rules for byte ranges and their headers"

section \<open>Generic lemmas\<close>

text \<open>Sequencing of fallible steps, as C++ exception propagation does it.\<close>

definition bind_result :: "'a result \<Rightarrow> ('a \<Rightarrow> 'b result) \<Rightarrow> 'b result" where
  "bind_result r f = (case r of Inl e \<Rightarrow> Inl e | Inr a \<Rightarrow> f a)"

lemma bind_result_Inl [simp]: "bind_result (Inl e) f = Inl e"
  by (simp add: bind_result_def)

lemma bind_result_Inr [simp]: "bind_result (Inr a) f = f a"
  by (simp add: bind_result_def)

lemma bind_result_eq_Inr [simp]:
  "bind_result r f = Inr b \<longleftrightarrow> (\<exists>a. r = Inr a \<and> f a = Inr b)"
  by (cases r) auto

lemma bind_result_eq_Inl:
  "bind_result r f = Inl e \<longleftrightarrow> r = Inl e \<or> (\<exists>a. r = Inr a \<and> f a = Inl e)"
  by (cases r) auto

text \<open>\<open>Nullable<T>\<close>: \<open>HasValue() ? GetValue() : d\<close>.\<close>

definition value_or :: "'a option \<Rightarrow> 'a \<Rightarrow> 'a" where
  "value_or x d = (case x of None \<Rightarrow> d | Some v \<Rightarrow> v)"

lemma value_or_simps [simp]:
  "value_or None d = d"
  "value_or (Some v) d = v"
  by (simp_all add: value_or_def)

text \<open>C++ integer division truncates towards zero; HOL's \<open>div\<close> rounds down.\<close>

definition cpp_div :: "int \<Rightarrow> int \<Rightarrow> int" where
  "cpp_div a b = sgn a * sgn b * (\<bar>a\<bar> div \<bar>b\<bar>)"

lemma cpp_div_nonneg [simp]: "0 \<le> a \<Longrightarrow> 0 < b \<Longrightarrow> cpp_div a b = a div b"
  by (cases "a = 0") (simp_all add: cpp_div_def)

lemma int_le_div_iff: "0 < (b::int) \<Longrightarrow> k \<le> a div b \<longleftrightarrow> k * b \<le> a"
proof
  assume b: "0 < b" and "k \<le> a div b"
  then have "k * b \<le> (a div b) * b" by (simp add: mult_right_mono)
  also have "\<dots> \<le> a" using b by (simp add: minus_mod_eq_div_mult [symmetric])
  finally show "k * b \<le> a" .
next
  assume b: "0 < b" and "k * b \<le> a"
  then have "(k * b) div b \<le> a div b" using zdiv_mono1 by blast
  with b show "k \<le> a div b" by simp
qed

lemma take_drop_append_eq:
  "take n xs @ take m (drop n xs) = take (n + m) xs"
  by (simp add: take_add)

lemma sum_list_map_const_le:
  "(\<forall>x\<in>set xs. f x \<le> c) \<Longrightarrow> sum_list (map f xs) \<le> c * length xs"
  by (induction xs) (auto simp: algebra_simps add_mono)

text \<open>Writing \<open>xs\<close> at \<open>p\<close> and then \<open>ys\<close> right after it writes \<open>xs @ ys\<close> at \<open>p\<close>.\<close>

lemma overlay_adjacent:
  assumes "length xs = m" and "p + m + length ys \<le> length b"
  shows "take (p + m) (take p b @ xs @ drop (p + m) b) @ ys @
           drop (p + m + length ys) (take p b @ xs @ drop (p + m) b) =
         take p b @ (xs @ ys) @ drop (p + length (xs @ ys)) b"
  using assms by (simp add: ac_simps)

lemma distinct_of_mset_upt: "mset xs = mset [0..<n] \<Longrightarrow> distinct xs"
  by (metis distinct_upt mset_eq_imp_distinct_iff)

text \<open>\<open>static_cast<std::size_t>\<close> of a non-negative \<open>int64_t\<close> keeps its value.\<close>

lemma unat_size_t_of_nat:
  "int n \<le> int64_max \<Longrightarrow> unat (word_of_nat n :: size_t) = n"
  by (simp add: int64_max_def unat_of_nat)

lemma unat_size_t_of_int:
  "0 \<le> i \<Longrightarrow> i \<le> int64_max \<Longrightarrow> unat (word_of_int i :: size_t) = nat i"
  using unat_size_t_of_nat [of "nat i"] by simp

lemma nth_overlay:
  assumes "k + length xs \<le> length b" and "p < length b"
  shows "(take k b @ xs @ drop (k + length xs) b) ! p =
           (if k \<le> p \<and> p < k + length xs then xs ! (p - k) else b ! p)"
  using assms by (auto simp: nth_append min_def)

text \<open>Two consecutive pieces of a byte range, at \<open>int\<close> offsets, make the range.\<close>

lemma take_drop_split:
  assumes "0 \<le> f0" and "0 \<le> a" and "a \<le> b"
  shows "take (nat a) (drop (nat f0) xs) @ take (nat (b - a)) (drop (nat (f0 + a)) xs) =
           take (nat b) (drop (nat f0) xs)"
proof -
  have D: "drop (nat (f0 + a)) xs = drop (nat a) (drop (nat f0) xs)"
    using assms(1,2) by (simp add: nat_add_distrib add.commute)
  have N: "nat b = nat a + nat (b - a)"
    using assms(2,3) by (simp only: nat_add_distrib [symmetric])
  show ?thesis
    by (simp only: D N take_add)
qed

end
