(* ===== verification/Std_String.thy ===== *)
theory Std_String
  imports Prelude
begin

text \<open>
  The parts of the C++ standard library that the client code relies on for its
  HTTP header strings: \<open>std::to_string\<close> on \<open>int64_t\<close>, \<open>std::stoll\<close> (base 10),
  \<open>std::string::find\<close> and \<open>std::string::substr\<close> with their \<open>size_t\<close>
  positions, \<open>npos\<close> included. The lemmas are the round trip of printing and
  parsing a decimal, and the position facts of \<open>find\<close>.
\<close>

section \<open>Decimal printing: std::to_string\<close>

fun dec_digits :: "nat \<Rightarrow> nat list" where
  "dec_digits n = (if n < 10 then [n] else dec_digits (n div 10) @ [n mod 10])"

declare dec_digits.simps [simp del]

definition digit_char :: "nat \<Rightarrow> char" where
  "digit_char d = char_of (48 + d)"

definition to_string_nat :: "nat \<Rightarrow> string" where
  "to_string_nat n = map digit_char (dec_digits n)"

definition to_string :: "int \<Rightarrow> string" where
  "to_string i =
     (if i < 0 then CHR ''-'' # to_string_nat (nat (- i)) else to_string_nat (nat i))"

section \<open>Decimal parsing: std::stoll\<close>

definition is_digit :: "char \<Rightarrow> bool" where
  "is_digit c \<longleftrightarrow> 48 \<le> (of_char c :: nat) \<and> (of_char c :: nat) \<le> 57"

definition is_space :: "char \<Rightarrow> bool" where
  "is_space c \<longleftrightarrow> (of_char c :: nat) \<in> {32, 9, 10, 11, 12, 13}"

definition digit_value :: "char \<Rightarrow> nat" where
  "digit_value c = of_char c - 48"

definition digits_value :: "string \<Rightarrow> nat" where
  "digits_value ds = foldl (\<lambda>acc c. 10 * acc + digit_value c) 0 ds"

text \<open>
  \<open>std::stoll(s)\<close>: skip leading white space, read an optional sign and the
  longest run of decimal digits; no digit is \<open>std::invalid_argument\<close>, a value
  outside \<open>int64_t\<close> is \<open>std::out_of_range\<close>. What follows the digits is ignored.
\<close>

definition stoll :: "string \<Rightarrow> int result" where
  "stoll s =
     (let t = dropWhile is_space s;
          (neg, u) = (case t of
                        [] \<Rightarrow> (False, [])
                      | c # r \<Rightarrow> (if c = CHR ''-'' then (True, r)
                                 else if c = CHR ''+'' then (False, r) else (False, t)));
          ds = takeWhile is_digit u;
          v = (if neg then - int (digits_value ds) else int (digits_value ds))
      in if ds = [] then Inl (InvalidArgument ''stoll'')
         else if \<not> in_int64 v then Inl (OutOfRange ''stoll'')
         else Inr v)"

section \<open>Positions: std::string::find and substr\<close>

definition npos :: size_t where
  "npos = - 1"

fun find_pos :: "char \<Rightarrow> string \<Rightarrow> nat option" where
  "find_pos c [] = None"
| "find_pos c (x # xs) = (if x = c then Some 0 else map_option Suc (find_pos c xs))"

definition str_find :: "string \<Rightarrow> char \<Rightarrow> size_t" where
  "str_find s c = (case find_pos c s of None \<Rightarrow> npos | Some i \<Rightarrow> of_nat i)"

text \<open>\<open>s.substr(pos, cnt)\<close> throws when \<open>pos > s.size()\<close> and otherwise
  returns at most \<open>cnt\<close> characters from \<open>pos\<close>.\<close>

definition substr :: "string \<Rightarrow> size_t \<Rightarrow> size_t \<Rightarrow> string result" where
  "substr s pos cnt =
     (if length s < unat pos then Inl (OutOfRange ''basic_string::substr'')
      else Inr (take (unat cnt) (drop (unat pos) s)))"

section \<open>Lemmas: digits\<close>

lemma dec_digits_lt: "d \<in> set (dec_digits n) \<Longrightarrow> d < 10"
proof (induction n rule: dec_digits.induct)
  case (1 n)
  then show ?case
    by (cases "n < 10") (auto simp: dec_digits.simps [of n])
qed

lemma dec_digits_ne: "dec_digits n \<noteq> []"
  by (subst dec_digits.simps) simp

lemma of_char_digit_char: "d < 10 \<Longrightarrow> (of_char (digit_char d) :: nat) = 48 + d"
  by (simp add: digit_char_def)

lemma is_digit_digit_char [simp]: "d < 10 \<Longrightarrow> is_digit (digit_char d)"
  by (simp add: is_digit_def of_char_digit_char)

lemma digit_value_digit_char [simp]: "d < 10 \<Longrightarrow> digit_value (digit_char d) = d"
  by (simp add: digit_value_def of_char_digit_char)

lemma digits_value_snoc:
  "digits_value (ds @ [c]) = 10 * digits_value ds + digit_value c"
  by (simp add: digits_value_def)

lemma digits_value_to_string_nat [simp]: "digits_value (to_string_nat n) = n"
proof (induction n rule: dec_digits.induct)
  case (1 n)
  show ?case
  proof (cases "n < 10")
    case True
    then show ?thesis
      by (simp add: to_string_nat_def dec_digits.simps [of n] digits_value_def)
  next
    case False
    then have "to_string_nat n = to_string_nat (n div 10) @ [digit_char (n mod 10)]"
      by (simp add: to_string_nat_def dec_digits.simps [of n])
    with False "1.IH" show ?thesis
      by (simp add: digits_value_snoc)
  qed
qed

lemma to_string_nat_digits: "c \<in> set (to_string_nat n) \<Longrightarrow> is_digit c"
  by (auto simp: to_string_nat_def dec_digits_lt)

lemma to_string_nat_ne [simp]: "to_string_nat n \<noteq> []"
  by (simp add: to_string_nat_def dec_digits_ne)

lemma takeWhile_digits_append:
  assumes "rest = [] \<or> \<not> is_digit (hd rest)"
  shows "takeWhile is_digit (to_string_nat n @ rest) = to_string_nat n"
  using assms by (cases rest) (auto simp: takeWhile_append2 to_string_nat_digits)

lemma not_space_digit: "is_digit c \<Longrightarrow> \<not> is_space c"
  by (auto simp: is_digit_def is_space_def)

lemma hd_to_string_nat_digit: "is_digit (hd (to_string_nat n))"
  using to_string_nat_ne to_string_nat_digits hd_in_set by blast

lemma digit_not_sign: "is_digit c \<Longrightarrow> c \<noteq> CHR ''-'' \<and> c \<noteq> CHR ''+''"
  by (auto simp: is_digit_def)

section \<open>Round trip of to_string and stoll\<close>

lemma stoll_digit_start:
  assumes "u \<noteq> []" and "is_digit (hd u)"
  shows "stoll u =
           (let v = int (digits_value (takeWhile is_digit u))
            in if in_int64 v then Inr v else Inl (OutOfRange ''stoll''))"
proof -
  obtain c cs where u: "u = c # cs"
    using assms(1) by (cases u) auto
  with assms(2) have "is_digit c" by simp
  then have "\<not> is_space c" and "c \<noteq> CHR ''-''" and "c \<noteq> CHR ''+''"
    using not_space_digit digit_not_sign by blast+
  with u \<open>is_digit c\<close> show ?thesis
    by (simp add: stoll_def Let_def)
qed

lemma stoll_nonneg_append:
  assumes "rest = [] \<or> \<not> is_digit (hd rest)" and "n \<le> nat int64_max"
  shows "stoll (to_string_nat n @ rest) = Inr (int n)"
proof -
  have hd: "is_digit (hd (to_string_nat n @ rest))"
    using hd_to_string_nat_digit [of n] by simp
  have rng: "in_int64 (int n)"
    using assms(2) by (simp add: in_int64_def int64_min_def int64_max_def)
  show ?thesis
    using stoll_digit_start [OF _ hd] assms(1) rng
    by (simp add: takeWhile_digits_append)
qed

lemma stoll_neg_append:
  assumes "rest = [] \<or> \<not> is_digit (hd rest)" and "n \<le> nat (- int64_min)"
  shows "stoll (CHR ''-'' # to_string_nat n @ rest) = Inr (- int n)"
proof -
  have rng: "in_int64 (- int n)"
    using assms(2) by (simp add: in_int64_def int64_min_def int64_max_def)
  have ns: "\<not> is_space (CHR ''-'')"
    by (simp add: is_space_def)
  show ?thesis
    using assms(1) rng ns
    by (simp add: stoll_def takeWhile_digits_append Let_def)
qed

lemma stoll_to_string_append:
  assumes "in_int64 i" and "rest = [] \<or> \<not> is_digit (hd rest)"
  shows "stoll (to_string i @ rest) = Inr i"
proof (cases "i < 0")
  case True
  then have "nat (- i) \<le> nat (- int64_min)"
    using assms(1) by (intro nat_mono) (simp add: in_int64_def)
  with True assms(2) show ?thesis
    by (simp add: to_string_def stoll_neg_append)
next
  case False
  then have "nat i \<le> nat int64_max"
    using assms(1) by (intro nat_mono) (simp add: in_int64_def)
  with False assms(2) show ?thesis
    by (simp add: to_string_def stoll_nonneg_append)
qed

section \<open>Lemmas: find and substr\<close>

lemma find_pos_None: "find_pos c s = None \<longleftrightarrow> c \<notin> set s"
  by (induction s) auto

lemma find_pos_Some:
  "find_pos c s = Some i \<Longrightarrow> i < length s \<and> s ! i = c \<and> c \<notin> set (take i s)"
proof (induction s arbitrary: i)
  case Nil
  then show ?case by simp
next
  case (Cons x xs)
  then show ?case
    by (cases "x = c") (auto simp: nth_Cons' split: if_splits)
qed

lemma find_pos_append_notin:
  "c \<notin> set xs \<Longrightarrow> find_pos c (xs @ c # ys) = Some (length xs)"
  by (induction xs) auto

lemma str_find_not_found: "c \<notin> set s \<Longrightarrow> str_find s c = npos"
  by (simp add: str_find_def find_pos_None [THEN iffD2])

lemma npos_plus_one [simp]: "npos + 1 = 0"
  by (simp add: npos_def unsigned_minus_1_eq_mask mask_eq_exp_minus_1)

lemma unat_npos: "unat npos = 2 ^ 64 - 1"
  by (simp add: npos_def unsigned_minus_1_eq_mask mask_eq_exp_minus_1)

lemma substr_zero_npos:
  "length s < 2 ^ 64 \<Longrightarrow> substr s 0 npos = Inr s"
  by (simp add: substr_def unat_npos)

lemma substr_after:
  assumes "length (xs @ c # ys) < 2 ^ 64"
  shows "substr (xs @ c # ys) (of_nat (length xs) + 1) npos = Inr ys"
proof -
  have "unat (of_nat (length xs) + 1 :: size_t) = Suc (length xs)"
    using assms by (simp add: unat_word_ariths unat_of_nat)
  then show ?thesis
    using assms by (simp add: substr_def unat_npos)
qed

section \<open>Lemmas: lengths of decimals\<close>

lemma to_string_nat_length_le:
  "n < 10 ^ k \<Longrightarrow> 0 < k \<Longrightarrow> length (to_string_nat n) \<le> k"
proof (induction n arbitrary: k rule: dec_digits.induct)
  case (1 n)
  show ?case
  proof (cases "n < 10")
    case True
    with "1.prems" show ?thesis
      by (simp add: to_string_nat_def dec_digits.simps [of n])
  next
    case False
    then obtain k' where k: "k = Suc k'" and "0 < k'"
      using "1.prems" by (cases k; cases "k - 1") (auto simp: power_Suc)
    have "n div 10 < 10 ^ k'"
      using "1.prems"(1) k by (simp add: less_mult_imp_div_less mult.commute)
    with False "1.IH" \<open>0 < k'\<close> have "length (to_string_nat (n div 10)) \<le> k'"
      by simp
    with False k show ?thesis
      by (simp add: to_string_nat_def dec_digits.simps [of n])
  qed
qed

lemma to_string_nat_int64:
  "int n \<le> int64_max \<Longrightarrow> length (to_string_nat n) \<le> 19"
  by (rule to_string_nat_length_le) (simp_all add: int64_max_def)

lemma digit_not_slash: "is_digit c \<Longrightarrow> c \<noteq> CHR ''/''"
  by (auto simp: is_digit_def)

lemma slash_notin_to_string_nat: "CHR ''/'' \<notin> set (to_string_nat n)"
  using to_string_nat_digits digit_not_slash by blast

section \<open>Evaluating decimals of numerals\<close>

text \<open>The digit table and the collection that prints a numeral by \<open>simp\<close>,
  one division by ten per digit (\<open>if_weak_cong\<close> keeps \<open>simp\<close> out of the branch
  not taken).\<close>

lemma digit_char_simps:
  "digit_char 0 = CHR ''0''" "digit_char (Suc 0) = CHR ''1''" "digit_char 2 = CHR ''2''"
  "digit_char 3 = CHR ''3''" "digit_char 4 = CHR ''4''" "digit_char 5 = CHR ''5''"
  "digit_char 6 = CHR ''6''" "digit_char 7 = CHR ''7''" "digit_char 8 = CHR ''8''"
  "digit_char 9 = CHR ''9''"
  by code_simp+

lemmas to_string_eval = to_string_def to_string_nat_def dec_digits.simps digit_char_simps

end
