(* ===== verification/Share_File_Ranges.thy ===== *)
theory Share_File_Ranges
  imports Std_String
begin

text \<open>
  The byte-range operations of \<open>FileClient\<close> (src/sdk/storage/src/shares/
  share_file_client.cpp): how \<open>Download\<close>, \<open>UploadRange\<close>,
  \<open>UploadRangeFromUrl\<close>, \<open>ClearRange\<close> and \<open>GetRangeList\<close> turn their
  offset and length arguments into the protocol layer's options, above all the
  HTTP range header \<open>bytes=<start>-<end>\<close> (inclusive end) or \<open>bytes=<start>-\<close>.
  A parser of that header, as the service reads it (specification section 6),
  gives the round trip and shows which arguments produce no valid range.
\<close>

section \<open>The range header\<close>

text \<open>\<open>"bytes=" + to_string(o) + "-" [+ to_string(o + l - 1)]\<close>, the expression
  each operation writes out.\<close>

definition range_string :: "int \<Rightarrow> int option \<Rightarrow> string" where
  "range_string off len =
     ''bytes='' @ to_string off @ ''-'' @
     (case len of None \<Rightarrow> [] | Some l \<Rightarrow> to_string (off + l - 1))"

text \<open>The header as the service reads it: a start, a dash and an optional end,
  all decimal digits.\<close>

definition parse_bounds :: "string \<Rightarrow> (int \<times> int option) option" where
  "parse_bounds r =
     (let ds = takeWhile is_digit r; rest = dropWhile is_digit r
      in if ds = [] then None
         else case rest of
                c # es \<Rightarrow>
                  if c \<noteq> CHR ''-'' then None
                  else if es = [] then Some (int (digits_value ds), None)
                  else if list_all is_digit es
                  then Some (int (digits_value ds), Some (int (digits_value es)))
                  else None
              | [] \<Rightarrow> None)"

definition parse_range :: "string \<Rightarrow> (int \<times> int option) option" where
  "parse_range h = (if take 6 h = ''bytes='' then parse_bounds (drop 6 h) else None)"

section \<open>Options and protocol-layer requests\<close>

record DownloadFileOptions =
  dfo_Offset :: "int option"
  dfo_Length :: "int option"
  dfo_GetRangeContentMD5 :: "bool option"
  dfo_LeaseId :: "string option"

record DownloadRequest =
  dl_Range :: "string option"
  dl_GetRangeContentMD5 :: "bool option"
  dl_LeaseIdOptional :: "string option"

definition default_download_options :: DownloadFileOptions where
  "default_download_options =
     \<lparr>dfo_Offset = None, dfo_Length = None, dfo_GetRangeContentMD5 = None, dfo_LeaseId = None\<rparr>"

text \<open>\<open>FileClient::Download\<close>, up to the REST call: a range only when an
  offset is given.\<close>

definition Download_request :: "DownloadFileOptions \<Rightarrow> DownloadRequest" where
  "Download_request opts =
     \<lparr>dl_Range = (case dfo_Offset opts of
                    None \<Rightarrow> None
                  | Some off \<Rightarrow> Some (range_string off (dfo_Length opts))),
      dl_GetRangeContentMD5 = dfo_GetRangeContentMD5 opts,
      dl_LeaseIdOptional = dfo_LeaseId opts\<rparr>"

datatype FileRangeWriteType = Update | Clear

record UploadRangeRequest =
  ur_XMsWrite :: FileRangeWriteType
  ur_ContentLength :: int
  ur_XMsRange :: string
  ur_ContentMD5 :: "string option"
  ur_LeaseIdOptional :: "string option"

record UploadFileRangeOptions =
  uro_ContentMD5 :: "string option"
  uro_LeaseId :: "string option"

text \<open>\<open>FileClient::UploadRange(content, offset)\<close>: the range covers the
  content's \<open>Length()\<close> bytes from \<open>offset\<close>.\<close>

definition UploadRange_request :: "int \<Rightarrow> int \<Rightarrow> UploadFileRangeOptions \<Rightarrow> UploadRangeRequest" where
  "UploadRange_request contentLength offset opts =
     \<lparr>ur_XMsWrite = Update,
      ur_ContentLength = contentLength,
      ur_XMsRange = range_string offset (Some contentLength),
      ur_ContentMD5 = uro_ContentMD5 opts,
      ur_LeaseIdOptional = uro_LeaseId opts\<rparr>"

record ClearFileRangeOptions =
  cro_Length :: "int option"
  cro_LeaseId :: "string option"

text \<open>\<open>FileClient::ClearRange(offset)\<close>: an \<open>UploadRange\<close> request of type
  Clear with no body.\<close>

definition ClearRange_request :: "int \<Rightarrow> ClearFileRangeOptions \<Rightarrow> UploadRangeRequest" where
  "ClearRange_request offset opts =
     \<lparr>ur_XMsWrite = Clear,
      ur_ContentLength = 0,
      ur_XMsRange = range_string offset (cro_Length opts),
      ur_ContentMD5 = None,
      ur_LeaseIdOptional = cro_LeaseId opts\<rparr>"

record GetFileRangeListOptions =
  grl_Offset :: "int option"
  grl_Length :: "int option"
  grl_LeaseId :: "string option"

record GetRangeListRequest =
  gr_XMsRange :: "string option"
  gr_LeaseIdOptional :: "string option"

definition GetRangeList_request :: "GetFileRangeListOptions \<Rightarrow> GetRangeListRequest" where
  "GetRangeList_request opts =
     \<lparr>gr_XMsRange = (case grl_Offset opts of
                       None \<Rightarrow> None
                     | Some off \<Rightarrow> Some (range_string off (grl_Length opts))),
      gr_LeaseIdOptional = grl_LeaseId opts\<rparr>"

record UploadFileRangeFromUrlOptions =
  ufo_SourceOffset :: "int option"
  ufo_SourceLength :: "int option"
  ufo_SourceContentCrc64 :: "string option"
  ufo_SourceIfMatchCrc64 :: "string option"
  ufo_SourceIfNoneMatchCrc64 :: "string option"
  ufo_LeaseId :: "string option"

text \<open>The protocol layer's \<open>UploadRangeFromUrlOptions\<close> has a \<open>TargetRange\<close>
  and a \<open>SourceRange\<close>; the client writes only the first.\<close>

record UploadRangeFromUrlRequest =
  uu_CopySource :: string
  uu_ContentLength :: int
  uu_TargetRange :: string
  uu_SourceRange :: "string option"
  uu_SourceContentCrc64 :: "string option"
  uu_SourceIfMatchCrc64 :: "string option"
  uu_SourceIfNoneMatchCrc64 :: "string option"
  uu_LeaseIdOptional :: "string option"

text \<open>\<open>FileClient::UploadRangeFromUrl(sourceUrl, offset, length)\<close>, lines
  416--439: a given source offset overwrites \<open>TargetRange\<close>.\<close>

definition UploadRangeFromUrl_request ::
  "string \<Rightarrow> int \<Rightarrow> int \<Rightarrow> UploadFileRangeFromUrlOptions \<Rightarrow> UploadRangeFromUrlRequest" where
  "UploadRangeFromUrl_request sourceUrl offset len opts =
     (let target = range_string offset (Some len);
          target' = (case ufo_SourceOffset opts of
                       None \<Rightarrow> target
                     | Some so \<Rightarrow> range_string so (ufo_SourceLength opts))
      in \<lparr>uu_CopySource = sourceUrl,
          uu_ContentLength = len,
          uu_TargetRange = target',
          uu_SourceRange = None,
          uu_SourceContentCrc64 = ufo_SourceContentCrc64 opts,
          uu_SourceIfMatchCrc64 = ufo_SourceIfMatchCrc64 opts,
          uu_SourceIfNoneMatchCrc64 = ufo_SourceIfNoneMatchCrc64 opts,
          uu_LeaseIdOptional = ufo_LeaseId opts\<rparr>)"

section \<open>Lemmas: the range header round trip\<close>

lemma to_string_nonneg: "0 \<le> i \<Longrightarrow> to_string i = to_string_nat (nat i)"
  by (simp add: to_string_def)

lemma dropWhile_digits_append:
  assumes "rest = [] \<or> \<not> is_digit (hd rest)"
  shows "dropWhile is_digit (to_string_nat n @ rest) = rest"
  using assms by (cases rest) (auto simp: dropWhile_append2 to_string_nat_digits)

lemma list_all_digits_to_string_nat: "list_all is_digit (to_string_nat n)"
  by (simp add: list_all_iff to_string_nat_digits)

lemma dash_not_digit: "\<not> is_digit (CHR ''-'')"
  by (simp add: is_digit_def)

lemma parse_range_prefix [simp]:
  "parse_range (CHR ''b'' # CHR ''y'' # CHR ''t'' # CHR ''e'' # CHR ''s'' # CHR ''='' # r) =
   parse_bounds r"
  by (simp add: parse_range_def)

lemma parse_bounds_open:
  "parse_bounds (to_string_nat n @ ''-'') = Some (int n, None)"
  using dash_not_digit
  by (simp add: parse_bounds_def takeWhile_digits_append dropWhile_digits_append Let_def)

lemma parse_bounds_closed:
  "parse_bounds (to_string_nat n @ CHR ''-'' # to_string_nat m) = Some (int n, Some (int m))"
  using dash_not_digit
  by (simp add: parse_bounds_def takeWhile_digits_append dropWhile_digits_append Let_def
                list_all_digits_to_string_nat)

lemmas range_parse_simps [range_simps] =
  parse_range_prefix parse_bounds_open parse_bounds_closed to_string_nonneg

lemma parse_range_string:
  assumes "0 \<le> off" and "case len of None \<Rightarrow> True | Some l \<Rightarrow> 0 < l"
  shows "parse_range (range_string off len) = Some (off, map_option (\<lambda>l. off + l - 1) len)"
proof (cases len)
  case None
  with assms show ?thesis
    by (simp add: range_string_def range_simps)
next
  case (Some l)
  with assms have "0 \<le> off + l - 1" by simp
  with Some assms show ?thesis
    by (simp add: range_string_def range_simps)
qed

end
