(* ===== verification/Concurrent_Transfer.thy ===== *)
theory Concurrent_Transfer
  imports Prelude
begin

text \<open>
  The concurrent transfer scheduler \<open>Storage::Details::ConcurrentTransfer\<close>
  (common/concurrent_transfer.hpp, not among the sources; modelled from the
  specification, sections 3, 4.4 and 5). Its first half is the chunk plan: the
  byte range \<open>[offset, offset + length)\<close> cut into chunks of \<open>chunkSize\<close>
  bytes, the last one shorter, chunk \<open>i\<close> starting at \<open>offset + chunkSize * i\<close>.
  The plan is proved equal to a reference that peels one chunk at a time, and
  the reference is proved to partition the range.
\<close>

section \<open>The chunk plan\<close>

text \<open>A chunk is \<open>(offset, length, chunkId)\<close>, the first three arguments the
  scheduler passes to the chunk worker.\<close>

type_synonym chunk = "int \<times> int \<times> nat"

definition num_chunks :: "int \<Rightarrow> int \<Rightarrow> int" where
  "num_chunks len chunkSize = cpp_div (len + chunkSize - 1) chunkSize"

definition chunk_at :: "int \<Rightarrow> int \<Rightarrow> int \<Rightarrow> nat \<Rightarrow> chunk" where
  "chunk_at offset len chunkSize i =
     (offset + chunkSize * int i, min (len - chunkSize * int i) chunkSize, i)"

definition chunk_plan :: "int \<Rightarrow> int \<Rightarrow> int \<Rightarrow> chunk list" where
  "chunk_plan offset len chunkSize =
     map (chunk_at offset len chunkSize) [0..<nat (num_chunks len chunkSize)]"

text \<open>The reference: emit a chunk of at most \<open>cs\<close> bytes and continue after it.\<close>

function split_range :: "int \<Rightarrow> int \<Rightarrow> int \<Rightarrow> nat \<Rightarrow> chunk list" where
  "split_range off len cs i =
     (if len \<le> 0 \<or> cs \<le> 0 then []
      else (off, min len cs, i) # split_range (off + cs) (len - cs) cs (Suc i))"
  by pat_completeness auto
termination
  by (relation "measure (\<lambda>(off, len, cs, i). nat len)") auto

declare split_range.simps [simp del]

text \<open>A list of chunks covers \<open>[s, e)\<close> when each starts where the previous one
  ended, each is non-empty, and the last ends at \<open>e\<close>.\<close>

fun covers :: "int \<Rightarrow> chunk list \<Rightarrow> int \<Rightarrow> bool" where
  "covers s [] e = (s = e)"
| "covers s ((off, l, _) # cs) e = (off = s \<and> 0 < l \<and> covers (s + l) cs e)"

definition chunk_range :: "chunk \<Rightarrow> int set" where
  "chunk_range c = (case c of (off, l, _) \<Rightarrow> {off..<off + l})"

definition chunk_end :: "chunk \<Rightarrow> int" where
  "chunk_end c = (case c of (off, l, _) \<Rightarrow> off + l)"

definition chunk_start :: "chunk \<Rightarrow> int" where
  "chunk_start c = fst c"

definition chunk_id :: "chunk \<Rightarrow> nat" where
  "chunk_id c = snd (snd c)"

definition chunk_len :: "chunk \<Rightarrow> int" where
  "chunk_len c = fst (snd c)"

section \<open>Lemmas: the reference split\<close>

lemma split_range_unfold:
  "0 < len \<Longrightarrow> 0 < cs \<Longrightarrow>
   split_range off len cs i = (off, min len cs, i) # split_range (off + cs) (len - cs) cs (Suc i)"
  by (simp add: split_range.simps [of off len cs i])

lemma split_range_stop: "len \<le> 0 \<Longrightarrow> split_range off len cs i = []"
  by (simp add: split_range.simps [of off len cs i])

lemma split_range_covers:
  "0 < cs \<Longrightarrow> 0 \<le> len \<Longrightarrow> covers off (split_range off len cs i) (off + len)"
proof (induction off len cs i rule: split_range.induct)
  case (1 off len cs i)
  show ?case
  proof (cases "len \<le> 0")
    case True
    with "1.prems" show ?thesis by (simp add: split_range_stop)
  next
    case False
    show ?thesis
    proof (cases "len \<le> cs")
      case True
      with False "1.prems" show ?thesis
        by (simp add: split_range_unfold split_range_stop)
    next
      case big: False
      with False "1.prems" "1.IH" have "covers (off + cs) (split_range (off + cs) (len - cs) cs (Suc i)) (off + len)"
        by simp
      with False big "1.prems" show ?thesis
        by (simp add: split_range_unfold)
    qed
  qed
qed

lemma split_range_bounded:
  "c \<in> set (split_range off len cs i) \<Longrightarrow> 0 < chunk_len c \<and> chunk_len c \<le> cs"
proof (induction off len cs i rule: split_range.induct)
  case (1 off len cs i)
  then show ?case
    by (cases "len \<le> 0 \<or> cs \<le> 0")
       (auto simp: split_range.simps [of off len cs i] chunk_len_def)
qed

lemma split_range_ids:
  "map chunk_id (split_range off len cs i) = [i..<i + length (split_range off len cs i)]"
proof (induction off len cs i rule: split_range.induct)
  case (1 off len cs i)
  then show ?case
    by (cases "len \<le> 0 \<or> cs \<le> 0")
       (auto simp: split_range.simps [of off len cs i] chunk_id_def upt_rec)
qed

section \<open>Lemmas: covering lists partition the range\<close>

lemma covers_le: "covers s cs e \<Longrightarrow> s \<le> e"
  by (induction s cs e rule: covers.induct) auto

lemma covers_starts: "covers s cs e \<Longrightarrow> c \<in> set cs \<Longrightarrow> s \<le> chunk_start c"
  by (induction s cs e rule: covers.induct) (force simp: chunk_start_def)+

lemma covers_union:
  "covers s cs e \<Longrightarrow> (\<Union>c\<in>set cs. chunk_range c) = {s..<e}"
proof (induction s cs e rule: covers.induct)
  case (1 s e)
  then show ?case by simp
next
  case (2 s off l i cs e)
  then have "s < s + l" and "s + l \<le> e" and u: "(\<Union>c\<in>set cs. chunk_range c) = {s + l..<e}"
    by (auto dest: covers_le)
  with "2.prems" show ?case
    by (auto simp: chunk_range_def)
qed

lemma covers_ordered:
  "covers s cs e \<Longrightarrow> sorted_wrt (\<lambda>a b. chunk_end a \<le> chunk_start b) cs"
proof (induction s cs e rule: covers.induct)
  case (1 s e)
  then show ?case by simp
next
  case (2 s off l i cs e)
  then show ?case
    by (auto simp: chunk_end_def dest: covers_starts)
qed

lemma ordered_disjoint:
  assumes "sorted_wrt (\<lambda>a b. chunk_end a \<le> chunk_start b) cs"
    and "i < j" and "j < length cs"
  shows "chunk_range (cs ! i) \<inter> chunk_range (cs ! j) = {}"
proof -
  have "chunk_end (cs ! i) \<le> chunk_start (cs ! j)"
    using assms by (simp add: sorted_wrt_iff_nth_less)
  then show ?thesis
    by (auto simp: chunk_range_def chunk_end_def chunk_start_def split: prod.splits)
qed

section \<open>The plan equals the reference\<close>

lemma ceil_div_gt:
  assumes "0 < (cs::int)"
  shows "int i < (len + cs - 1) div cs \<longleftrightarrow> cs * int i < len"
proof -
  have "int i < (len + cs - 1) div cs \<longleftrightarrow> int i + 1 \<le> (len + cs - 1) div cs"
    by arith
  also have "\<dots> \<longleftrightarrow> (int i + 1) * cs \<le> len + cs - 1"
    using assms by (rule int_le_div_iff)
  also have "\<dots> \<longleftrightarrow> cs * int i < len"
    by (simp add: algebra_simps) arith
  finally show ?thesis .
qed

lemma num_chunks_nonneg:
  "0 < cs \<Longrightarrow> 0 \<le> len \<Longrightarrow> num_chunks len cs = (len + cs - 1) div cs"
  by (simp add: num_chunks_def)

lemma split_range_from:
  assumes "0 < cs" and "0 \<le> len"
  shows "split_range (off + cs * int i) (len - cs * int i) cs i =
           map (chunk_at off len cs) [i..<nat (num_chunks len cs)]"
  using assms
proof (induction "nat (num_chunks len cs) - i" arbitrary: i)
  case 0
  then have "\<not> int i < (len + cs - 1) div cs"
    by (simp add: num_chunks_nonneg)
  with "0.prems" have "len - cs * int i \<le> 0"
    by (simp add: ceil_div_gt)
  with "0.hyps" show ?case
    by (simp add: split_range_stop)
next
  case (Suc k)
  then have lt: "int i < (len + cs - 1) div cs"
    by (simp add: num_chunks_nonneg)
  with Suc.prems have pos: "0 < len - cs * int i"
    by (simp add: ceil_div_gt)
  have "k = nat (num_chunks len cs) - Suc i"
    using Suc.hyps(2) by arith
  from Suc.hyps(1) [OF this Suc.prems]
  have ih: "split_range (off + cs * int (Suc i)) (len - cs * int (Suc i)) cs (Suc i) =
              map (chunk_at off len cs) [Suc i..<nat (num_chunks len cs)]" .
  have upt: "[i..<nat (num_chunks len cs)] = i # [Suc i..<nat (num_chunks len cs)]"
    using Suc.hyps by (simp add: upt_conv_Cons)
  show ?case
    using pos Suc.prems ih
    by (simp add: split_range_unfold upt chunk_at_def algebra_simps)
qed

theorem chunk_plan_eq_split_range:
  "0 < cs \<Longrightarrow> 0 \<le> len \<Longrightarrow> chunk_plan off len cs = split_range off len cs 0"
  using split_range_from [of cs len off 0] by (simp add: chunk_plan_def)

section \<open>The scheduler\<close>

text \<open>
  The chunk worker is \<open>transferFunc(offset, length, chunkId, numChunks)\<close>; its
  effect on the state the workers share (the download buffer, the result slot)
  is a function of that state, applied when the chunk completes, or an error.
  The scheduler state records the next chunk to dispatch, the chunks in flight
  (at most \<open>concurrency\<close>), the chunks completed and the failures, both in the
  order they happened, and the cancellation flag of the operation's context.
\<close>

type_synonym 's chunk_worker = "int \<Rightarrow> int \<Rightarrow> nat \<Rightarrow> nat \<Rightarrow> 's \<Rightarrow> 's result"

record 's transfer =
  next_chunk :: nat
  in_flight :: "nat list"
  completed :: "nat list"
  failures :: "(nat \<times> error) list"
  cancelled :: bool
  shared :: 's

definition transfer_init :: "'s \<Rightarrow> 's transfer" where
  "transfer_init s =
     \<lparr>next_chunk = 0, in_flight = [], completed = [], failures = [], cancelled = False,
      shared = s\<rparr>"

definition run_chunk :: "'s chunk_worker \<Rightarrow> chunk list \<Rightarrow> nat \<Rightarrow> 's \<Rightarrow> 's result" where
  "run_chunk work plan i s = (case plan ! i of (off, l, cid) \<Rightarrow> work off l cid (length plan) s)"

text \<open>
  One step of the scheduler: a free worker slot takes the next chunk in plan
  order (only while no chunk has failed and the context is not cancelled); a
  chunk in flight completes, successfully or not; a cancelled context makes a
  chunk in flight fail with the cancellation fault; the caller cancels.
\<close>

inductive transfer_step ::
  "nat \<Rightarrow> chunk list \<Rightarrow> 's chunk_worker \<Rightarrow> 's transfer \<Rightarrow> 's transfer \<Rightarrow> bool"
  for concurrency :: nat and plan :: "chunk list" and work :: "'s chunk_worker"
where
  dispatch:
    "failures t = [] \<Longrightarrow> \<not> cancelled t \<Longrightarrow> next_chunk t < length plan \<Longrightarrow>
     length (in_flight t) < concurrency \<Longrightarrow>
     transfer_step concurrency plan work t
       (t\<lparr>next_chunk := Suc (next_chunk t), in_flight := in_flight t @ [next_chunk t]\<rparr>)"
| finish:
    "i \<in> set (in_flight t) \<Longrightarrow> run_chunk work plan i (shared t) = Inr s' \<Longrightarrow>
     transfer_step concurrency plan work t
       (t\<lparr>in_flight := remove1 i (in_flight t), completed := completed t @ [i], shared := s'\<rparr>)"
| fail:
    "i \<in> set (in_flight t) \<Longrightarrow> run_chunk work plan i (shared t) = Inl e \<Longrightarrow>
     transfer_step concurrency plan work t
       (t\<lparr>in_flight := remove1 i (in_flight t), failures := failures t @ [(i, e)]\<rparr>)"
| abort:
    "cancelled t \<Longrightarrow> i \<in> set (in_flight t) \<Longrightarrow>
     transfer_step concurrency plan work t
       (t\<lparr>in_flight := remove1 i (in_flight t), failures := failures t @ [(i, CancelledFault)]\<rparr>)"
| cancel:
    "\<not> cancelled t \<Longrightarrow> transfer_step concurrency plan work t (t\<lparr>cancelled := True\<rparr>)"

inductive_cases transfer_stepE: "transfer_step concurrency plan work t t'"

definition transfer_reach ::
  "nat \<Rightarrow> chunk list \<Rightarrow> 's chunk_worker \<Rightarrow> 's \<Rightarrow> 's transfer \<Rightarrow> bool" where
  "transfer_reach concurrency plan work s0 t =
     (transfer_step concurrency plan work)\<^sup>*\<^sup>* (transfer_init s0) t"

text \<open>The call returns once nothing is in flight and either every chunk was
  dispatched, or a chunk failed, or the context was cancelled. It reports the
  first failure, else the cancellation if chunks were left, else success.\<close>

definition transfer_final :: "chunk list \<Rightarrow> 's transfer \<Rightarrow> bool" where
  "transfer_final plan t \<longleftrightarrow>
     in_flight t = [] \<and> (next_chunk t = length plan \<or> failures t \<noteq> [] \<or> cancelled t)"

definition transfer_result :: "chunk list \<Rightarrow> 's transfer \<Rightarrow> 's result" where
  "transfer_result plan t =
     (case failures t of
        (i, e) # _ \<Rightarrow> Inl e
      | [] \<Rightarrow> if next_chunk t = length plan then Inr (shared t) else Inl CancelledFault)"

definition transfer_measure :: "chunk list \<Rightarrow> 's transfer \<Rightarrow> nat" where
  "transfer_measure plan t =
     2 * (length plan - next_chunk t) + length (in_flight t) + (if cancelled t then 0 else 1)"

text \<open>The invariant: the slots bound the chunks in flight, and every dispatched
  chunk is in exactly one of in flight, completed, failed.\<close>

definition transfer_inv :: "nat \<Rightarrow> chunk list \<Rightarrow> 's transfer \<Rightarrow> bool" where
  "transfer_inv concurrency plan t \<longleftrightarrow>
     length (in_flight t) \<le> concurrency \<and> next_chunk t \<le> length plan \<and>
     mset (in_flight t) + mset (completed t) + mset (map fst (failures t)) =
       mset [0..<next_chunk t]"

section \<open>Lemmas: the scheduler\<close>

lemma transfer_inv_init: "transfer_inv concurrency plan (transfer_init s)"
  by (simp add: transfer_inv_def transfer_init_def)

lemma mset_move_to:
  assumes "i \<in> set xs"
  shows "mset (remove1 i xs) + B + (C + {#i#}) = mset xs + B + C"
proof -
  from assms have "mset xs = mset (remove1 i xs) + {#i#}"
    by simp
  then show ?thesis
    by (simp add: ac_simps)
qed

lemma transfer_step_inv:
  assumes "transfer_step concurrency plan work t t'" and "transfer_inv concurrency plan t"
  shows "transfer_inv concurrency plan t'"
  using assms
proof (induction rule: transfer_step.induct)
  case (dispatch t)
  then show ?case
    by (simp add: transfer_inv_def)
next
  case (finish i t s')
  then show ?case
    by (auto simp: transfer_inv_def length_remove1)
next
  case (fail i t e)
  then show ?case
    using mset_move_to [of i "in_flight t" "mset (completed t)" "mset (map fst (failures t))"]
    by (auto simp: transfer_inv_def length_remove1)
next
  case (abort t i)
  then show ?case
    using mset_move_to [of i "in_flight t" "mset (completed t)" "mset (map fst (failures t))"]
    by (auto simp: transfer_inv_def length_remove1)
next
  case (cancel t)
  then show ?case
    by (simp add: transfer_inv_def)
qed

lemma transfer_reach_inv:
  "transfer_reach concurrency plan work s0 t \<Longrightarrow> transfer_inv concurrency plan t"
  unfolding transfer_reach_def
proof (induction rule: rtranclp_induct)
  case base
  then show ?case by (rule transfer_inv_init)
next
  case (step t t')
  then show ?case by (blast intro: transfer_step_inv)
qed

section \<open>The entry point and its in-order schedule\<close>

text \<open>
  \<open>ConcurrentTransfer(offset, length, chunkSize, concurrency, transferFunc)\<close>.
  A zero chunk size divides by zero when the chunk count is computed. With no
  worker slot and chunks to transfer nothing ever runs and the call waits
  forever. Otherwise the result is the one of the schedule that runs the chunks
  in plan order, each completing before the next starts, which is shown below
  to be a run of \<open>transfer_step\<close> that ends in a final state with that result.
\<close>

fun run_in_order :: "nat \<Rightarrow> chunk list \<Rightarrow> 's chunk_worker \<Rightarrow> 's \<Rightarrow> 's result" where
  "run_in_order n [] work s = Inr s"
| "run_in_order n ((off, l, i) # cs) work s =
     (case work off l i n s of Inl e \<Rightarrow> Inl e | Inr s' \<Rightarrow> run_in_order n cs work s')"

definition ConcurrentTransfer ::
  "int \<Rightarrow> int \<Rightarrow> int \<Rightarrow> int \<Rightarrow> 's chunk_worker \<Rightarrow> 's \<Rightarrow> 's result" where
  "ConcurrentTransfer offset len chunkSize concurrency work s =
     (if chunkSize = 0 then Inl (UndefinedBehaviour ''integer division by zero'')
      else let plan = chunk_plan offset len chunkSize
           in if plan \<noteq> [] \<and> concurrency \<le> 0 then Inl Blocked
              else run_in_order (length plan) plan work s)"

section \<open>Properties of the scheduler\<close>


lemma run_in_order_steps:
  assumes "drop k plan = qs" and "k \<le> length plan" and "0 < concurrency"
  shows "\<exists>t'. (transfer_step concurrency plan work)\<^sup>*\<^sup>*
                 ((transfer_init s)\<lparr>next_chunk := k, completed := [0..<k]\<rparr>) t' \<and>
              transfer_final plan t' \<and>
              transfer_result plan t' = run_in_order (length plan) qs work s"
  using assms
proof (induction qs arbitrary: k s)
  case Nil
  then have "k = length plan" by simp
  then show ?case
    by (intro exI [of _ "(transfer_init s)\<lparr>next_chunk := k, completed := [0..<k]\<rparr>"])
       (simp add: transfer_init_def transfer_final_def transfer_result_def)
next
  case (Cons c qs)
  obtain off l i where c: "c = (off, l, i)" by (cases c) auto
  let ?t = "(transfer_init s)\<lparr>next_chunk := k, completed := [0..<k]\<rparr>"
  have k: "k < length plan"
    using Cons.prems(1) by (cases "k < length plan") simp_all
  have nth: "plan ! k = c"
    using Cons.prems(1) k hd_drop_conv_nth [OF k] by simp
  have rest: "drop (Suc k) plan = qs"
    using Cons.prems(1) Cons_nth_drop_Suc [OF k] nth by simp
  let ?t1 = "?t\<lparr>next_chunk := Suc k, in_flight := [k]\<rparr>"
  have d: "transfer_step concurrency plan work ?t ?t1"
    using transfer_step.dispatch [of ?t plan concurrency work] k Cons.prems(3)
    by (simp add: transfer_init_def)
  have rc: "run_chunk work plan k s = work off l i (length plan) s"
    by (simp add: run_chunk_def nth c)
  show ?case
  proof (cases "work off l i (length plan) s")
    case (Inl e)
    let ?t2 = "?t1\<lparr>in_flight := [], failures := [(k, e)]\<rparr>"
    have "transfer_step concurrency plan work ?t1 ?t2"
      using transfer_step.fail [of k ?t1 work plan e concurrency] rc Inl
      by (simp add: transfer_init_def)
    with d have "(transfer_step concurrency plan work)\<^sup>*\<^sup>* ?t ?t2"
      by simp
    then show ?thesis
      using Inl c by (intro exI [of _ ?t2]) (simp add: transfer_init_def transfer_final_def transfer_result_def)
  next
    case (Inr s')
    let ?t2 = "(transfer_init s')\<lparr>next_chunk := Suc k, completed := [0..<Suc k]\<rparr>"
    have "transfer_step concurrency plan work ?t1 ?t2"
      using transfer_step.finish [of k ?t1 work plan s' concurrency] rc Inr
      by (simp add: transfer_init_def)
    with d have steps: "(transfer_step concurrency plan work)\<^sup>*\<^sup>* ?t ?t2"
      by simp
    obtain t' where "(transfer_step concurrency plan work)\<^sup>*\<^sup>* ?t2 t'" "transfer_final plan t'"
        "transfer_result plan t' = run_in_order (length plan) qs work s'"
      using Cons.IH [OF rest _ Cons.prems(3)] k by auto
    then show ?thesis
      using steps Inr c by (intro exI [of _ t']) auto
  qed
qed


lemma transfer_step_keeps_first_failure:
  assumes "transfer_step concurrency plan work t t'" and "failures t = (i, e) # fs"
  shows "\<exists>fs'. failures t' = (i, e) # fs' \<and> next_chunk t' = next_chunk t"
  using assms by (induction rule: transfer_step.induct) auto

lemma transfer_steps_keep_first_failure:
  assumes "(transfer_step concurrency plan work)\<^sup>*\<^sup>* t t'" and "failures t = (i, e) # fs"
  shows "\<exists>fs'. failures t' = (i, e) # fs' \<and> next_chunk t' = next_chunk t"
  using assms(1)
proof (induction rule: rtranclp_induct)
  case base
  with assms(2) show ?case by simp
next
  case (step u u')
  then obtain fs' where "failures u = (i, e) # fs'" "next_chunk u = next_chunk t" by blast
  with transfer_step_keeps_first_failure [OF step.hyps(2) this(1)] show ?case by auto
qed

text \<open>Once a chunk has failed, every later step of the scheduler keeps that
  failure first and dispatches nothing more, so the call reports it even when
  chunks still in flight, the last one included, succeed afterwards
  (specification property 9).
\<close>

lemma first_failure_reported:
  assumes "transfer_reach concurrency plan work s0 t" and "failures t = (i, e) # fs"
    and "(transfer_step concurrency plan work)\<^sup>*\<^sup>* t t'"
  shows "transfer_result plan t' = Inl e \<and> next_chunk t' = next_chunk t"
  using transfer_steps_keep_first_failure [OF assms(3,2)]
  by (auto simp: transfer_result_def)

text \<open>In every reachable scheduler state at most \<open>concurrency\<close> chunks are in
  flight (specification property 6), and the chunks in flight, completed and
  failed are the dispatched ones, each exactly once.
\<close>

lemma transfer_reach_bounded:
  assumes "transfer_reach concurrency plan work s0 t"
  shows "length (in_flight t) \<le> concurrency \<and>
         distinct (in_flight t @ completed t @ map fst (failures t)) \<and>
         set (in_flight t @ completed t @ map fst (failures t)) = {0..<next_chunk t}"
proof -
  have inv: "transfer_inv concurrency plan t"
    using assms by (rule transfer_reach_inv)
  then have m: "mset (in_flight t @ completed t @ map fst (failures t)) = mset [0..<next_chunk t]"
    by (simp add: transfer_inv_def ac_simps)
  show ?thesis
    using inv distinct_of_mset_upt [OF m] mset_eq_setD [OF m]
    by (simp add: transfer_inv_def)
qed

text \<open>The in-order schedule \<open>run_in_order\<close> that \<open>ConcurrentTransfer\<close> computes
  is a run of the scheduler: for a positive concurrency some reachable final
  state of \<open>transfer_step\<close> has its result.
\<close>

lemma run_in_order_reachable:
  assumes "0 < concurrency"
  shows "\<exists>t. transfer_reach concurrency plan work s t \<and> transfer_final plan t \<and>
             transfer_result plan t = run_in_order (length plan) plan work s"
  using run_in_order_steps [of 0 plan plan concurrency work s] assms
  by (simp add: transfer_reach_def transfer_init_def)

text \<open>The chunk plan of \<open>ConcurrentTransfer\<close> partitions the range
  (specification property 5): for a positive chunk size the chunks are ordered
  and pairwise adjacent, their union is \<open>[offset, offset + length)\<close>, each
  holds between one and \<open>chunkSize\<close> bytes, and chunk \<open>i\<close> has index \<open>i\<close>.
\<close>

lemma chunk_plan_partition:
  assumes "0 < cs" and "0 \<le> len"
  shows "(\<Union>c\<in>set (chunk_plan off len cs). chunk_range c) = {off..<off + len} \<and>
         sorted_wrt (\<lambda>a b. chunk_end a \<le> chunk_start b) (chunk_plan off len cs) \<and>
         (\<forall>c\<in>set (chunk_plan off len cs). 0 < chunk_len c \<and> chunk_len c \<le> cs) \<and>
         map chunk_id (chunk_plan off len cs) = [0..<length (chunk_plan off len cs)]"
proof -
  have cov: "covers off (chunk_plan off len cs) (off + len)"
    using assms split_range_covers [OF assms] by (simp add: chunk_plan_eq_split_range)
  show ?thesis
    using covers_union [OF cov] covers_ordered [OF cov] assms
          split_range_bounded [of _ off len cs 0] split_range_ids [of off len cs 0]
    by (simp add: chunk_plan_eq_split_range)
qed

lemma in_flight_lt_length:
  assumes "transfer_inv concurrency plan t" and "i \<in> set (in_flight t)"
  shows "i < length plan"
proof -
  have m: "mset (in_flight t @ completed t @ map fst (failures t)) = mset [0..<next_chunk t]"
    using assms(1) by (simp add: transfer_inv_def ac_simps)
  have "i \<in> set [0..<next_chunk t]"
    using mset_eq_setD [OF m] assms(2) by auto
  then show ?thesis
    using assms(1) by (simp add: transfer_inv_def)
qed

lemma chunk_plan_chunk:
  assumes "0 < cs" and "0 \<le> len" and "(o', l, i) \<in> set (chunk_plan off len cs)"
  shows "off \<le> o' \<and> o' + l \<le> off + len \<and> 0 < l"
proof -
  have cov: "covers off (chunk_plan off len cs) (off + len)"
    using split_range_covers [OF assms(1,2)] assms(1,2) by (simp add: chunk_plan_eq_split_range)
  have l: "0 < l"
    using split_range_bounded [of "(o', l, i)" off len cs 0] assms by (simp add: chunk_plan_eq_split_range chunk_len_def)
  have "chunk_range (o', l, i) \<subseteq> {off..<off + len}"
    using covers_union [OF cov] assms(3) by blast
  then have "o' \<in> {off..<off + len}" "o' + l - 1 \<in> {off..<off + len}"
    using l by (auto simp: chunk_range_def)
  with l show ?thesis by auto
qed

lemma chunk_plan_union_nth:
  assumes "0 < cs" and "0 \<le> len" and "set is = {0..<length (chunk_plan off len cs)}"
  shows "(\<exists>i\<in>set is. x \<in> chunk_range (chunk_plan off len cs ! i)) \<longleftrightarrow> x \<in> {off..<off + len}"
proof -
  have cov: "covers off (chunk_plan off len cs) (off + len)"
    using split_range_covers [OF assms(1,2)] assms(1,2) by (simp add: chunk_plan_eq_split_range)
  have "(\<exists>i\<in>set is. x \<in> chunk_range (chunk_plan off len cs ! i)) \<longleftrightarrow>
          (\<exists>i<length (chunk_plan off len cs). x \<in> chunk_range (chunk_plan off len cs ! i))"
    using assms(3) by auto
  also have "\<dots> \<longleftrightarrow> (\<exists>c\<in>set (chunk_plan off len cs). x \<in> chunk_range c)"
    by (metis in_set_conv_nth)
  also have "\<dots> \<longleftrightarrow> x \<in> {off..<off + len}"
    using covers_union [OF cov] by blast
  finally show ?thesis .
qed

section \<open>Termination and progress of the scheduler\<close>

text \<open>Every step lowers \<open>transfer_measure\<close> (two per undispatched chunk, one per
  chunk in flight, one while not cancelled), so no run is infinite; with a
  worker slot, a state that is not final always has a step, so a final state
  is reachable from every reachable state.\<close>

lemma transfer_step_measure:
  assumes "transfer_step concurrency plan work t t'"
  shows "transfer_measure plan t' < transfer_measure plan t"
  using assms
proof (induction rule: transfer_step.induct)
  case (dispatch t)
  then show ?case by (simp add: transfer_measure_def)
next
  case (finish i t s')
  then have "length (in_flight t) > 0" by (cases "in_flight t") auto
  with finish show ?case by (simp add: transfer_measure_def length_remove1)
next
  case (fail i t e)
  then have "length (in_flight t) > 0" by (cases "in_flight t") auto
  with fail show ?case by (simp add: transfer_measure_def length_remove1)
next
  case (abort t i)
  then have "length (in_flight t) > 0" by (cases "in_flight t") auto
  with abort show ?case by (simp add: transfer_measure_def length_remove1)
next
  case (cancel t)
  then show ?case by (simp add: transfer_measure_def)
qed

lemma transfer_terminates:
  "wfp (\<lambda>t' t. transfer_step concurrency plan work t t')"
proof (rule wfp_if_convertible_to_nat)
  fix t t' assume "transfer_step concurrency plan work t t'"
  then show "transfer_measure plan t' < transfer_measure plan t"
    by (rule transfer_step_measure)
qed

lemma transfer_progress:
  assumes "transfer_reach concurrency plan work s0 t" and "0 < concurrency"
    and "\<not> transfer_final plan t"
  shows "\<exists>t'. transfer_step concurrency plan work t t'"
proof (cases "in_flight t")
  case (Cons i rest)
  then have i: "i \<in> set (in_flight t)" by simp
  show ?thesis
  proof (cases "run_chunk work plan i (shared t)")
    case (Inl e)
    with i show ?thesis by (blast intro: transfer_step.fail)
  next
    case (Inr s')
    with i show ?thesis by (blast intro: transfer_step.finish)
  qed
next
  case Nil
  have "next_chunk t \<le> length plan"
    using transfer_reach_inv [OF assms(1)] by (simp add: transfer_inv_def)
  with Nil assms(3) have "next_chunk t < length plan" "failures t = []" "\<not> cancelled t"
    by (auto simp: transfer_final_def)
  with Nil assms(2) show ?thesis
    using transfer_step.dispatch [of t plan concurrency work] by auto
qed

lemma transfer_can_finish:
  assumes "transfer_reach concurrency plan work s0 t" and "0 < concurrency"
  shows "\<exists>t'. (transfer_step concurrency plan work)\<^sup>*\<^sup>* t t' \<and> transfer_final plan t'"
  using assms(1)
proof (induction "transfer_measure plan t" arbitrary: t rule: less_induct)
  case less
  show ?case
  proof (cases "transfer_final plan t")
    case True
    then show ?thesis by blast
  next
    case False
    obtain t1 where step: "transfer_step concurrency plan work t t1"
      using transfer_progress [OF less.prems assms(2) False] by blast
    have "transfer_reach concurrency plan work s0 t1"
      using less.prems step by (simp add: transfer_reach_def)
    moreover have "transfer_measure plan t1 < transfer_measure plan t"
      using step by (rule transfer_step_measure)
    ultimately obtain t' where "(transfer_step concurrency plan work)\<^sup>*\<^sup>* t1 t'" "transfer_final plan t'"
      using less.hyps by blast
    with step show ?thesis
      by (meson converse_rtranclp_into_rtranclp)
  qed
qed

end
