(* ===== verification/Share_File_Transfer.thy ===== *)
theory Share_File_Transfer
  imports Share_File_Ranges Concurrent_Transfer
begin

text \<open>
  The chunked transfers of \<open>FileClient\<close> (share_file_client.cpp):
  \<open>DownloadTo(buffer)\<close>, lines 563--681, and \<open>UploadFrom(buffer)\<close>, lines
  813--897, over the scheduler of \<open>Concurrent_Transfer\<close>. The file service is
  an external collaborator, modelled from specification section 6: a file is its
  bytes, entity tag and properties; a ranged download answers the bytes of the
  range and a \<open>Content-Range\<close> header \<open>bytes s-e/total\<close>. The download body is
  read as the byte sequence it delivers (the reliable stream's resumption,
  which makes a faulted read deliver the same bytes, is in \<open>Reliable_Stream\<close>).
\<close>

section \<open>The file service\<close>

record ShareFile =
  sf_content :: "byte list"
  sf_ETag :: string
  sf_LastModified :: string
  sf_ServerEncrypted :: bool

record DownloadFileResult =
  dr_ETag :: string
  dr_LastModified :: string
  dr_ContentRange :: "string option"
  dr_Body :: "byte list"
  dr_IsServerEncrypted :: bool

definition content_range_header :: "int \<Rightarrow> int \<Rightarrow> int \<Rightarrow> string" where
  "content_range_header s e totalSize =
     ''bytes '' @ to_string s @ ''-'' @ to_string e @ ''/'' @ to_string totalSize"

text \<open>\<open>GET\<close> of a file: the whole file without a range; with a range whose start
  lies inside the file, the bytes up to the inclusive end or the end of the
  file; otherwise the service's 416 (range not satisfiable). A header outside
  the grammar is the service's 400.\<close>

definition serve_download :: "ShareFile \<Rightarrow> DownloadRequest \<Rightarrow> DownloadFileResult result" where
  "serve_download f req =
     (let size = int (length (sf_content f));
          answer = (\<lambda>cr body. \<lparr>dr_ETag = sf_ETag f, dr_LastModified = sf_LastModified f,
                               dr_ContentRange = cr, dr_Body = body,
                               dr_IsServerEncrypted = sf_ServerEncrypted f\<rparr>)
      in case dl_Range req of
           None \<Rightarrow> Inr (answer None (sf_content f))
         | Some h \<Rightarrow>
             (case parse_range h of
                None \<Rightarrow> Inl (ServiceFault 400)
              | Some (s, e) \<Rightarrow>
                  (let e' = min (value_or e (size - 1)) (size - 1)
                   in if size \<le> s \<or> e' < s then Inl (ServiceFault 416)
                      else Inr (answer (Some (content_range_header s e' size))
                                   (take (nat (e' - s + 1)) (drop (nat s) (sf_content f)))))))"

section \<open>FileClient::Download and the helpers of DownloadTo\<close>

definition Download :: "ShareFile \<Rightarrow> DownloadFileOptions \<Rightarrow> DownloadFileResult result" where
  "Download f opts = serve_download f (Download_request opts)"

text \<open>\<open>BodyStream::ReadToCount(stream, buffer, count)\<close>: reads until \<open>count\<close>
  bytes or the end of the stream; a count that is not positive reads nothing.\<close>

definition read_to_count :: "int \<Rightarrow> byte list \<Rightarrow> byte list" where
  "read_to_count cnt body = take (nat cnt) body"

text \<open>Copying \<open>data\<close> to \<open>buffer + off\<close>: outside the buffer it is undefined.\<close>

definition write_at :: "byte list \<Rightarrow> int \<Rightarrow> byte list \<Rightarrow> byte list result" where
  "write_at buf off data =
     (if off < 0 \<or> int (length buf) < off + int (length data)
      then Inl (UndefinedBehaviour ''write outside the buffer'')
      else Inr (take (nat off) buf @ data @ drop (nat off + length data) buf))"

text \<open>The file size from a \<open>Content-Range\<close> value:
  \<open>std::stoll(cr.substr(cr.find('/') + 1))\<close>.\<close>

definition content_range_total :: "string \<Rightarrow> int result" where
  "content_range_total cr = bind_result (substr cr (str_find cr (CHR ''/'') + 1) npos) stoll"

definition c_FileDownloadDefaultChunkSize :: int where
  "c_FileDownloadDefaultChunkSize = 4 * 1024 * 1024"

definition c_FileUploadDefaultChunkSize :: int where
  "c_FileUploadDefaultChunkSize = 4 * 1024 * 1024"

record DownloadFileToOptions =
  dto_Offset :: "int option"
  dto_Length :: "int option"
  dto_InitialChunkSize :: "int option"
  dto_ChunkSize :: "int option"
  dto_Concurrency :: int

record DownloadFileToResult =
  dtr_ETag :: string
  dtr_LastModified :: string
  dtr_IsServerEncrypted :: bool
  dtr_ContentLength :: int

text \<open>The lambda \<open>returnTypeConverter\<close>.\<close>

definition to_download_to_result :: "DownloadFileResult \<Rightarrow> DownloadFileToResult" where
  "to_download_to_result r =
     \<lparr>dtr_ETag = dr_ETag r, dtr_LastModified = dr_LastModified r,
      dtr_IsServerEncrypted = dr_IsServerEncrypted r, dtr_ContentLength = 0\<rparr>"

text \<open>Lines 571--588: the first chunk's offset, length and request options.\<close>

definition first_chunk_length :: "DownloadFileToOptions \<Rightarrow> int" where
  "first_chunk_length opts =
     (let l = value_or (dto_InitialChunkSize opts) c_FileDownloadDefaultChunkSize
      in case dto_Length opts of None \<Rightarrow> l | Some len \<Rightarrow> min l len)"

definition first_chunk_options :: "DownloadFileToOptions \<Rightarrow> DownloadFileOptions" where
  "first_chunk_options opts =
     default_download_options
       \<lparr>dfo_Offset := dto_Offset opts,
        dfo_Length := (case dto_Offset opts of
                         None \<Rightarrow> None
                       | Some _ \<Rightarrow> Some (first_chunk_length opts))\<rparr>"

text \<open>Lines 592--608: the size of the range to download.\<close>

definition file_range_size :: "DownloadFileToOptions \<Rightarrow> DownloadFileResult \<Rightarrow> int result" where
  "file_range_size opts firstChunk =
     (case dto_Offset opts of
        None \<Rightarrow> Inr (int (length (dr_Body firstChunk)))
      | Some off \<Rightarrow>
          (case dr_ContentRange firstChunk of
             None \<Rightarrow> Inl (UndefinedBehaviour ''Nullable::GetValue on an empty value'')
           | Some cr \<Rightarrow>
               bind_result (content_range_total cr)
                 (\<lambda>fileSize. let r = fileSize - off
                             in Inr (case dto_Length opts of None \<Rightarrow> r | Some l \<Rightarrow> min r l))))"

text \<open>Lines 664--675: the chunk size, given or derived from the remaining size
  and the concurrency, rounded up to a 4 KiB grain and capped.\<close>

definition c_grainSize :: int where
  "c_grainSize = 4 * 1024"

definition download_chunk_size :: "DownloadFileToOptions \<Rightarrow> int \<Rightarrow> int result" where
  "download_chunk_size opts remainingSize =
     (case dto_ChunkSize opts of
        Some c \<Rightarrow> Inr c
      | None \<Rightarrow>
          if dto_Concurrency opts = 0 then Inl (UndefinedBehaviour ''integer division by zero'')
          else
            (let c1 = cpp_div remainingSize (dto_Concurrency opts);
                 c2 = cpp_div (max c1 1 + c_grainSize - 1) c_grainSize * c_grainSize
             in Inr (min c2 c_FileDownloadDefaultChunkSize)))"

text \<open>Lines 639--660, the lambda \<open>downloadChunkFunc\<close>: download the chunk, read
  exactly its length into the buffer at its offset relative to the first chunk,
  and keep its properties when it is the chunk with the last index. Its shared
  state is the buffer and the result slot \<open>ret\<close>.\<close>

definition downloadChunkFunc ::
  "ShareFile \<Rightarrow> int \<Rightarrow> (byte list \<times> DownloadFileToResult) chunk_worker" where
  "downloadChunkFunc f firstChunkOffset offset len chunkId numChunks st =
     (case st of (buf, ret) \<Rightarrow>
        bind_result (Download f (default_download_options\<lparr>dfo_Offset := Some offset,
                                                          dfo_Length := Some len\<rparr>))
          (\<lambda>chunk.
             let bytes = read_to_count len (dr_Body chunk)
             in if int (length bytes) \<noteq> len
                then Inl (RuntimeError ''error when reading body stream'')
                else bind_result (write_at buf (offset - firstChunkOffset) bytes)
                       (\<lambda>buf'. Inr (buf', if int chunkId = int numChunks - 1
                                         then to_download_to_result chunk else ret))))"

section \<open>FileClient::DownloadTo(buffer)\<close>

definition DownloadTo_buffer ::
  "ShareFile \<Rightarrow> byte list \<Rightarrow> DownloadFileToOptions \<Rightarrow> (byte list \<times> DownloadFileToResult) result" where
  "DownloadTo_buffer f buf opts =
     (let firstChunkOffset = value_or (dto_Offset opts) 0
      in bind_result (Download f (first_chunk_options opts)) (\<lambda>firstChunk.
         bind_result (file_range_size opts firstChunk) (\<lambda>fileRangeSize.
         let firstChunkLength = min (first_chunk_length opts) fileRangeSize
         in if length buf < unat (word_of_int fileRangeSize :: size_t)
            then Inl (RuntimeError (''buffer is not big enough, file range size is '' @
                                    to_string fileRangeSize))
            else
              let bytes = read_to_count firstChunkLength (dr_Body firstChunk)
              in if int (length bytes) \<noteq> firstChunkLength
                 then Inl (RuntimeError ''error when reading body stream'')
                 else bind_result (write_at buf 0 bytes) (\<lambda>buf1.
                   let ret = to_download_to_result firstChunk;
                       remainingOffset = firstChunkOffset + firstChunkLength;
                       remainingSize = fileRangeSize - firstChunkLength
                   in bind_result (download_chunk_size opts remainingSize) (\<lambda>chunkSize.
                      bind_result
                        (ConcurrentTransfer remainingOffset remainingSize chunkSize
                           (dto_Concurrency opts) (downloadChunkFunc f firstChunkOffset)
                           (buf1, ret))
                        (\<lambda>(buf2, ret2). Inr (buf2, ret2\<lparr>dtr_ContentLength := fileRangeSize\<rparr>)))))))"

text \<open>The properties every response of a file carries into the result of
  \<open>DownloadTo\<close>, before \<open>ContentLength\<close> is set.\<close>

definition file_result :: "ShareFile \<Rightarrow> DownloadFileToResult" where
  "file_result f = \<lparr>dtr_ETag = sf_ETag f, dtr_LastModified = sf_LastModified f,
                    dtr_IsServerEncrypted = sf_ServerEncrypted f, dtr_ContentLength = 0\<rparr>"

text \<open>The buffer after the chunks \<open>done\<close> of \<open>plan\<close> have been written: every
  byte that lies in one of their ranges, relative to the first chunk's offset
  \<open>f0\<close>, is the file's byte there, and every other byte is the initial buffer's.
  A chunk is valid when it lies in the file and in the buffer.\<close>

definition chunk_valid :: "ShareFile \<Rightarrow> int \<Rightarrow> nat \<Rightarrow> chunk \<Rightarrow> bool" where
  "chunk_valid f f0 n c =
     (case c of (off, l, _) \<Rightarrow>
        f0 \<le> off \<and> 0 < l \<and> off + l \<le> int (length (sf_content f)) \<and> off - f0 + l \<le> int n)"

definition filled :: "ShareFile \<Rightarrow> int \<Rightarrow> byte list \<Rightarrow> chunk list \<Rightarrow> nat list \<Rightarrow> byte list \<Rightarrow> bool" where
  "filled f f0 b0 plan done b =
     (length b = length b0 \<and>
      (\<forall>p < length b0. b ! p = (if \<exists>i\<in>set done. f0 + int p \<in> chunk_range (plan ! i)
                                 then sf_content f ! nat (f0 + int p) else b0 ! p)))"

section \<open>Lemmas: the service's answers\<close>

lemma content_range_total_header:
  assumes "0 \<le> s" "0 \<le> e" "0 \<le> t" "s \<le> int64_max" "e \<le> int64_max" "t \<le> int64_max"
  shows "content_range_total (content_range_header s e t) = Inr t"
proof -
  define xs where "xs = ''bytes '' @ to_string s @ ''-'' @ to_string e"
  have hdr: "content_range_header s e t = xs @ CHR ''/'' # to_string t"
    by (simp add: content_range_header_def xs_def)
  have notin: "CHR ''/'' \<notin> set xs"
    using assms by (simp add: xs_def to_string_nonneg slash_notin_to_string_nat)
  have "length (to_string s) \<le> 19" "length (to_string e) \<le> 19" "length (to_string t) \<le> 19"
    using assms by (simp_all add: to_string_nonneg to_string_nat_int64)
  then have len: "length (xs @ CHR ''/'' # to_string t) < 2 ^ 64"
    by (simp add: xs_def)
  have find: "str_find (xs @ CHR ''/'' # to_string t) (CHR ''/'') = of_nat (length xs)"
    using notin by (simp add: str_find_def find_pos_append_notin)
  have rng: "in_int64 t"
    using assms by (simp add: in_int64_def int64_min_def)
  show ?thesis
    using stoll_to_string_append [OF rng, of "[]"]
    by (simp add: content_range_total_def hdr find substr_after [OF len])
qed

lemma take_min_length: "take (min n (length xs)) xs = take n xs"
  by (cases "n \<le> length xs") (simp_all add: min_def)

lemma Download_range:
  assumes "0 \<le> off" and "off < int (length (sf_content f))" and "0 < l"
  shows "Download f (default_download_options\<lparr>dfo_Offset := Some off, dfo_Length := Some l\<rparr>) =
    Inr \<lparr>dr_ETag = sf_ETag f, dr_LastModified = sf_LastModified f,
         dr_ContentRange = Some (content_range_header off
                                   (min (off + l - 1) (int (length (sf_content f)) - 1))
                                   (int (length (sf_content f)))),
         dr_Body = take (nat l) (drop (nat off) (sf_content f)),
         dr_IsServerEncrypted = sf_ServerEncrypted f\<rparr>"
proof -
  let ?c = "sf_content f"
  have "nat (min (off + l - 1) (int (length ?c) - 1) - off + 1) =
          min (nat l) (length (drop (nat off) ?c))"
    using assms by auto
  then have body: "take (nat (min (off + l - 1) (int (length ?c) - 1) - off + 1)) (drop (nat off) ?c) =
                   take (nat l) (drop (nat off) ?c)"
    by (simp only: take_min_length)
  show ?thesis
    using assms parse_range_string [of off "Some l"] body
    by (simp add: Download_def serve_download_def Download_request_def default_download_options_def
                  Let_def)
qed

lemma Download_whole:
  "dfo_Offset opts = None \<Longrightarrow>
   Download f opts =
     Inr \<lparr>dr_ETag = sf_ETag f, dr_LastModified = sf_LastModified f, dr_ContentRange = None,
          dr_Body = sf_content f, dr_IsServerEncrypted = sf_ServerEncrypted f\<rparr>"
  by (simp add: Download_def serve_download_def Download_request_def)

section \<open>Lemmas: chunks fill the buffer\<close>

lemma write_at_ok:
  "0 \<le> off \<Longrightarrow> off + int (length data) \<le> int (length buf) \<Longrightarrow>
   write_at buf off data = Inr (take (nat off) buf @ data @ drop (nat off + length data) buf)"
  by (simp add: write_at_def)

lemma downloadChunkFunc_ok:
  assumes "0 \<le> f0" "f0 \<le> off" "0 < l" "off + l \<le> int (length (sf_content f))"
    and "off - f0 + l \<le> int (length buf)"
  shows "downloadChunkFunc f f0 off l i n (buf, ret) =
           Inr (take (nat (off - f0)) buf @ take (nat l) (drop (nat off) (sf_content f)) @
                  drop (nat (off - f0) + nat l) buf,
                if int i = int n - 1 then file_result f else ret)"
proof -
  let ?d = "take (nat l) (drop (nat off) (sf_content f))"
  have len: "length ?d = nat l"
    using assms by simp
  have rd: "read_to_count l ?d = ?d"
    by (simp add: read_to_count_def)
  show ?thesis
    using assms len
    by (simp add: downloadChunkFunc_def Download_range rd write_at_ok to_download_to_result_def
                  file_result_def)
qed

lemma run_download_chunks:
  assumes "0 < cs" "0 \<le> f0" "f0 \<le> off" "0 \<le> len" "off + len \<le> int (length (sf_content f))"
    and "off - f0 + len \<le> int (length b)"
  shows "run_in_order n (split_range off len cs i) (downloadChunkFunc f f0) (b, file_result f) =
           Inr (take (nat (off - f0)) b @ take (nat len) (drop (nat off) (sf_content f)) @
                  drop (nat (off - f0) + nat len) b, file_result f)"
  using assms
proof (induction off len cs i arbitrary: b rule: split_range.induct)
  case (1 off len cs i)
  let ?c = "sf_content f" and ?k = "nat (off - f0)"
  show ?case
  proof (cases "len = 0")
    case True
    then show ?thesis by (simp add: split_range_stop)
  next
    case False
    with "1.prems" have pos: "0 < len" by simp
    let ?m = "min len cs"
    let ?X = "take (nat ?m) (drop (nat off) ?c)"
    define b1 where "b1 = take ?k b @ ?X @ drop (?k + nat ?m) b"
    have first: "downloadChunkFunc f f0 off ?m i n (b, file_result f) = Inr (b1, file_result f)"
      using "1.prems" pos downloadChunkFunc_ok [of f0 off ?m f b i n "file_result f"]
      by (simp add: b1_def)
    have unf: "split_range off len cs i = (off, ?m, i) # split_range (off + cs) (len - cs) cs (Suc i)"
      using pos "1.prems" by (simp add: split_range_unfold)
    show ?thesis
    proof (cases "len \<le> cs")
      case True
      then show ?thesis
        using first unf by (simp add: split_range_stop b1_def)
    next
      case False
      let ?Y = "take (nat (len - cs)) (drop (nat (off + cs)) ?c)"
      have lb1: "length b1 = length b"
        using "1.prems" False by (simp add: b1_def)
      have ih: "run_in_order n (split_range (off + cs) (len - cs) cs (Suc i)) (downloadChunkFunc f f0)
                  (b1, file_result f) =
                Inr (take (?k + nat cs) b1 @ ?Y @ drop (?k + nat cs + nat (len - cs)) b1, file_result f)"
      proof -
        have "nat (off + cs - f0) = ?k + nat cs" "nat (off + cs - f0) + nat (len - cs) = ?k + nat cs + nat (len - cs)"
          using "1.prems" by simp_all
        moreover have "run_in_order n (split_range (off + cs) (len - cs) cs (Suc i)) (downloadChunkFunc f f0)
                  (b1, file_result f) =
                Inr (take (nat (off + cs - f0)) b1 @ ?Y @ drop (nat (off + cs - f0) + nat (len - cs)) b1,
                     file_result f)"
          using "1.IH" [of b1] pos False "1.prems" lb1 by simp
        ultimately show ?thesis by simp
      qed
      have M: "min len cs = cs" and N: "nat len = nat cs + nat (len - cs)"
        using False "1.prems" by simp_all
      have lX: "length ?X = nat cs" and lY: "length ?Y = nat (len - cs)"
        using "1.prems" False by simp_all
      have XY: "?X @ ?Y = take (nat len) (drop (nat off) ?c)"
      proof -
        have D: "drop (nat (off + cs)) ?c = drop (nat cs) (drop (nat off) ?c)"
          using "1.prems" by (simp add: nat_add_distrib add.commute)
        show ?thesis
          by (simp only: D N M take_add)
      qed
      have b1': "b1 = take ?k b @ ?X @ drop (?k + nat cs) b"
        by (simp only: b1_def M)
      have room: "?k + nat cs + length ?Y \<le> length b"
        using "1.prems" False lY by simp
      have ov: "take (?k + nat cs) b1 @ ?Y @ drop (?k + nat cs + length ?Y) b1 =
                  take ?k b @ (?X @ ?Y) @ drop (?k + length (?X @ ?Y)) b"
        unfolding b1' using overlay_adjacent [OF lX room] .
      have "length (?X @ ?Y) = nat len"
        using lX lY N by simp
      then show ?thesis
        using first unf ih ov XY lY by simp
    qed
  qed
qed

lemma ConcurrentTransfer_download:
  assumes "0 < cs" "0 < conc" "0 \<le> f0" "f0 \<le> off" "0 \<le> len"
    and "off + len \<le> int (length (sf_content f))" "off - f0 + len \<le> int (length b)"
  shows "ConcurrentTransfer off len cs conc (downloadChunkFunc f f0) (b, file_result f) =
           Inr (take (nat (off - f0)) b @ take (nat len) (drop (nat off) (sf_content f)) @
                  drop (nat (off - f0) + nat len) b, file_result f)"
  using assms run_download_chunks [OF assms(1,3,4,5,6,7)]
  by (simp add: ConcurrentTransfer_def chunk_plan_eq_split_range)

lemma download_chunk_size_pos:
  assumes "0 < dto_Concurrency opts" and "case dto_ChunkSize opts of None \<Rightarrow> True | Some c \<Rightarrow> 0 < c"
  shows "\<exists>cs. download_chunk_size opts r = Inr cs \<and> 0 < cs"
proof (cases "dto_ChunkSize opts")
  case None
  let ?c1 = "cpp_div r (dto_Concurrency opts)"
  have "0 < (max ?c1 1 + c_grainSize - 1) div c_grainSize"
    by (simp add: c_grainSize_def)
  then have "0 < cpp_div (max ?c1 1 + c_grainSize - 1) c_grainSize * c_grainSize"
    by (simp add: c_grainSize_def)
  with None assms show ?thesis
    by (simp add: download_chunk_size_def Let_def c_FileDownloadDefaultChunkSize_def)
next
  case (Some c)
  with assms show ?thesis
    by (simp add: download_chunk_size_def)
qed

lemma fill_after_first_chunk:
  assumes "0 < cs" and "0 < conc" and "0 \<le> f0" and "0 \<le> L1" and "L1 \<le> R"
    and "f0 + R \<le> int (length (sf_content f))" and "R \<le> int (length buf)"
  shows "ConcurrentTransfer (f0 + L1) (R - L1) cs conc (downloadChunkFunc f f0)
           (take (nat L1) (drop (nat f0) (sf_content f)) @ drop (nat L1) buf, file_result f) =
         Inr (take (nat R) (drop (nat f0) (sf_content f)) @ drop (nat R) buf, file_result f)"
proof -
  let ?c = "sf_content f"
  define X where "X = take (nat L1) (drop (nat f0) ?c)"
  define b1 where "b1 = X @ drop (nat L1) buf"
  have lenX: "length X = nat L1" and lb1: "length b1 = length buf"
    using assms(3-7) by (simp_all add: X_def b1_def)
  have N: "nat R = nat L1 + nat (R - L1)"
    using assms(4,5) by (simp only: nat_add_distrib [symmetric])
  have O: "nat (f0 + L1) = nat L1 + nat f0"
    using assms(3,4) by (simp add: nat_add_distrib)
  have t1: "take (nat L1) b1 = X" and d1: "drop (nat L1 + nat (R - L1)) b1 = drop (nat R) buf"
    using lenX N by (simp_all add: b1_def add.commute)
  have XY: "X @ take (nat (R - L1)) (drop (nat (f0 + L1)) ?c) = take (nat R) (drop (nat f0) ?c)"
    by (simp only: X_def N O take_add drop_drop)
  have "take (nat L1) b1 @ take (nat (R - L1)) (drop (nat (f0 + L1)) ?c) @
          drop (nat L1 + nat (R - L1)) b1 = take (nat R) (drop (nat f0) ?c) @ drop (nat R) buf"
    by (simp only: t1 d1 XY append_assoc [symmetric])
  then show ?thesis
    using ConcurrentTransfer_download [OF assms(1,2), of f0 "f0 + L1" "R - L1" f b1] assms lb1
    by (simp add: X_def b1_def)
qed

lemma ranged_first_chunk:
  assumes "dto_Offset opts = Some off" and "0 \<le> off" and "off < int (length (sf_content f))"
    and "0 < first_chunk_length opts" and "int (length (sf_content f)) \<le> int64_max"
  shows "\<exists>r. Download f (first_chunk_options opts) = Inr r \<and>
             dr_Body r = take (nat (first_chunk_length opts)) (drop (nat off) (sf_content f)) \<and>
             to_download_to_result r = file_result f \<and>
             file_range_size opts r =
               Inr (min (int (length (sf_content f)) - off)
                        (value_or (dto_Length opts) (int (length (sf_content f)) - off)))"
proof -
  let ?n = "int (length (sf_content f))" and ?L = "first_chunk_length opts"
  have "content_range_total (content_range_header off (min (off + ?L - 1) (?n - 1)) ?n) = Inr ?n"
    using assms(2-5) by (intro content_range_total_header) auto
  then show ?thesis
    using assms(1-4) Download_range [of off f ?L]
    by (cases "dto_Length opts")
       (simp_all add: first_chunk_options_def file_range_size_def to_download_to_result_def
                      file_result_def)
qed

section \<open>Lemmas: any order of completion fills the buffer\<close>

lemma overlay_filled:
  assumes "0 \<le> f0" and "chunk_valid f f0 (length b0) (off, l, cid)" and "plan ! i = (off, l, cid)"
    and "filled f f0 b0 plan done b"
  shows "filled f f0 b0 plan (done @ [i])
           (take (nat (off - f0)) b @ take (nat l) (drop (nat off) (sf_content f)) @
              drop (nat (off - f0) + nat l) b)"
proof -
  let ?c = "sf_content f" and ?k = "nat (off - f0)"
  let ?X = "take (nat l) (drop (nat off) ?c)"
  have v: "f0 \<le> off" "0 < l" "off + l \<le> int (length ?c)" "off - f0 + l \<le> int (length b0)"
    using assms(2) by (simp_all add: chunk_valid_def)
  have lb: "length b = length b0"
    using assms(4) by (simp add: filled_def)
  have lX: "length ?X = nat l"
    using v assms(1) by simp
  have room: "?k + length ?X \<le> length b"
    using v assms(1) lb lX by arith
  have "filled f f0 b0 plan (done @ [i]) (take ?k b @ ?X @ drop (?k + length ?X) b)"
    unfolding filled_def
  proof (intro conjI allI impI)
    show "length (take ?k b @ ?X @ drop (?k + length ?X) b) = length b0"
      using v lb lX room by simp
  next
    fix p assume p: "p < length b0"
    have inr: "f0 + int p \<in> chunk_range (plan ! i) \<longleftrightarrow> ?k \<le> p \<and> p < ?k + length ?X"
      using assms(3) v lX by (auto simp: chunk_range_def)
    show "(take ?k b @ ?X @ drop (?k + length ?X) b) ! p =
          (if \<exists>j\<in>set (done @ [i]). f0 + int p \<in> chunk_range (plan ! j)
           then ?c ! nat (f0 + int p) else b0 ! p)"
    proof (cases "?k \<le> p \<and> p < ?k + length ?X")
      case True
      have q: "p - ?k < nat l"
        using True lX by linarith
      have idx: "nat off + (p - ?k) = nat (f0 + int p)"
        using True v(1) assms(1) by arith
      have "?X ! (p - ?k) = ?c ! nat (f0 + int p)"
        using q idx v assms(1) by (simp add: nth_drop)
      with True show ?thesis
        using nth_overlay [OF room, of p] lb p inr by simp
    next
      case False
      have ov: "(take ?k b @ ?X @ drop (?k + length ?X) b) ! p = b ! p"
        using nth_overlay [OF room, of p] lb p False by metis
      have "f0 + int p \<notin> chunk_range (plan ! i)"
        using False inr by blast
      then show ?thesis
        using ov p assms(4) by (simp add: filled_def)
    qed
  qed
  then show ?thesis
    using lX by simp
qed

lemma downloadChunkFunc_filled:
  assumes "0 \<le> f0" and "chunk_valid f f0 (length b0) (off, l, cid)" and "plan ! i = (off, l, cid)"
    and "filled f f0 b0 plan done b"
  shows "\<exists>b'. downloadChunkFunc f f0 off l cid n (b, file_result f) = Inr (b', file_result f) \<and>
              filled f f0 b0 plan (done @ [i]) b'"
proof -
  have v: "f0 \<le> off" "0 < l" "off + l \<le> int (length (sf_content f))" "off - f0 + l \<le> int (length b0)"
    using assms(2) by (simp_all add: chunk_valid_def)
  have "length b = length b0"
    using assms(4) by (simp add: filled_def)
  then show ?thesis
    using downloadChunkFunc_ok [OF assms(1) v(1,2,3), of b cid n "file_result f"] v(4)
          overlay_filled [OF assms] by simp
qed

lemma filled_unique:
  assumes "filled f f0 b0 plan1 done1 b1" and "filled f f0 b0 plan2 done2 b2"
    and "\<And>x. (\<exists>i\<in>set done1. x \<in> chunk_range (plan1 ! i)) \<longleftrightarrow>
              (\<exists>i\<in>set done2. x \<in> chunk_range (plan2 ! i))"
  shows "b1 = b2"
  using assms by (intro nth_equalityI) (simp_all add: filled_def)

lemma download_reach_filled:
  assumes "0 \<le> f0" and "\<forall>c\<in>set plan. chunk_valid f f0 (length b0) c"
    and "transfer_reach concurrency plan (downloadChunkFunc f f0) (b0, file_result f) t"
  shows "\<exists>b. shared t = (b, file_result f) \<and> filled f f0 b0 plan (completed t) b"
  using assms(3) unfolding transfer_reach_def
proof (induction rule: rtranclp_induct)
  case base
  show ?case
    by (simp add: transfer_init_def filled_def)
next
  case (step u u')
  have inv: "transfer_inv concurrency plan u"
    using step.hyps(1) by (intro transfer_reach_inv) (simp add: transfer_reach_def)
  obtain b where b: "shared u = (b, file_result f)" "filled f f0 b0 plan (completed u) b"
    using step.IH by blast
  from step.hyps(2) show ?case
  proof (cases rule: transfer_step.cases)
    case (finish i s')
    obtain off l cid where c: "plan ! i = (off, l, cid)"
      by (cases "plan ! i") auto
    have "i < length plan"
      using in_flight_lt_length [OF inv finish(2)] .
    then have "chunk_valid f f0 (length b0) (off, l, cid)"
      using assms(2) c by (metis nth_mem)
    from downloadChunkFunc_filled [OF assms(1) this c b(2), of "length plan"]
    obtain b' where "downloadChunkFunc f f0 off l cid (length plan) (b, file_result f) =
                       Inr (b', file_result f)" "filled f f0 b0 plan (completed u @ [i]) b'"
      by blast
    with finish b show ?thesis
      by (auto simp: run_chunk_def c)
  qed (use b in simp_all)
qed

lemma example_out_of_order_download:
  fixes F :: ShareFile
  defines "F \<equiv> \<lparr>sf_content = [1, 2, 3, 4], sf_ETag = ''0x8D1'', sf_LastModified = ''Mon'',
                  sf_ServerEncrypted = False\<rparr>"
  defines "T \<equiv> \<lparr>next_chunk = 2, in_flight = [], completed = [1, 0], failures = [],
                  cancelled = False, shared = ([1, 2, 3, 4], file_result F)\<rparr>"
  shows "transfer_reach 2 (chunk_plan 0 4 2) (downloadChunkFunc F 0) (replicate 4 0, file_result F) T"
    and "transfer_final (chunk_plan 0 4 2) T"
    and "transfer_result (chunk_plan 0 4 2) T = Inr ([1, 2, 3, 4], file_result F)"
proof -
  let ?w = "downloadChunkFunc F 0" and ?fr = "file_result F"
  have plan: "chunk_plan 0 4 2 = [(0, 2, 0), (2, 2, 1)]"
    by (simp add: chunk_plan_def num_chunks_def chunk_at_def upt_rec)
  let ?t0 = "transfer_init (replicate 4 (0::byte), ?fr)"
  let ?t1 = "?t0\<lparr>next_chunk := 1, in_flight := [0]\<rparr>"
  let ?t2 = "?t0\<lparr>next_chunk := 2, in_flight := [0, 1]\<rparr>"
  let ?t3 = "?t0\<lparr>next_chunk := 2, in_flight := [0], completed := [1], shared := ([0, 0, 3, 4], ?fr)\<rparr>"
  have c: "sf_content F = [1, 2, 3, 4]"
    by (simp add: F_def)
  have w1: "?w 2 2 1 2 (replicate 4 0, ?fr) = Inr ([0, 0, 3, 4], ?fr)"
    using downloadChunkFunc_ok [of 0 2 2 F "replicate 4 0" 1 2 ?fr] c by (simp add: numeral_eq_Suc)
  have w0: "?w 0 2 0 2 ([0, 0, 3, 4], ?fr) = Inr ([1, 2, 3, 4], ?fr)"
    using downloadChunkFunc_ok [of 0 0 2 F "[0, 0, 3, 4]" 0 2 ?fr] c by (simp add: numeral_eq_Suc)
  have s1: "transfer_step 2 (chunk_plan 0 4 2) ?w ?t0 ?t1"
    using transfer_step.dispatch [of ?t0 "chunk_plan 0 4 2" 2 ?w] by (simp add: plan transfer_init_def)
  have s2: "transfer_step 2 (chunk_plan 0 4 2) ?w ?t1 ?t2"
    using transfer_step.dispatch [of ?t1 "chunk_plan 0 4 2" 2 ?w] by (simp add: plan transfer_init_def numeral_2_eq_2)
  have s3: "transfer_step 2 (chunk_plan 0 4 2) ?w ?t2 ?t3"
    using transfer_step.finish [of 1 ?t2 ?w "chunk_plan 0 4 2" "([0, 0, 3, 4], ?fr)" 2] w1
    by (simp add: plan transfer_init_def run_chunk_def numeral_2_eq_2)
  have s4: "transfer_step 2 (chunk_plan 0 4 2) ?w ?t3 T"
    using transfer_step.finish [of 0 ?t3 ?w "chunk_plan 0 4 2" "([1, 2, 3, 4], ?fr)" 2] w0
    by (simp add: plan transfer_init_def run_chunk_def T_def numeral_2_eq_2)
  show "transfer_reach 2 (chunk_plan 0 4 2) ?w (replicate 4 0, ?fr) T"
    unfolding transfer_reach_def
    using s1 s2 s3 s4 by (meson rtranclp.rtrancl_into_rtrancl rtranclp.rtrancl_refl)
  show "transfer_final (chunk_plan 0 4 2) T"
    by (simp add: plan T_def transfer_final_def)
  show "transfer_result (chunk_plan 0 4 2) T = Inr ([1, 2, 3, 4], ?fr)"
    by (simp add: plan T_def transfer_result_def)
qed

lemma Download_past_end:
  assumes "int (length (sf_content f)) \<le> off" and "0 \<le> off" and "0 < l"
  shows "Download f (default_download_options\<lparr>dfo_Offset := Some off, dfo_Length := Some l\<rparr>) =
           Inl (ServiceFault 416)"
  using assms parse_range_string [of off "Some l"]
  by (simp add: Download_def serve_download_def Download_request_def default_download_options_def
                Let_def)

lemma example_failed_download:
  fixes F :: ShareFile
  defines "F \<equiv> \<lparr>sf_content = [1, 2], sf_ETag = ''0x8D1'', sf_LastModified = ''Mon'',
                  sf_ServerEncrypted = False\<rparr>"
  shows "transfer_reach 2 (chunk_plan 0 4 2) (downloadChunkFunc F 0) (replicate 4 0, file_result F)
           \<lparr>next_chunk = 2, in_flight = [0], completed = [], failures = [(1, ServiceFault 416)],
            cancelled = False, shared = (replicate 4 0, file_result F)\<rparr>"
    and "(transfer_step 2 (chunk_plan 0 4 2) (downloadChunkFunc F 0))\<^sup>*\<^sup>*
           \<lparr>next_chunk = 2, in_flight = [0], completed = [], failures = [(1, ServiceFault 416)],
            cancelled = False, shared = (replicate 4 0, file_result F)\<rparr>
           \<lparr>next_chunk = 2, in_flight = [], completed = [0], failures = [(1, ServiceFault 416)],
            cancelled = False, shared = ([1, 2, 0, 0], file_result F)\<rparr>"
proof -
  let ?w = "downloadChunkFunc F 0" and ?fr = "file_result F"
  have plan: "chunk_plan 0 4 2 = [(0, 2, 0), (2, 2, 1)]"
    by (simp add: chunk_plan_def num_chunks_def chunk_at_def upt_rec)
  let ?t0 = "transfer_init (replicate 4 (0::byte), ?fr)"
  let ?t1 = "?t0\<lparr>next_chunk := 1, in_flight := [0]\<rparr>"
  let ?t2 = "?t0\<lparr>next_chunk := 2, in_flight := [0, 1]\<rparr>"
  have c: "sf_content F = [1, 2]"
    by (simp add: F_def)
  have w1: "?w 2 2 1 2 (replicate 4 0, ?fr) = Inl (ServiceFault 416)"
    using Download_past_end [of F 2 2] c by (simp add: downloadChunkFunc_def)
  have w0: "?w 0 2 0 2 (replicate 4 0, ?fr) = Inr ([1, 2, 0, 0], ?fr)"
    using downloadChunkFunc_ok [of 0 0 2 F "replicate 4 0" 0 2 ?fr] c by (simp add: numeral_eq_Suc)
  have s1: "transfer_step 2 (chunk_plan 0 4 2) ?w ?t0 ?t1"
    using transfer_step.dispatch [of ?t0 "chunk_plan 0 4 2" 2 ?w] by (simp add: plan transfer_init_def)
  have s2: "transfer_step 2 (chunk_plan 0 4 2) ?w ?t1 ?t2"
    using transfer_step.dispatch [of ?t1 "chunk_plan 0 4 2" 2 ?w] by (simp add: plan transfer_init_def numeral_2_eq_2)
  have s3: "transfer_step 2 (chunk_plan 0 4 2) ?w ?t2
             \<lparr>next_chunk = 2, in_flight = [0], completed = [], failures = [(1, ServiceFault 416)],
              cancelled = False, shared = (replicate 4 0, ?fr)\<rparr>"
    using transfer_step.fail [of 1 ?t2 ?w "chunk_plan 0 4 2" "ServiceFault 416" 2] w1
    by (simp add: plan transfer_init_def run_chunk_def numeral_2_eq_2)
  show "transfer_reach 2 (chunk_plan 0 4 2) ?w (replicate 4 0, ?fr)
           \<lparr>next_chunk = 2, in_flight = [0], completed = [], failures = [(1, ServiceFault 416)],
            cancelled = False, shared = (replicate 4 0, ?fr)\<rparr>"
    unfolding transfer_reach_def
    using s1 s2 s3 by (meson rtranclp.rtrancl_into_rtrancl rtranclp.rtrancl_refl)
  let ?t3 = "\<lparr>next_chunk = 2, in_flight = [0::nat], completed = [], failures = [(1::nat, ServiceFault 416)],
              cancelled = False, shared = (replicate 4 (0::byte), ?fr)\<rparr>"
  have "transfer_step 2 (chunk_plan 0 4 2) ?w ?t3
          \<lparr>next_chunk = 2, in_flight = [], completed = [0], failures = [(1, ServiceFault 416)],
           cancelled = False, shared = ([1, 2, 0, 0], ?fr)\<rparr>"
    using transfer_step.finish [of 0 ?t3 ?w "chunk_plan 0 4 2" "([1, 2, 0, 0], ?fr)" 2] w0
    by (simp add: plan run_chunk_def numeral_2_eq_2)
  then show "(transfer_step 2 (chunk_plan 0 4 2) ?w)\<^sup>*\<^sup>* ?t3
          \<lparr>next_chunk = 2, in_flight = [], completed = [0], failures = [(1, ServiceFault 416)],
           cancelled = False, shared = ([1, 2, 0, 0], ?fr)\<rparr>"
    by (rule r_into_rtranclp)
qed

section \<open>Properties of DownloadTo\<close>

text \<open>
  C1. \<open>DownloadTo(buffer)\<close> without an offset fills the buffer with the whole
  file, whatever the first chunk's size and the chunk size, and leaves the
  rest of the buffer untouched; its result carries the file's properties and
  the file's size as \<open>ContentLength\<close>. It needs a buffer at least the file's
  size, a positive concurrency and a positive chunk size when one is given.
\<close>

theorem DownloadTo_whole_file:
  assumes "dto_Offset opts = None" and "0 \<le> first_chunk_length opts"
    and "int (length (sf_content f)) \<le> int64_max" and "length (sf_content f) \<le> length buf"
    and "0 < dto_Concurrency opts"
    and "case dto_ChunkSize opts of None \<Rightarrow> True | Some c \<Rightarrow> 0 < c"
  shows "DownloadTo_buffer f buf opts =
           Inr (sf_content f @ drop (length (sf_content f)) buf,
                (file_result f)\<lparr>dtr_ContentLength := int (length (sf_content f))\<rparr>)"
proof -
  let ?c = "sf_content f" and ?n = "int (length (sf_content f))"
  let ?L1 = "min (first_chunk_length opts) ?n"
  obtain cs where cs: "download_chunk_size opts (?n - ?L1) = Inr cs" "0 < cs"
    using download_chunk_size_pos [OF assms(5,6)] by blast
  have ct: "ConcurrentTransfer (0 + ?L1) (?n - ?L1) cs (dto_Concurrency opts) (downloadChunkFunc f 0)
              (take (nat ?L1) (drop (nat 0) ?c) @ drop (nat ?L1) buf, file_result f) =
            Inr (take (nat ?n) (drop (nat 0) ?c) @ drop (nat ?n) buf, file_result f)"
    using assms(2,4) by (intro fill_after_first_chunk cs(2) assms(5)) simp_all
  show ?thesis
    using assms ct cs
    by (simp add: DownloadTo_buffer_def Download_whole first_chunk_options_def file_range_size_def
                  unat_size_t_of_nat default_download_options_def Let_def to_download_to_result_def
                  file_result_def read_to_count_def write_at_def)
qed

theorem DownloadTo_whole_file_witness:
  "DownloadTo_buffer
     \<lparr>sf_content = [1, 2, 3, 4, 5], sf_ETag = ''0x8D1'', sf_LastModified = ''Mon'',
      sf_ServerEncrypted = True\<rparr>
     (replicate 6 0)
     \<lparr>dto_Offset = None, dto_Length = None, dto_InitialChunkSize = Some 2, dto_ChunkSize = Some 2,
      dto_Concurrency = 2\<rparr> =
   Inr ([1, 2, 3, 4, 5, 0],
        \<lparr>dtr_ETag = ''0x8D1'', dtr_LastModified = ''Mon'', dtr_IsServerEncrypted = True,
         dtr_ContentLength = 5\<rparr>)"
  using DownloadTo_whole_file
          [of "\<lparr>dto_Offset = None, dto_Length = None, dto_InitialChunkSize = Some 2,
                dto_ChunkSize = Some 2, dto_Concurrency = 2\<rparr>"
              "\<lparr>sf_content = [1, 2, 3, 4, 5], sf_ETag = ''0x8D1'', sf_LastModified = ''Mon'',
                sf_ServerEncrypted = True\<rparr>" "replicate 6 0"]
  by (simp add: first_chunk_length_def int64_max_def file_result_def numeral_eq_Suc)



text \<open>
  C3. Without an offset, \<open>DownloadTo(buffer)\<close> takes the range size from the
  whole file even when a length is given, so a buffer that holds the requested
  length but not the whole file is refused with the runtime error
  \<open>buffer is not big enough\<close>; the requested length is ignored.
\<close>

theorem DownloadTo_buffer_too_small:
  assumes "dto_Offset opts = None" and "int (length (sf_content f)) \<le> int64_max"
    and "length buf < length (sf_content f)"
  shows "DownloadTo_buffer f buf opts =
           Inl (RuntimeError (''buffer is not big enough, file range size is '' @
                              to_string (int (length (sf_content f)))))"
  using assms
  by (simp add: DownloadTo_buffer_def Download_whole first_chunk_options_def file_range_size_def
                unat_size_t_of_nat default_download_options_def Let_def)

theorem DownloadTo_buffer_too_small_witness:
  "DownloadTo_buffer
     \<lparr>sf_content = replicate 10 7, sf_ETag = ''0x8D1'', sf_LastModified = ''Mon'',
      sf_ServerEncrypted = False\<rparr>
     (replicate 5 0)
     \<lparr>dto_Offset = None, dto_Length = Some 5, dto_InitialChunkSize = None, dto_ChunkSize = None,
      dto_Concurrency = 5\<rparr> =
   Inl (RuntimeError (''buffer is not big enough, file range size is '' @ to_string 10))"
  using DownloadTo_buffer_too_small
          [of "\<lparr>dto_Offset = None, dto_Length = Some 5, dto_InitialChunkSize = None,
                dto_ChunkSize = None, dto_Concurrency = 5\<rparr>"
              "\<lparr>sf_content = replicate 10 7, sf_ETag = ''0x8D1'', sf_LastModified = ''Mon'',
                sf_ServerEncrypted = False\<rparr>" "replicate 5 0"]
  by (simp add: int64_max_def)




text \<open>
  C4. Whatever order the scheduler dispatches and completes the chunks of
  \<open>DownloadTo\<close>'s transfer in, a run that ends successfully leaves in the buffer
  exactly the file's bytes of the transferred range at their offsets from the
  first chunk, the rest of the buffer untouched, and the file's properties in
  \<open>ret\<close>: the workers write disjoint ranges and need no mutual exclusion.
\<close>

theorem download_transfer_any_order:
  assumes "0 \<le> f0" and "f0 \<le> off" and "0 < cs" and "0 < len"
    and "off + len \<le> int (length (sf_content f))" and "off - f0 + len \<le> int (length b0)"
    and "transfer_reach concurrency (chunk_plan off len cs) (downloadChunkFunc f f0) (b0, file_result f) t"
    and "transfer_final (chunk_plan off len cs) t"
    and "transfer_result (chunk_plan off len cs) t = Inr (b, r)"
  shows "b = take (nat (off - f0)) b0 @ take (nat len) (drop (nat off) (sf_content f)) @
               drop (nat (off - f0) + nat len) b0 \<and> r = file_result f"
proof -
  let ?plan = "chunk_plan off len cs"
  have valid: "\<forall>c\<in>set ?plan. chunk_valid f f0 (length b0) c"
  proof
    fix c assume c: "c \<in> set ?plan"
    obtain o' l i where ci: "c = (o', l, i)" by (cases c) auto
    have "off \<le> o' \<and> o' + l \<le> off + len \<and> 0 < l"
      using chunk_plan_chunk [OF assms(3) _ c [unfolded ci]] assms(4) by simp
    then show "chunk_valid f f0 (length b0) c"
      using ci assms(2,5,6) by (simp add: chunk_valid_def)
  qed
  obtain b' where b': "shared t = (b', file_result f)" "filled f f0 b0 ?plan (completed t) b'"
    using download_reach_filled [OF assms(1) valid assms(7)] by blast
  have fin: "failures t = []" "next_chunk t = length ?plan" "in_flight t = []"
    using assms(8,9) by (auto simp: transfer_result_def transfer_final_def split: list.splits if_splits)
  then have "mset (completed t) = mset [0..<length ?plan]"
    using transfer_reach_inv [OF assms(7)] by (simp add: transfer_inv_def)
  then have set_done: "set (completed t) = {0..<length ?plan}"
    by (metis mset_eq_setD set_upt)
  have whole: "filled f f0 b0 [(off, len, 0)] [0]
                 (take (nat (off - f0)) b0 @ take (nat len) (drop (nat off) (sf_content f)) @
                    drop (nat (off - f0) + nat len) b0)"
    using overlay_filled [of f0 f b0 off len 0 "[(off, len, 0)]" 0 "[]" b0] assms(1,2,4,5,6)
    by (simp add: chunk_valid_def filled_def)
  have "b' = take (nat (off - f0)) b0 @ take (nat len) (drop (nat off) (sf_content f)) @
               drop (nat (off - f0) + nat len) b0"
    using filled_unique [OF b'(2) whole] chunk_plan_union_nth [OF assms(3) _ set_done] assms(4)
    by (simp add: chunk_range_def)
  moreover have "Inr (b, r) = (Inr (b', file_result f) :: (byte list \<times> DownloadFileToResult) result)"
    using assms(9) fin b'(1) by (simp add: transfer_result_def)
  ultimately show ?thesis by simp
qed

theorem download_transfer_any_order_witness:
  "take 0 (replicate 4 0) @
     take (nat 4) (drop (nat 0) [1, 2, 3, 4 :: byte]) @ drop (0 + nat 4) (replicate 4 (0::byte)) =
   [1, 2, 3, 4]"
  using download_transfer_any_order [OF _ _ _ _ _ _ example_out_of_order_download] by simp
text \<open>
  C5. Once a chunk of \<open>DownloadTo\<close>'s transfer has failed, every later step keeps
  that failure first and dispatches no further chunk, so the download reports
  it even when chunks still in flight succeed afterwards (specification
  property 9).
\<close>

theorem download_transfer_first_failure:
  assumes "transfer_reach concurrency (chunk_plan off len cs) (downloadChunkFunc f f0) s t"
    and "failures t = (i, e) # fs"
    and "(transfer_step concurrency (chunk_plan off len cs) (downloadChunkFunc f f0))\<^sup>*\<^sup>* t t'"
  shows "transfer_result (chunk_plan off len cs) t' = Inl e \<and> next_chunk t' = next_chunk t"
  using first_failure_reported [OF assms] .

theorem download_transfer_first_failure_witness:
  "transfer_result (chunk_plan 0 4 2)
     \<lparr>next_chunk = 2, in_flight = [], completed = [0], failures = [(1, ServiceFault 416)],
      cancelled = False,
      shared = ([1, 2, 0, 0 :: byte],
                file_result \<lparr>sf_content = [1, 2], sf_ETag = ''0x8D1'', sf_LastModified = ''Mon'',
                             sf_ServerEncrypted = False\<rparr>)\<rparr> = Inl (ServiceFault 416)"
  using download_transfer_first_failure [OF example_failed_download(1) _ example_failed_download(2)]
  by simp

text \<open>
  C6. In every reachable state of \<open>DownloadTo\<close>'s transfer at most
  \<open>concurrency\<close> chunks are in flight (specification property 6), and the chunks
  in flight, completed and failed are the dispatched ones, each exactly once.
\<close>

theorem download_transfer_bounded:
  assumes "transfer_reach concurrency (chunk_plan off len cs) (downloadChunkFunc f f0) s t"
  shows "length (in_flight t) \<le> concurrency \<and>
         distinct (in_flight t @ completed t @ map fst (failures t)) \<and>
         set (in_flight t @ completed t @ map fst (failures t)) = {0..<next_chunk t}"
  using transfer_reach_bounded [OF assms] .

theorem download_transfer_bounded_witness:
  "distinct ([0::nat] @ [] @ [1]) \<and> set ([0::nat] @ [] @ [1]) = {0..<2}"
  using download_transfer_bounded [OF example_failed_download(1)] by simp

text \<open>
  C7. For a positive concurrency and a non-zero chunk size, the result
  \<open>ConcurrentTransfer\<close> gives \<open>DownloadTo\<close> is the result of a run of the
  scheduler that ends in a final state; with C4, the sequential model of
  \<open>DownloadTo\<close> agrees with every successful interleaving.
\<close>

theorem ConcurrentTransfer_download_is_run:
  assumes "0 < concurrency" and "chunkSize \<noteq> 0"
  shows "\<exists>t. transfer_reach (nat concurrency) (chunk_plan offset len chunkSize)
                (downloadChunkFunc f f0) s t \<and>
             transfer_final (chunk_plan offset len chunkSize) t \<and>
             transfer_result (chunk_plan offset len chunkSize) t =
               ConcurrentTransfer offset len chunkSize concurrency (downloadChunkFunc f f0) s"
  using run_in_order_reachable [of "nat concurrency" "chunk_plan offset len chunkSize"
                                   "downloadChunkFunc f f0" s] assms
  by (simp add: ConcurrentTransfer_def Let_def)

theorem ConcurrentTransfer_download_is_run_witness:
  "\<exists>t. transfer_reach 2 (chunk_plan 0 4 2)
          (downloadChunkFunc \<lparr>sf_content = [1, 2], sf_ETag = ''e'', sf_LastModified = ''m'',
                              sf_ServerEncrypted = False\<rparr> 0) (replicate 4 0, file_result \<lparr>sf_content = [], sf_ETag = ''e'', sf_LastModified = ''m'', sf_ServerEncrypted = False\<rparr>) t \<and>
       transfer_final (chunk_plan 0 4 2) t \<and>
       transfer_result (chunk_plan 0 4 2) t =
         ConcurrentTransfer 0 4 2 2
           (downloadChunkFunc \<lparr>sf_content = [1, 2], sf_ETag = ''e'', sf_LastModified = ''m'',
                               sf_ServerEncrypted = False\<rparr> 0) (replicate 4 0, file_result \<lparr>sf_content = [], sf_ETag = ''e'', sf_LastModified = ''m'', sf_ServerEncrypted = False\<rparr>)"
  using ConcurrentTransfer_download_is_run [of 2 2 0 4] by simp

end
