(* ===== verification/Share_File_Upload.thy ===== *)
theory Share_File_Upload
  imports Share_File_Transfer
begin

text \<open>
  File creation and the chunked upload of \<open>FileClient\<close> (share_file_client.cpp):
  the create request of \<open>Create\<close> (lines 136--197) and of
  \<open>UploadFrom(buffer)\<close> (lines 813--897), \<open>UploadRange\<close> (lines 394--408)
  against the service, and \<open>UploadFrom\<close> itself, which creates the file and
  uploads the buffer chunk by chunk through \<open>ConcurrentTransfer\<close>. The service
  side (Create makes a zero-filled file of the given size; Put Range writes a
  body into a range inside the file) is modelled from specification section 6.
  The upload's shared state is the file on the service and the list of range
  headers sent, in the order the requests are issued.
\<close>

section \<open>Options and the create request\<close>

text \<open>\<open>FileAttributesToString\<close> is a library function outside the sources; the
  attributes enter the model as the string it produces, and the string for
  \<open>FileAttributes::None\<close> is a constant.\<close>

record SmbProperties =
  smb_Attributes :: string
  smb_FileCreationTime :: "string option"
  smb_FileLastWriteTime :: "string option"
  smb_FilePermissionKey :: "string option"

record FileHttpHeaders =
  hh_ContentType :: string
  hh_ContentEncoding :: string
  hh_ContentLanguage :: string
  hh_CacheControl :: string
  hh_ContentDisposition :: string

record CreateFileOptions =
  cfo_Metadata :: "(string \<times> string) list"
  cfo_SmbProperties :: SmbProperties
  cfo_FilePermission :: "string option"
  cfo_HttpHeaders :: FileHttpHeaders
  cfo_FileContentMD5 :: "string option"
  cfo_LeaseId :: "string option"

record CreateRequest =
  cr_XMsContentLength :: int
  cr_FileAttributes :: string
  cr_FileCreationTime :: string
  cr_FileLastWriteTime :: string
  cr_FilePermission :: "string option"
  cr_FilePermissionKey :: "string option"
  cr_FileContentType :: "string option"
  cr_FileContentEncoding :: "string option"
  cr_FileContentLanguage :: "string option"
  cr_FileCacheControl :: "string option"
  cr_FileContentDisposition :: "string option"
  cr_FileContentMD5 :: "string option"
  cr_Metadata :: "(string \<times> string) list"
  cr_LeaseIdOptional :: "string option"

definition c_FileAttributesNone :: string where
  "c_FileAttributesNone = ''None''"

definition c_FileDefaultTimeValue :: string where
  "c_FileDefaultTimeValue = ''now''"

definition c_FileInheritPermission :: string where
  "c_FileInheritPermission = ''inherit''"

text \<open>\<open>if (!s.empty()) field = s;\<close>: an empty header is not sent.\<close>

definition nonempty_opt :: "string \<Rightarrow> string option" where
  "nonempty_opt s = (if s = [] then None else Some s)"

text \<open>The request every create path builds from the size, the SMB properties,
  the permission, the HTTP headers and the metadata; \<open>Create\<close> also passes
  the content MD5 and the lease, \<open>UploadFrom\<close> does not.\<close>

definition smb_create_request ::
  "int \<Rightarrow> SmbProperties \<Rightarrow> string option \<Rightarrow> FileHttpHeaders \<Rightarrow> (string \<times> string) list \<Rightarrow>
   CreateRequest" where
  "smb_create_request sz smb perm hh md =
     \<lparr>cr_XMsContentLength = sz,
      cr_FileAttributes = (if smb_Attributes smb = [] then c_FileAttributesNone
                           else smb_Attributes smb),
      cr_FileCreationTime = value_or (smb_FileCreationTime smb) c_FileDefaultTimeValue,
      cr_FileLastWriteTime = value_or (smb_FileLastWriteTime smb) c_FileDefaultTimeValue,
      cr_FilePermission = (case perm of
                             Some p \<Rightarrow> Some p
                           | None \<Rightarrow> (case smb_FilePermissionKey smb of
                                        Some _ \<Rightarrow> None
                                      | None \<Rightarrow> Some c_FileInheritPermission)),
      cr_FilePermissionKey = (case perm of
                                Some _ \<Rightarrow> None
                              | None \<Rightarrow> smb_FilePermissionKey smb),
      cr_FileContentType = nonempty_opt (hh_ContentType hh),
      cr_FileContentEncoding = nonempty_opt (hh_ContentEncoding hh),
      cr_FileContentLanguage = nonempty_opt (hh_ContentLanguage hh),
      cr_FileCacheControl = nonempty_opt (hh_CacheControl hh),
      cr_FileContentDisposition = nonempty_opt (hh_ContentDisposition hh),
      cr_FileContentMD5 = None,
      cr_Metadata = md,
      cr_LeaseIdOptional = None\<rparr>"

definition Create_request :: "int \<Rightarrow> CreateFileOptions \<Rightarrow> CreateRequest" where
  "Create_request fileSize opts =
     (smb_create_request fileSize (cfo_SmbProperties opts) (cfo_FilePermission opts)
        (cfo_HttpHeaders opts) (cfo_Metadata opts))
       \<lparr>cr_FileContentMD5 := cfo_FileContentMD5 opts, cr_LeaseIdOptional := cfo_LeaseId opts\<rparr>"

record UploadFileFromOptions =
  uff_Metadata :: "(string \<times> string) list"
  uff_SmbProperties :: SmbProperties
  uff_FilePermission :: "string option"
  uff_HttpHeaders :: FileHttpHeaders
  uff_ChunkSize :: "int option"
  uff_Concurrency :: int

definition UploadFrom_create_request :: "nat \<Rightarrow> UploadFileFromOptions \<Rightarrow> CreateRequest" where
  "UploadFrom_create_request bufferSize opts =
     smb_create_request (int bufferSize) (uff_SmbProperties opts) (uff_FilePermission opts)
       (uff_HttpHeaders opts) (uff_Metadata opts)"

section \<open>The service: Create and Put Range\<close>

text \<open>Create makes the file anew, zero-filled to the requested size.\<close>

definition serve_create :: "ShareFile \<Rightarrow> CreateRequest \<Rightarrow> ShareFile result" where
  "serve_create f req =
     (if cr_XMsContentLength req < 0 then Inl (ServiceFault 400)
      else Inr (f\<lparr>sf_content := replicate (nat (cr_XMsContentLength req)) 0\<rparr>))"

text \<open>Put Range: the range must be closed, inside the file, and as long as the
  body (an \<open>Update\<close>) or empty of body (a \<open>Clear\<close>, which zeroes the range).\<close>

definition serve_upload_range :: "ShareFile \<Rightarrow> UploadRangeRequest \<Rightarrow> byte list \<Rightarrow> ShareFile result" where
  "serve_upload_range f req body =
     (let c = sf_content f
      in case parse_range (ur_XMsRange req) of
           Some (s, Some e) \<Rightarrow>
             if e < s \<or> int (length c) \<le> e then Inl (ServiceFault 416)
             else
               (let data = (case ur_XMsWrite req of
                              Update \<Rightarrow> body
                            | Clear \<Rightarrow> replicate (nat (e - s + 1)) 0)
                in if int (length data) \<noteq> e - s + 1 \<or> ur_ContentLength req \<noteq> int (length body)
                   then Inl (ServiceFault 400)
                   else Inr (f\<lparr>sf_content := take (nat s) c @ data @ drop (nat (e + 1)) c\<rparr>))
         | _ \<Rightarrow> Inl (ServiceFault 400))"

section \<open>UploadRange and UploadFrom(buffer)\<close>

definition default_upload_range_options :: UploadFileRangeOptions where
  "default_upload_range_options = \<lparr>uro_ContentMD5 = None, uro_LeaseId = None\<rparr>"

text \<open>\<open>FileClient::UploadRange(content, offset)\<close>: the request built from the
  content's length, sent with the content as body.\<close>

definition UploadRange :: "ShareFile \<Rightarrow> byte list \<Rightarrow> int \<Rightarrow> UploadFileRangeOptions \<Rightarrow> ShareFile result" where
  "UploadRange f content offset opts =
     serve_upload_range f (UploadRange_request (int (length content)) offset opts) content"

text \<open>The lambda \<open>uploadPageFunc\<close> (lines 878--884): upload
  \<open>buffer[offset, offset + length)\<close> at \<open>offset\<close>. The request's range header is
  recorded when the request is issued.\<close>

definition uploadPageFunc :: "byte list \<Rightarrow> (ShareFile \<times> string list) chunk_worker" where
  "uploadPageFunc buf offset len chunkId numChunks st =
     (case st of (f, sent) \<Rightarrow>
        let content = take (nat len) (drop (nat offset) buf);
            req = UploadRange_request (int (length content)) offset default_upload_range_options
        in bind_result (UploadRange f content offset default_upload_range_options)
             (\<lambda>f'. Inr (f', sent @ [ur_XMsRange req])))"

record UploadFileFromResult =
  ufr_IsServerEncrypted :: bool

definition UploadFrom_buffer ::
  "ShareFile \<Rightarrow> byte list \<Rightarrow> UploadFileFromOptions \<Rightarrow>
   ((ShareFile \<times> string list) \<times> UploadFileFromResult) result" where
  "UploadFrom_buffer f buf opts =
     bind_result (serve_create f (UploadFrom_create_request (length buf) opts)) (\<lambda>f1.
       let chunkSize = value_or (uff_ChunkSize opts) c_FileUploadDefaultChunkSize
       in bind_result
            (ConcurrentTransfer 0 (int (length buf)) chunkSize (uff_Concurrency opts)
               (uploadPageFunc buf) (f1, []))
            (\<lambda>st. Inr (st, \<lparr>ufr_IsServerEncrypted = sf_ServerEncrypted f1\<rparr>)))"

section \<open>Lemmas: the upload writes the buffer\<close>

lemma uploadPageFunc_ok:
  assumes "0 \<le> off" and "0 < l" and "off + l \<le> int (length buf)"
    and "length (sf_content g) = length buf"
  shows "uploadPageFunc buf off l i n (g, sent) =
           Inr (g\<lparr>sf_content := take (nat off) (sf_content g) @ take (nat l) (drop (nat off) buf) @
                                 drop (nat off + nat l) (sf_content g)\<rparr>,
                sent @ [range_string off (Some l)])"
proof -
  let ?d = "take (nat l) (drop (nat off) buf)"
  have len: "int (length ?d) = l"
    using assms(1-3) by simp
  have e: "nat (off + l - 1 + 1) = nat off + nat l"
    using assms(1,2) by simp
  show ?thesis
    using assms len parse_range_string [of off "Some l"] e
    by (simp add: uploadPageFunc_def UploadRange_def UploadRange_request_def serve_upload_range_def
                  Let_def del: length_take)
qed

lemma run_upload_chunks:
  assumes "0 < cs" and "0 \<le> off" and "0 \<le> len" and "off + len \<le> int (length buf)"
    and "length (sf_content g) = length buf"
  shows "run_in_order n (split_range off len cs i) (uploadPageFunc buf) (g, sent) =
           Inr (g\<lparr>sf_content := take (nat off) (sf_content g) @ take (nat len) (drop (nat off) buf) @
                                 drop (nat off + nat len) (sf_content g)\<rparr>,
                sent @ map (\<lambda>(o', l, _). range_string o' (Some l)) (split_range off len cs i))"
  using assms
proof (induction off len cs i arbitrary: g sent rule: split_range.induct)
  case (1 off len cs i)
  let ?c = "sf_content g"
  show ?case
  proof (cases "len = 0")
    case True
    then show ?thesis by (simp add: split_range_stop)
  next
    case False
    with "1.prems" have pos: "0 < len" by simp
    let ?m = "min len cs"
    let ?X = "take (nat ?m) (drop (nat off) buf)"
    define g1 where "g1 = g\<lparr>sf_content := take (nat off) ?c @ ?X @ drop (nat off + nat ?m) ?c\<rparr>"
    have first: "uploadPageFunc buf off ?m i n (g, sent) =
                   Inr (g1, sent @ [range_string off (Some ?m)])"
      using "1.prems" pos uploadPageFunc_ok [of off ?m buf g i n sent] by (simp add: g1_def)
    have unf: "split_range off len cs i = (off, ?m, i) # split_range (off + cs) (len - cs) cs (Suc i)"
      using pos "1.prems" by (simp add: split_range_unfold)
    show ?thesis
    proof (cases "len \<le> cs")
      case True
      then show ?thesis
        using first unf by (simp add: split_range_stop g1_def)
    next
      case False
      let ?Y = "take (nat (len - cs)) (drop (nat (off + cs)) buf)"
      have M: "min len cs = cs" and N: "nat len = nat cs + nat (len - cs)"
        and O: "nat (off + cs) = nat off + nat cs"
        using False "1.prems" by (simp_all add: nat_add_distrib)
      have lX: "length ?X = nat cs" and lY: "length ?Y = nat (len - cs)"
        using "1.prems" False by simp_all
      have lg1: "length (sf_content g1) = length buf"
        using "1.prems" False by (simp add: g1_def)
      have ih: "run_in_order n (split_range (off + cs) (len - cs) cs (Suc i)) (uploadPageFunc buf)
                  (g1, sent @ [range_string off (Some ?m)]) =
                Inr (g1\<lparr>sf_content := take (nat off + nat cs) (sf_content g1) @ ?Y @
                                       drop (nat off + nat cs + nat (len - cs)) (sf_content g1)\<rparr>,
                     sent @ [range_string off (Some ?m)] @
                       map (\<lambda>(o', l, _). range_string o' (Some l)) (split_range (off + cs) (len - cs) cs (Suc i)))"
        using "1.IH" [of g1 "sent @ [range_string off (Some ?m)]"] pos False "1.prems" lg1 O by simp
      have XY: "?X @ ?Y = take (nat len) (drop (nat off) buf)"
      proof -
        have D: "drop (nat (off + cs)) buf = drop (nat cs) (drop (nat off) buf)"
          using O by (simp add: add.commute)
        show ?thesis
          by (simp only: D N M take_add)
      qed
      have room: "nat off + nat cs + length ?Y \<le> length ?c"
        using "1.prems" False lY by simp
      have g1c: "sf_content g1 = take (nat off) ?c @ ?X @ drop (nat off + nat cs) ?c"
        by (simp add: g1_def M)
      have ov: "take (nat off + nat cs) (sf_content g1) @ ?Y @
                  drop (nat off + nat cs + length ?Y) (sf_content g1) =
                take (nat off) ?c @ (?X @ ?Y) @ drop (nat off + length (?X @ ?Y)) ?c"
        unfolding g1c using overlay_adjacent [OF lX room] .
      have L2: "length (take (nat len) (drop (nat off) buf)) = nat len"
        using "1.prems" by simp
      have L1: "length (?X @ ?Y) = nat len"
        unfolding XY by (rule L2)
      have content: "take (nat off + nat cs) (sf_content g1) @ ?Y @
                       drop (nat off + nat cs + nat (len - cs)) (sf_content g1) =
                     take (nat off) ?c @ take (nat len) (drop (nat off) buf) @ drop (nat off + nat len) ?c"
        using ov unfolding lY by (simp only: XY L1 L2)
      have rec: "\<And>v. g1\<lparr>sf_content := v\<rparr> = g\<lparr>sf_content := v\<rparr>"
        by (simp add: g1_def)
      show ?thesis
        using first unf ih by (simp only: content rec run_in_order.simps sum.case append_assoc) simp
    qed
  qed
qed

section \<open>Properties of UploadFrom\<close>

text \<open>
  C11. \<open>UploadFrom(buffer)\<close> with a positive concurrency and a positive chunk
  size leaves the buffer as the file's content on the service, and sends one
  \<open>UploadRange\<close> per chunk of the plan, each with the range header of its
  chunk; the result reports the service's encryption flag. At the sizes of
  specification property 8 that is exactly three requests.
\<close>

theorem UploadFrom_buffer_uploads:
  assumes "0 < uff_Concurrency opts"
    and "0 < value_or (uff_ChunkSize opts) c_FileUploadDefaultChunkSize"
  shows "UploadFrom_buffer f buf opts =
           Inr ((f\<lparr>sf_content := buf\<rparr>,
                 map (\<lambda>(o', l, _). range_string o' (Some l))
                   (chunk_plan 0 (int (length buf)) (value_or (uff_ChunkSize opts) c_FileUploadDefaultChunkSize))),
                \<lparr>ufr_IsServerEncrypted = sf_ServerEncrypted f\<rparr>)"
proof -
  let ?cs = "value_or (uff_ChunkSize opts) c_FileUploadDefaultChunkSize"
  let ?f1 = "f\<lparr>sf_content := replicate (length buf) 0\<rparr>"
  have create: "serve_create f (UploadFrom_create_request (length buf) opts) = Inr ?f1"
    by (simp add: serve_create_def UploadFrom_create_request_def smb_create_request_def)
  have run: "run_in_order n (split_range 0 (int (length buf)) ?cs 0) (uploadPageFunc buf) (?f1, []) =
               Inr (f\<lparr>sf_content := buf\<rparr>,
                    map (\<lambda>(o', l, _). range_string o' (Some l)) (split_range 0 (int (length buf)) ?cs 0))" for n
    using run_upload_chunks [OF assms(2), of 0 "int (length buf)" buf ?f1 n 0 "[]"] by simp
  show ?thesis
    using assms create run [of "length (chunk_plan 0 (int (length buf)) ?cs)"]
    by (simp add: UploadFrom_buffer_def ConcurrentTransfer_def Let_def chunk_plan_eq_split_range)
qed

theorem UploadFrom_buffer_uploads_witness:
  "UploadFrom_buffer \<lparr>sf_content = [], sf_ETag = ''0x8D1'', sf_LastModified = ''Mon'', sf_ServerEncrypted = True\<rparr>
     (replicate 5242880 7)
     \<lparr>uff_Metadata = [], uff_SmbProperties = \<lparr>smb_Attributes = [], smb_FileCreationTime = None,
        smb_FileLastWriteTime = None, smb_FilePermissionKey = None\<rparr>,
      uff_FilePermission = None,
      uff_HttpHeaders = \<lparr>hh_ContentType = [], hh_ContentEncoding = [], hh_ContentLanguage = [],
        hh_CacheControl = [], hh_ContentDisposition = []\<rparr>,
      uff_ChunkSize = Some 2097152, uff_Concurrency = 3\<rparr> =
   Inr ((\<lparr>sf_content = replicate 5242880 7, sf_ETag = ''0x8D1'', sf_LastModified = ''Mon'',
           sf_ServerEncrypted = True\<rparr>,
         [''bytes=0-2097151'', ''bytes=2097152-4194303'', ''bytes=4194304-5242879'']),
        \<lparr>ufr_IsServerEncrypted = True\<rparr>)"
proof -
  have plan: "chunk_plan 0 5242880 2097152 = [(0, 2097152, 0), (2097152, 2097152, 1), (4194304, 1048576, 2)]"
    by (simp add: chunk_plan_def num_chunks_def chunk_at_def upt_rec)
  have hdrs: "map (\<lambda>(o', l, _). range_string o' (Some l))
                [(0, 2097152, 0::nat), (2097152, 2097152, 1), (4194304, 1048576, 2)] =
              [''bytes=0-2097151'', ''bytes=2097152-4194303'', ''bytes=4194304-5242879'']"
    by (simp add: range_string_def to_string_eval cong: if_weak_cong)
  let ?o = "\<lparr>uff_Metadata = [], uff_SmbProperties = \<lparr>smb_Attributes = [], smb_FileCreationTime = None,
                   smb_FileLastWriteTime = None, smb_FilePermissionKey = None\<rparr>,
                 uff_FilePermission = None,
                 uff_HttpHeaders = \<lparr>hh_ContentType = [], hh_ContentEncoding = [], hh_ContentLanguage = [],
                   hh_CacheControl = [], hh_ContentDisposition = []\<rparr>,
                 uff_ChunkSize = Some 2097152, uff_Concurrency = 3\<rparr>"
  have h1: "0 < uff_Concurrency ?o" and h2: "0 < value_or (uff_ChunkSize ?o) c_FileUploadDefaultChunkSize"
    by simp_all
  from UploadFrom_buffer_uploads [OF h1 h2, of "\<lparr>sf_content = [], sf_ETag = ''0x8D1'', sf_LastModified = ''Mon'', sf_ServerEncrypted = True\<rparr>" "replicate 5242880 7"]
  show ?thesis
    by (simp only: UploadFileFromOptions.simps ShareFile.simps value_or_simps length_replicate
                  of_nat_numeral plan hdrs)
qed



text \<open>
  C13. No run of the scheduler driving \<open>DownloadTo\<close>'s or \<open>UploadFrom\<close>'s chunks is
  infinite: every step lowers the number of steps still possible.
\<close>

theorem transfers_terminate:
  "wfp (\<lambda>t' t. transfer_step concurrency plan (downloadChunkFunc f f0) t t') \<and>
   wfp (\<lambda>t' t. transfer_step concurrency plan (uploadPageFunc buf) t t')"
  using transfer_terminates [of concurrency plan "downloadChunkFunc f f0"]
        transfer_terminates [of concurrency plan "uploadPageFunc buf"]
  by (rule conjI)

text \<open>
  C14. With a worker slot, from every reachable state of \<open>DownloadTo\<close>'s or
  \<open>UploadFrom\<close>'s transfer a final state is reachable: the scheduler never gets
  stuck before every chunk has finished, failed or been cancelled.
\<close>

theorem transfers_finish:
  assumes "0 < concurrency"
  shows "(transfer_reach concurrency plan (downloadChunkFunc f f0) s t \<longrightarrow>
            (\<exists>t'. (transfer_step concurrency plan (downloadChunkFunc f f0))\<^sup>*\<^sup>* t t' \<and>
                  transfer_final plan t')) \<and>
         (transfer_reach concurrency plan (uploadPageFunc buf) u v \<longrightarrow>
            (\<exists>v'. (transfer_step concurrency plan (uploadPageFunc buf))\<^sup>*\<^sup>* v v' \<and>
                  transfer_final plan v'))"
  using transfer_can_finish [OF _ assms, of plan "downloadChunkFunc f f0" s t]
        transfer_can_finish [OF _ assms, of plan "uploadPageFunc buf" u v]
  by blast

theorem transfers_finish_witness:
  "\<exists>t'. (transfer_step 2 (chunk_plan 0 4 2)
            (downloadChunkFunc \<lparr>sf_content = [1, 2], sf_ETag = ''0x8D1'', sf_LastModified = ''Mon'',
                                sf_ServerEncrypted = False\<rparr> 0))\<^sup>*\<^sup>*
          \<lparr>next_chunk = 2, in_flight = [0], completed = [], failures = [(1, ServiceFault 416)],
           cancelled = False,
           shared = (replicate 4 0, file_result \<lparr>sf_content = [1, 2], sf_ETag = ''0x8D1'',
                       sf_LastModified = ''Mon'', sf_ServerEncrypted = False\<rparr>)\<rparr> t' \<and>
        transfer_final (chunk_plan 0 4 2) t'"
proof -
  have pos: "0 < (2::nat)" by simp
  show ?thesis
  using transfers_finish [OF pos, of "chunk_plan 0 4 2"
          "\<lparr>sf_content = [1, 2], sf_ETag = ''0x8D1'', sf_LastModified = ''Mon'', sf_ServerEncrypted = False\<rparr>"
          0 "(replicate 4 0, file_result \<lparr>sf_content = [1, 2], sf_ETag = ''0x8D1'',
                       sf_LastModified = ''Mon'', sf_ServerEncrypted = False\<rparr>)"]
        example_failed_download(1)
  by blast
qed

end
