(* ===== verification/Share_File_Local.thy ===== *)
theory Share_File_Local
  imports Share_File_Upload
begin

text \<open>
  The local-file variants of the chunked transfers of \<open>FileClient\<close>
  (share_file_client.cpp): \<open>UploadFrom(file)\<close>, lines 899--985, and
  \<open>DownloadTo(file)\<close>, lines 683--811. They repeat the buffer variants with a
  local file in place of the buffer: the upload reads each chunk through a
  \<open>FileBodyStream\<close>, the download writes the body through a \<open>FileWriter\<close> in
  pieces of at most 4 MiB. The local file is its bytes; \<open>FileReader\<close>,
  \<open>FileBodyStream\<close> and \<open>FileWriter\<close> (common/file_io, outside the sources) are
  modelled as POSIX \<open>pread\<close>/\<open>pwrite\<close> on that byte list. The theorems relate
  each variant to its buffer twin.
\<close>

section \<open>Local files\<close>

text \<open>\<open>FileBodyStream(handle, offset, length)\<close>: the bytes \<open>[offset, offset + length)\<close>
  of the file, fewer at its end.\<close>

definition file_body_stream :: "byte list \<Rightarrow> int \<Rightarrow> int \<Rightarrow> byte list" where
  "file_body_stream local offset len = take (nat len) (drop (nat offset) local)"

section \<open>UploadFrom(file)\<close>

text \<open>Lines 903--957: the same create request as the buffer variant, with the
  file's size as content length.\<close>

definition UploadFrom_file_create_request :: "nat \<Rightarrow> UploadFileFromOptions \<Rightarrow> CreateRequest" where
  "UploadFrom_file_create_request fileSize opts =
     smb_create_request (int fileSize) (uff_SmbProperties opts) (uff_FilePermission opts)
       (uff_HttpHeaders opts) (uff_Metadata opts)"

text \<open>Lines 962--968, \<open>uploadPageFunc\<close> reading the chunk from the file.\<close>

definition uploadPageFunc_file :: "byte list \<Rightarrow> (ShareFile \<times> string list) chunk_worker" where
  "uploadPageFunc_file local offset len chunkId numChunks st =
     (case st of (f, sent) \<Rightarrow>
        let content = file_body_stream local offset len;
            req = UploadRange_request (int (length content)) offset default_upload_range_options
        in bind_result (UploadRange f content offset default_upload_range_options)
             (\<lambda>f'. Inr (f', sent @ [ur_XMsRange req])))"

definition UploadFrom_file ::
  "ShareFile \<Rightarrow> byte list \<Rightarrow> UploadFileFromOptions \<Rightarrow>
   ((ShareFile \<times> string list) \<times> UploadFileFromResult) result" where
  "UploadFrom_file f local opts =
     bind_result (serve_create f (UploadFrom_file_create_request (length local) opts)) (\<lambda>f1.
       let chunkSize = value_or (uff_ChunkSize opts) c_FileUploadDefaultChunkSize
       in bind_result
            (ConcurrentTransfer 0 (int (length local)) chunkSize (uff_Concurrency opts)
               (uploadPageFunc_file local) (f1, []))
            (\<lambda>st. Inr (st, \<lparr>ufr_IsServerEncrypted = sf_ServerEncrypted f1\<rparr>)))"

section \<open>DownloadTo(file)\<close>


text \<open>\<open>FileWriter::Write(buffer, length, offset)\<close>: \<open>pwrite\<close> at \<open>offset\<close>; a
  write past the end of the file leaves a hole that reads as zeros, a write of
  no bytes changes nothing.\<close>

definition file_write :: "byte list \<Rightarrow> int \<Rightarrow> byte list \<Rightarrow> byte list" where
  "file_write local offset data =
     (if data = [] then local
      else let p = nat offset
           in take p local @ replicate (p - length local) 0 @ data @ drop (p + length data) local)"

text \<open>Lines 731--751, the \<open>bodyStreamToFile\<close> lambda: copy \<open>length\<close> bytes of
  the body to the file at \<open>offset\<close> in pieces of at most \<open>bufferSize\<close> = 4 MiB,
  raising when a piece comes back short.\<close>

definition c_bodyStreamBufferSize :: int where
  "c_bodyStreamBufferSize = 4 * 1024 * 1024"

function bodyStreamToFile ::
  "byte list \<Rightarrow> byte list \<Rightarrow> int \<Rightarrow> int \<Rightarrow> (byte list \<times> byte list) result" where
  "bodyStreamToFile stream local offset len =
     (if len \<le> 0 then Inr (stream, local)
      else
        let readSize = min c_bodyStreamBufferSize len;
            bytes = read_to_count readSize stream
        in if int (length bytes) \<noteq> readSize
           then Inl (RuntimeError ''error when reading body stream'')
           else bodyStreamToFile (drop (nat readSize) stream) (file_write local offset bytes)
                  (offset + readSize) (len - readSize))"
  by pat_completeness auto
termination
  by (relation "measure (\<lambda>(stream, local, offset, len). nat len)")
     (auto simp: c_bodyStreamBufferSize_def)

declare bodyStreamToFile.simps [simp del]

text \<open>Lines 768--788, the chunk worker of \<open>DownloadTo(file)\<close>.\<close>

definition downloadChunkFunc_file ::
  "ShareFile \<Rightarrow> int \<Rightarrow> (byte list \<times> DownloadFileToResult) chunk_worker" where
  "downloadChunkFunc_file f firstChunkOffset offset len chunkId numChunks st =
     (case st of (local, ret) \<Rightarrow>
        bind_result (Download f (default_download_options\<lparr>dfo_Offset := Some offset,
                                                          dfo_Length := Some len\<rparr>))
          (\<lambda>chunk.
             bind_result (bodyStreamToFile (dr_Body chunk) local (offset - firstChunkOffset) len)
               (\<lambda>(_, local'). Inr (local', if int chunkId = int numChunks - 1
                                          then to_download_to_result chunk else ret))))"

text \<open>Lines 683--811. The \<open>FileWriter\<close> creates the local file empty.\<close>

definition DownloadTo_file ::
  "ShareFile \<Rightarrow> DownloadFileToOptions \<Rightarrow> (byte list \<times> DownloadFileToResult) result" where
  "DownloadTo_file f opts =
     (let firstChunkOffset = value_or (dto_Offset opts) 0
      in bind_result (Download f (first_chunk_options opts)) (\<lambda>firstChunk.
         bind_result (file_range_size opts firstChunk) (\<lambda>fileRangeSize.
         let firstChunkLength = min (first_chunk_length opts) fileRangeSize
         in bind_result (bodyStreamToFile (dr_Body firstChunk) [] 0 firstChunkLength) (\<lambda>(_, local1).
              let ret = to_download_to_result firstChunk;
                  remainingOffset = firstChunkOffset + firstChunkLength;
                  remainingSize = fileRangeSize - firstChunkLength
              in bind_result (download_chunk_size opts remainingSize) (\<lambda>chunkSize.
                 bind_result
                   (ConcurrentTransfer remainingOffset remainingSize chunkSize
                      (dto_Concurrency opts) (downloadChunkFunc_file f firstChunkOffset)
                      (local1, ret))
                   (\<lambda>(local2, ret2). Inr (local2, ret2\<lparr>dtr_ContentLength := fileRangeSize\<rparr>)))))))"

text \<open>The size of the range \<open>DownloadTo\<close> delivers: from the offset to the end of
  the file or to the requested length; without an offset, the whole file.\<close>

definition requested_range_size :: "ShareFile \<Rightarrow> DownloadFileToOptions \<Rightarrow> int" where
  "requested_range_size f opts =
     (let n = int (length (sf_content f))
      in case dto_Offset opts of
           None \<Rightarrow> n
         | Some off \<Rightarrow> min (n - off) (value_or (dto_Length opts) (n - off)))"

text \<open>When \<open>DownloadTo\<close> succeeds: a start inside the file, a positive first
  chunk when ranged, a file size that fits \<open>int64_t\<close>, positive concurrency and
  chunk size.\<close>

definition download_preconditions :: "ShareFile \<Rightarrow> DownloadFileToOptions \<Rightarrow> bool" where
  "download_preconditions f opts \<longleftrightarrow>
     (case dto_Offset opts of
        None \<Rightarrow> 0 \<le> first_chunk_length opts
      | Some off \<Rightarrow> 0 \<le> off \<and> off < int (length (sf_content f)) \<and> 0 < first_chunk_length opts) \<and>
     int (length (sf_content f)) \<le> int64_max \<and> 0 < dto_Concurrency opts \<and>
     (case dto_ChunkSize opts of None \<Rightarrow> True | Some c \<Rightarrow> 0 < c)"

section \<open>Properties of UploadFrom(file)\<close>


section \<open>Properties of DownloadTo(file)\<close>

lemma file_write_append [simp]: "file_write local (int (length local)) data = local @ data"
  by (simp add: file_write_def)

lemma length_file_write:
  "0 \<le> k \<Longrightarrow> d \<noteq> [] \<Longrightarrow> length (file_write local k d) = max (length local) (nat k + length d)"
  by (simp add: file_write_def Let_def)

lemma nth_file_write:
  assumes "d \<noteq> []" and "p < length (file_write local k d)"
  shows "file_write local k d ! p =
           (if nat k \<le> p \<and> p < nat k + length d then d ! (p - nat k)
            else if p < length local then local ! p else 0)"
proof -
  let ?q = "nat k"
  define P where "P = take ?q local @ replicate (?q - length local) (0::byte)"
  have lP: "length P = ?q"
    by (simp add: P_def)
  have fw: "file_write local k d = P @ (d @ drop (?q + length d) local)"
    unfolding file_write_def Let_def P_def using assms(1) by simp
  have nP: "\<And>j. j < ?q \<Longrightarrow> P ! j = (if j < length local then local ! j else 0)"
    by (auto simp: P_def nth_append)
  have len: "p < max (length local) (?q + length d)"
    using assms(2) unfolding fw by (simp add: lP)
  show ?thesis
  proof (cases "p < ?q")
    case True
    then show ?thesis
      by (simp add: fw nth_append lP nP)
  next
    case False
    then show ?thesis
      using len by (auto simp: fw nth_append lP)
  qed
qed

lemma file_write_adjacent:
  assumes "0 \<le> k"
  shows "file_write (file_write local k xs) (k + int (length xs)) ys = file_write local k (xs @ ys)"
proof (cases "xs = [] \<or> ys = []")
  case True
  then show ?thesis
    by (auto simp: file_write_def)
next
  case False
  have n: "nat (k + int (length xs)) = nat k + length xs"
    using assms by simp
  show ?thesis
    using False assms
    by (intro nth_equalityI) (auto simp: length_file_write nth_file_write nth_append n)
qed

lemma bodyStreamToFile_write:
  assumes "0 \<le> offset" and "0 \<le> len" and "len \<le> int (length stream)"
  shows "bodyStreamToFile stream local offset len =
           Inr (drop (nat len) stream, file_write local offset (take (nat len) stream))"
  using assms
proof (induction stream local offset len rule: bodyStreamToFile.induct)
  case (1 stream local offset len)
  show ?case
  proof (cases "len \<le> 0")
    case True
    with "1.prems" show ?thesis
      by (simp add: bodyStreamToFile.simps file_write_def)
  next
    case False
    let ?r = "min c_bodyStreamBufferSize len"
    let ?X = "take (nat ?r) stream"
    have r: "0 < ?r" "?r \<le> len"
      using False by (simp_all add: c_bodyStreamBufferSize_def)
    have lr: "int (length ?X) = ?r"
      using r "1.prems" by simp
    have ih: "bodyStreamToFile (drop (nat ?r) stream) (file_write local offset ?X) (offset + ?r) (len - ?r) =
                Inr (drop (nat (len - ?r)) (drop (nat ?r) stream),
                     file_write (file_write local offset ?X) (offset + ?r) (take (nat (len - ?r)) (drop (nat ?r) stream)))"
      using "1.IH" [OF False refl refl] "1.prems" r lr by (simp add: Let_def read_to_count_def)
    have "nat len = nat ?r + nat (len - ?r)"
      using r by (simp only: nat_add_distrib [symmetric])
    then have "drop (nat (len - ?r)) (drop (nat ?r) stream) = drop (nat len) stream"
              "?X @ take (nat (len - ?r)) (drop (nat ?r) stream) = take (nat len) stream"
      by (simp_all add: add.commute take_add)
    moreover have "file_write (file_write local offset ?X) (offset + ?r) (take (nat (len - ?r)) (drop (nat ?r) stream)) =
                     file_write local offset (?X @ take (nat (len - ?r)) (drop (nat ?r) stream))"
      using file_write_adjacent [OF "1.prems"(1), of local ?X, unfolded lr] .
    ultimately show ?thesis
      using ih False lr
      by (simp add: bodyStreamToFile.simps [of stream local offset len] Let_def read_to_count_def)
  qed
qed

lemma bodyStreamToFile_append:
  assumes "int (length local) = offset" and "0 \<le> len" and "len \<le> int (length stream)"
  shows "bodyStreamToFile stream local offset len =
           Inr (drop (nat len) stream, local @ take (nat len) stream)"
  using bodyStreamToFile_write [of offset len stream local] assms file_write_append [of local]
  by (metis of_nat_0_le_iff)

lemma downloadChunkFunc_file_write:
  assumes "0 \<le> f0" "f0 \<le> off" "0 < l" "off + l \<le> int (length (sf_content f))"
  shows "downloadChunkFunc_file f f0 off l i n (local, ret) =
           Inr (file_write local (off - f0) (take (nat l) (drop (nat off) (sf_content f))),
                if int i = int n - 1 then file_result f else ret)"
proof -
  let ?d = "take (nat l) (drop (nat off) (sf_content f))"
  have len: "int (length ?d) = l"
    using assms by simp
  have "bodyStreamToFile ?d local (off - f0) l = Inr (drop (nat l) ?d, file_write local (off - f0) ?d)"
    using bodyStreamToFile_write [of "off - f0" l ?d local] assms(2,3) len by simp
  then show ?thesis
    using assms
    by (simp add: downloadChunkFunc_file_def Download_range to_download_to_result_def file_result_def)
qed

lemma downloadChunkFunc_file_ok:
  assumes "0 \<le> f0" "f0 \<le> off" "0 < l" "off + l \<le> int (length (sf_content f))"
    and "int (length local) = off - f0"
  shows "downloadChunkFunc_file f f0 off l i n (local, ret) =
           Inr (local @ take (nat l) (drop (nat off) (sf_content f)),
                if int i = int n - 1 then file_result f else ret)"
  using downloadChunkFunc_file_write [OF assms(1-4), of i n local ret] assms(5) file_write_append [of local]
  by metis

lemma run_download_chunks_file:
  assumes "0 < cs" "0 \<le> f0" "f0 \<le> off" "0 \<le> len" "off + len \<le> int (length (sf_content f))"
    and "int (length local) = off - f0"
  shows "run_in_order n (split_range off len cs i) (downloadChunkFunc_file f f0) (local, file_result f) =
           Inr (local @ take (nat len) (drop (nat off) (sf_content f)), file_result f)"
  using assms
proof (induction off len cs i arbitrary: local rule: split_range.induct)
  case (1 off len cs i)
  let ?c = "sf_content f"
  show ?case
  proof (cases "len = 0")
    case True
    then show ?thesis by (simp add: split_range_stop)
  next
    case False
    with "1.prems" have pos: "0 < len" by simp
    let ?m = "min len cs"
    have first: "downloadChunkFunc_file f f0 off ?m i n (local, file_result f) =
                   Inr (local @ take (nat ?m) (drop (nat off) ?c), file_result f)"
      using "1.prems" pos downloadChunkFunc_file_ok [of f0 off ?m f local i n "file_result f"] by simp
    have unf: "split_range off len cs i = (off, ?m, i) # split_range (off + cs) (len - cs) cs (Suc i)"
      using pos "1.prems" by (simp add: split_range_unfold)
    show ?thesis
    proof (cases "len \<le> cs")
      case True
      then show ?thesis
        using first unf by (simp add: split_range_stop)
    next
      case False
      let ?X = "take (nat cs) (drop (nat off) ?c)"
      have lX: "int (length (local @ ?X)) = off + cs - f0"
        using "1.prems" False by simp
      have ih: "run_in_order n (split_range (off + cs) (len - cs) cs (Suc i)) (downloadChunkFunc_file f f0)
                  (local @ ?X, file_result f) =
                Inr ((local @ ?X) @ take (nat (len - cs)) (drop (nat (off + cs)) ?c), file_result f)"
        using "1.IH" [of "local @ ?X"] pos False "1.prems" lX by simp
      have XY: "?X @ take (nat (len - cs)) (drop (nat (off + cs)) ?c) = take (nat len) (drop (nat off) ?c)"
        using take_drop_split [of off cs len ?c] False "1.prems" by simp
      have M: "min len cs = cs"
        using False by simp
      show ?thesis
        using first unf ih XY by (simp add: M)
    qed
  qed
qed

lemma first_chunk_ok:
  assumes "download_preconditions f opts"
  defines "f0 \<equiv> value_or (dto_Offset opts) 0" and "R \<equiv> requested_range_size f opts"
    and "L1 \<equiv> min (first_chunk_length opts) (requested_range_size f opts)"
  shows "\<exists>r. Download f (first_chunk_options opts) = Inr r \<and> to_download_to_result r = file_result f \<and>
             file_range_size opts r = Inr R \<and>
             take (nat L1) (dr_Body r) = take (nat L1) (drop (nat f0) (sf_content f)) \<and>
             L1 \<le> int (length (dr_Body r)) \<and> 0 \<le> L1 \<and> L1 \<le> R \<and> 0 \<le> f0 \<and>
             f0 + R \<le> int (length (sf_content f))"
proof (cases "dto_Offset opts")
  case None
  with assms show ?thesis
    by (simp add: download_preconditions_def requested_range_size_def Download_whole
                  first_chunk_options_def file_range_size_def to_download_to_result_def file_result_def)
next
  case (Some off)
  let ?n = "int (length (sf_content f))"
  have pre: "0 \<le> off" "off < ?n" "0 < first_chunk_length opts" "?n \<le> int64_max"
    using assms(1) Some by (simp_all add: download_preconditions_def)
  obtain r where r: "Download f (first_chunk_options opts) = Inr r"
      "dr_Body r = take (nat (first_chunk_length opts)) (drop (nat off) (sf_content f))"
      "to_download_to_result r = file_result f" "file_range_size opts r = Inr R"
    using ranged_first_chunk [OF Some pre] by (auto simp: R_def requested_range_size_def Some Let_def)
  have R: "0 < R" "R \<le> ?n - off"
    using pre(2,3) unfolding R_def requested_range_size_def
    by (cases "dto_Length opts"; simp add: Some first_chunk_length_def Let_def)+
  show ?thesis
    using r R pre Some by (auto simp: f0_def L1_def R_def [symmetric] min_def)
qed

lemma DownloadTo_file_result:
  assumes "download_preconditions f opts"
  shows "DownloadTo_file f opts =
           Inr (take (nat (requested_range_size f opts))
                  (drop (nat (value_or (dto_Offset opts) 0)) (sf_content f)),
                (file_result f)\<lparr>dtr_ContentLength := requested_range_size f opts\<rparr>)"
proof -
  let ?c = "sf_content f" and ?f0 = "value_or (dto_Offset opts) 0" and ?R = "requested_range_size f opts"
  let ?L1 = "min (first_chunk_length opts) ?R"
  obtain r where r: "Download f (first_chunk_options opts) = Inr r" "to_download_to_result r = file_result f"
      "file_range_size opts r = Inr ?R" "take (nat ?L1) (dr_Body r) = take (nat ?L1) (drop (nat ?f0) ?c)"
      "?L1 \<le> int (length (dr_Body r))" "0 \<le> ?L1" "?L1 \<le> ?R" "0 \<le> ?f0" "?f0 + ?R \<le> int (length ?c)"
    using first_chunk_ok [OF assms] by blast
  have pre: "0 < dto_Concurrency opts" "case dto_ChunkSize opts of None \<Rightarrow> True | Some c \<Rightarrow> 0 < c"
    using assms by (simp_all add: download_preconditions_def)
  obtain cs where cs: "download_chunk_size opts (?R - ?L1) = Inr cs" "0 < cs"
    using download_chunk_size_pos [OF pre] by blast
  have first: "bodyStreamToFile (dr_Body r) [] 0 ?L1 =
                 Inr (drop (nat ?L1) (dr_Body r), take (nat ?L1) (drop (nat ?f0) ?c))"
    using bodyStreamToFile_append [of "[]" 0 ?L1 "dr_Body r"] r by simp
  have run: "ConcurrentTransfer (?f0 + ?L1) (?R - ?L1) cs (dto_Concurrency opts) (downloadChunkFunc_file f ?f0)
               (take (nat ?L1) (drop (nat ?f0) ?c), file_result f) =
             Inr (take (nat ?R) (drop (nat ?f0) ?c), file_result f)"
    using run_download_chunks_file [OF cs(2), of ?f0 "?f0 + ?L1" "?R - ?L1" f
            "take (nat ?L1) (drop (nat ?f0) ?c)"] r cs pre take_drop_split [of ?f0 ?L1 ?R ?c]
    by (simp add: ConcurrentTransfer_def chunk_plan_eq_split_range Let_def)
  show ?thesis
    using r first run cs
    by (simp add: DownloadTo_file_def Let_def)
qed

lemma DownloadTo_buffer_result:
  assumes "download_preconditions f opts" and "requested_range_size f opts \<le> int (length buf)"
  shows "DownloadTo_buffer f buf opts =
           Inr (take (nat (requested_range_size f opts))
                  (drop (nat (value_or (dto_Offset opts) 0)) (sf_content f)) @
                  drop (nat (requested_range_size f opts)) buf,
                (file_result f)\<lparr>dtr_ContentLength := requested_range_size f opts\<rparr>)"
proof -
  let ?c = "sf_content f" and ?f0 = "value_or (dto_Offset opts) 0" and ?R = "requested_range_size f opts"
  let ?L1 = "min (first_chunk_length opts) ?R"
  obtain r where r: "Download f (first_chunk_options opts) = Inr r" "to_download_to_result r = file_result f"
      "file_range_size opts r = Inr ?R" "take (nat ?L1) (dr_Body r) = take (nat ?L1) (drop (nat ?f0) ?c)"
      "?L1 \<le> int (length (dr_Body r))" "0 \<le> ?L1" "?L1 \<le> ?R" "0 \<le> ?f0" "?f0 + ?R \<le> int (length ?c)"
    using first_chunk_ok [OF assms(1)] by blast
  have pre: "0 < dto_Concurrency opts" "case dto_ChunkSize opts of None \<Rightarrow> True | Some c \<Rightarrow> 0 < c"
      "int (length ?c) \<le> int64_max"
    using assms(1) by (simp_all add: download_preconditions_def)
  obtain cs where cs: "download_chunk_size opts (?R - ?L1) = Inr cs" "0 < cs"
    using download_chunk_size_pos [OF pre(1,2)] by blast
  define X where "X = take (nat ?L1) (drop (nat ?f0) ?c)"
  have X: "X = take (nat ?L1) (dr_Body r)"
    using r(4) by (simp add: X_def)
  have rd: "read_to_count ?L1 (dr_Body r) = X" "int (length X) = ?L1"
    using X r(5,6) by (simp_all add: read_to_count_def)
  have lx: "length X = nat ?L1"
    using rd(2) by (metis nat_int)
  have wr: "write_at buf 0 X = Inr (X @ drop (nat ?L1) buf)"
    using rd(2) r assms(2) by (simp add: write_at_def lx)
  have fits: "\<not> length buf < unat (word_of_int ?R :: size_t)"
    using r pre(3) assms(2) unat_size_t_of_int [of ?R] by simp
  have run: "ConcurrentTransfer (?f0 + ?L1) (?R - ?L1) cs (dto_Concurrency opts) (downloadChunkFunc f ?f0)
               (X @ drop (nat ?L1) buf, file_result f) =
             Inr (take (nat ?R) (drop (nat ?f0) ?c) @ drop (nat ?R) buf, file_result f)"
    unfolding X_def using r assms(2) by (intro fill_after_first_chunk cs(2) pre(1)) simp_all
  show ?thesis
    using r rd wr fits run cs
    by (simp add: DownloadTo_buffer_def Let_def)
qed

lemma DownloadTo_file_length:
  assumes "download_preconditions f opts"
  shows "length (take (nat (requested_range_size f opts))
                   (drop (nat (value_or (dto_Offset opts) 0)) (sf_content f))) =
           nat (requested_range_size f opts)"
  using first_chunk_ok [OF assms] by auto

text \<open>
  C16. \<open>DownloadTo(buffer)\<close> and \<open>DownloadTo(file)\<close> agree: when the download
  succeeds and the buffer holds the requested range, the buffer starts with
  exactly the bytes the file variant writes to its new local file, the rest of
  the buffer is untouched, and both return the same result.
\<close>

theorem DownloadTo_file_eq_buffer:
  assumes "download_preconditions f opts" and "requested_range_size f opts \<le> int (length buf)"
  shows "DownloadTo_buffer f buf opts =
           map_sum id (\<lambda>(local, r). (local @ drop (length local) buf, r)) (DownloadTo_file f opts)"
  using DownloadTo_buffer_result [OF assms] DownloadTo_file_result [OF assms(1)]
        DownloadTo_file_length [OF assms(1)]
  by simp

theorem DownloadTo_file_eq_buffer_witness:
  "download_preconditions
     \<lparr>sf_content = [1, 2, 3, 4, 5], sf_ETag = ''0x8D1'', sf_LastModified = ''Mon'',
      sf_ServerEncrypted = False\<rparr>
     \<lparr>dto_Offset = Some 1, dto_Length = Some 3, dto_InitialChunkSize = Some 2, dto_ChunkSize = Some 1,
      dto_Concurrency = 1\<rparr> \<and>
   requested_range_size
     \<lparr>sf_content = [1, 2, 3, 4, 5], sf_ETag = ''0x8D1'', sf_LastModified = ''Mon'',
      sf_ServerEncrypted = False\<rparr>
     \<lparr>dto_Offset = Some 1, dto_Length = Some 3, dto_InitialChunkSize = Some 2, dto_ChunkSize = Some 1,
      dto_Concurrency = 1\<rparr> \<le> int (length (replicate 4 (0::byte))) \<and>
   DownloadTo_buffer
     \<lparr>sf_content = [1, 2, 3, 4, 5], sf_ETag = ''0x8D1'', sf_LastModified = ''Mon'',
      sf_ServerEncrypted = False\<rparr>
     (replicate 4 0)
     \<lparr>dto_Offset = Some 1, dto_Length = Some 3, dto_InitialChunkSize = Some 2, dto_ChunkSize = Some 1,
      dto_Concurrency = 1\<rparr> =
   map_sum id (\<lambda>(local, r). (local @ drop (length local) (replicate 4 0), r))
     (DownloadTo_file
       \<lparr>sf_content = [1, 2, 3, 4, 5], sf_ETag = ''0x8D1'', sf_LastModified = ''Mon'',
        sf_ServerEncrypted = False\<rparr>
       \<lparr>dto_Offset = Some 1, dto_Length = Some 3, dto_InitialChunkSize = Some 2, dto_ChunkSize = Some 1,
        dto_Concurrency = 1\<rparr>)"
  using DownloadTo_file_eq_buffer
          [of "\<lparr>sf_content = [1, 2, 3, 4, 5], sf_ETag = ''0x8D1'', sf_LastModified = ''Mon'',
                sf_ServerEncrypted = False\<rparr>"
              "\<lparr>dto_Offset = Some 1, dto_Length = Some 3, dto_InitialChunkSize = Some 2,
                dto_ChunkSize = Some 1, dto_Concurrency = 1\<rparr>" "replicate 4 0"]
  by (simp add: download_preconditions_def requested_range_size_def first_chunk_length_def
                int64_max_def)

text \<open>
  C17. The body-stream copy of \<open>DownloadTo(file)\<close> refuses a body shorter than
  the length it was told to copy: a short read raises the runtime error
  \<open>error when reading body stream\<close>, however many full 4 MiB pieces were
  written before it.
\<close>

theorem bodyStreamToFile_short_stream:
  "int (length stream) < len \<Longrightarrow>
     bodyStreamToFile stream local offset len = Inl (RuntimeError ''error when reading body stream'')"
proof (induction stream local offset len rule: bodyStreamToFile.induct)
  case (1 stream local offset len)
  let ?r = "min c_bodyStreamBufferSize len"
  have pos: "\<not> len \<le> 0"
    using "1.prems" by linarith
  show ?case
  proof (cases "int (length (read_to_count ?r stream)) = ?r")
    case False
    then show ?thesis
      using pos by (simp add: bodyStreamToFile.simps [of stream local offset len] Let_def)
  next
    case True
    then have "int (length (drop (nat ?r) stream)) < len - ?r"
      using "1.prems" by (simp add: read_to_count_def)
    then show ?thesis
      using "1.IH" [OF pos refl refl] True pos
      by (simp add: bodyStreamToFile.simps [of stream local offset len] Let_def)
  qed
qed

theorem bodyStreamToFile_short_stream_witness:
  "int (length [1, 2 :: byte]) < 3 \<and>
   bodyStreamToFile [1, 2] [] 0 3 = Inl (RuntimeError ''error when reading body stream'')"
  using bodyStreamToFile_short_stream [of "[1, 2]" 3 "[]" 0] by simp

end
