(* ===== verification/Local_Download_Order.thy ===== *)
theory Local_Download_Order
  imports Share_File_Local
begin

text \<open>
  \<open>DownloadTo(file)\<close> (share_file_client.cpp lines 683--811) under every
  interleaving of its chunks. The workers write their chunks through one
  \<open>FileWriter\<close> at their offsets from the first chunk, in whatever order the
  scheduler of \<open>Concurrent_Transfer\<close> completes them; a chunk that completes
  before the ones in front of it writes past the end of the local file, whose
  \<open>pwrite\<close> leaves a hole of zeros. The invariant \<open>file_filled\<close> describes the
  local file after any set of completed chunks; the theorem shows that every
  successful run ends with the requested range.
\<close>

section \<open>The local file during the transfer\<close>

text \<open>The local file after the chunks \<open>done\<close> of \<open>plan\<close> have been written
  behind a first chunk of \<open>L1\<close> bytes, for a range of \<open>R\<close> bytes from \<open>f0\<close>: it
  holds the first chunk and every completed chunk, is no longer than the range,
  and each byte is the file's byte when the first chunk or a completed chunk
  covers it, else a zero of a hole.\<close>

definition file_filled :: "ShareFile \<Rightarrow> int \<Rightarrow> nat \<Rightarrow> nat \<Rightarrow> chunk list \<Rightarrow> nat list \<Rightarrow> byte list \<Rightarrow> bool" where
  "file_filled f f0 L1 R plan done local \<longleftrightarrow>
     L1 \<le> length local \<and> length local \<le> R \<and>
     (\<forall>i\<in>set done. chunk_end (plan ! i) - f0 \<le> int (length local)) \<and>
     (\<forall>p < length local.
        local ! p = (if p < L1 \<or> (\<exists>i\<in>set done. f0 + int p \<in> chunk_range (plan ! i))
                     then sf_content f ! nat (f0 + int p) else 0))"

section \<open>Lemmas\<close>

lemma file_write_filled:
  assumes "0 \<le> f0" and "f0 + int L1 \<le> off" and "0 < l" and "off + l \<le> f0 + int R"
    and "f0 + int R \<le> int (length (sf_content f))" and "plan ! i = (off, l, cid)"
    and "file_filled f f0 L1 R plan done local"
  shows "file_filled f f0 L1 R plan (done @ [i])
           (file_write local (off - f0) (take (nat l) (drop (nat off) (sf_content f))))"
proof -
  let ?c = "sf_content f" and ?k = "nat (off - f0)"
  let ?X = "take (nat l) (drop (nat off) ?c)"
  let ?L = "file_write local (off - f0) ?X"
  have "nat l \<le> length ?c - nat off"
    using assms(1-5) by linarith
  then have lX: "length ?X = nat l"
    by simp
  then have X: "?X \<noteq> []"
    using assms(3) by auto
  have inv: "L1 \<le> length local" "length local \<le> R"
      "\<forall>i\<in>set done. chunk_end (plan ! i) - f0 \<le> int (length local)"
      "\<forall>p < length local. local ! p = (if p < L1 \<or> (\<exists>i\<in>set done. f0 + int p \<in> chunk_range (plan ! i))
                                     then ?c ! nat (f0 + int p) else 0)"
    using assms(7) by (simp_all add: file_filled_def)
  have len: "length ?L = max (length local) (?k + nat l)"
    using length_file_write [of "off - f0" ?X local] assms(1,2) X lX by simp
  have ki: "int ?k = off - f0"
    using assms(1,2) by simp
  have nth: "?L ! p = (if p < L1 \<or> (\<exists>i\<in>set (done @ [i]). f0 + int p \<in> chunk_range (plan ! i))
                       then ?c ! nat (f0 + int p) else 0)" if p: "p < length ?L" for p
  proof -
    have lo: "?k \<le> p \<longleftrightarrow> off \<le> f0 + int p"
      using ki by linarith
    have hi: "p < ?k + nat l \<longleftrightarrow> f0 + int p < off + l"
      using ki assms(3) by linarith
    have new: "f0 + int p \<in> chunk_range (plan ! i) \<longleftrightarrow> ?k \<le> p \<and> p < ?k + nat l"
      using assms(6) lo hi by (simp add: chunk_range_def)
    have fw: "?L ! p = (if ?k \<le> p \<and> p < ?k + nat l then ?X ! (p - ?k)
                        else if p < length local then local ! p else 0)"
      using nth_file_write [OF X p] lX by simp
    have cond: "(\<exists>j\<in>set (done @ [i]). f0 + int p \<in> chunk_range (plan ! j)) \<longleftrightarrow>
                  (\<exists>j\<in>set done. f0 + int p \<in> chunk_range (plan ! j)) \<or> (?k \<le> p \<and> p < ?k + nat l)"
    proof -
      have "(\<exists>j\<in>set (done @ [i]). f0 + int p \<in> chunk_range (plan ! j)) \<longleftrightarrow>
              (\<exists>j\<in>set done. f0 + int p \<in> chunk_range (plan ! j)) \<or> f0 + int p \<in> chunk_range (plan ! i)"
        by auto
      then show ?thesis
        unfolding new .
    qed
    show ?thesis
    proof (cases "?k \<le> p \<and> p < ?k + nat l")
      case True
      have pk: "p - ?k < nat l"
        using True by linarith
      have off_le: "nat off \<le> length ?c"
        using assms(3-5) by linarith
      have "nat (f0 + (off - f0)) = nat f0 + ?k"
        using assms(1,2) by (intro nat_add_distrib) simp_all
      then have e: "nat off = nat f0 + ?k"
        by simp
      have "?X ! (p - ?k) = drop (nat off) ?c ! (p - ?k)"
        using pk by simp
      also have "\<dots> = ?c ! (nat off + (p - ?k))"
        using off_le by simp
      also have "nat off + (p - ?k) = nat (f0 + int p)"
        using True e assms(1) by (simp add: nat_add_distrib)
      finally have v: "?X ! (p - ?k) = ?c ! nat (f0 + int p)" .
      have "f0 + int p \<in> chunk_range (plan ! i)"
        using new True by blast
      then have "\<exists>j\<in>set (done @ [i]). f0 + int p \<in> chunk_range (plan ! j)"
        by auto
      moreover have "?L ! p = ?c ! nat (f0 + int p)"
        using fw True v by simp
      ultimately show ?thesis
        by simp
    next
      case out: False
      show ?thesis
      proof (cases "p < length local")
        case True
        have "?L ! p = local ! p"
          using fw out True by simp
        then show ?thesis
          using inv(4) True cond out by simp
      next
        case False
        have "\<not> (\<exists>j\<in>set done. f0 + int p \<in> chunk_range (plan ! j))"
        proof
          assume "\<exists>j\<in>set done. f0 + int p \<in> chunk_range (plan ! j)"
          then obtain j where j: "j \<in> set done" "f0 + int p \<in> chunk_range (plan ! j)"
            by blast
          then have "f0 + int p < chunk_end (plan ! j)"
            by (cases "plan ! j") (simp add: chunk_range_def chunk_end_def)
          moreover have "chunk_end (plan ! j) - f0 \<le> int (length local)"
            using inv(3) j(1) by blast
          ultimately show False
            using False by linarith
        qed
        moreover have "\<not> p < L1"
          using False inv(1) by linarith
        moreover have "?L ! p = 0"
          using fw out False by simp
        ultimately show ?thesis
          using cond out by simp
      qed
    qed
  qed
  have endi: "chunk_end (plan ! i) - f0 \<le> int (length ?L)"
    using len assms(6) ki by (simp add: chunk_end_def)
  have grow: "length local \<le> length ?L"
    using len by simp
  show ?thesis
    unfolding file_filled_def
  proof (intro conjI)
    show "L1 \<le> length ?L"
      using inv(1) grow by linarith
    show "length ?L \<le> R"
      using inv(2) len ki assms(3,4) by linarith
    show "\<forall>j\<in>set (done @ [i]). chunk_end (plan ! j) - f0 \<le> int (length ?L)"
      using inv(3) endi grow by fastforce
    show "\<forall>p < length ?L. ?L ! p = (if p < L1 \<or> (\<exists>j\<in>set (done @ [i]). f0 + int p \<in> chunk_range (plan ! j))
                                      then ?c ! nat (f0 + int p) else 0)"
      using nth by blast
  qed
qed

lemma download_file_reach_filled:
  assumes "0 \<le> f0" and "f0 + int R \<le> int (length (sf_content f))"
    and "\<forall>(off, l, cid) \<in> set plan. f0 + int L1 \<le> off \<and> 0 < l \<and> off + l \<le> f0 + int R"
    and "file_filled f f0 L1 R plan [] local0"
    and "transfer_reach concurrency plan (downloadChunkFunc_file f f0) (local0, file_result f) t"
  shows "\<exists>local. shared t = (local, file_result f) \<and> file_filled f f0 L1 R plan (completed t) local"
  using assms(5) unfolding transfer_reach_def
proof (induction rule: rtranclp_induct)
  case base
  show ?case
    using assms(4) by (simp add: transfer_init_def)
next
  case (step u u')
  have inv: "transfer_inv concurrency plan u"
    using step.hyps(1) by (intro transfer_reach_inv) (simp add: transfer_reach_def)
  obtain local where loc: "shared u = (local, file_result f)" "file_filled f f0 L1 R plan (completed u) local"
    using step.IH by blast
  from step.hyps(2) show ?case
  proof (cases rule: transfer_step.cases)
    case (finish i s')
    obtain off l cid where c: "plan ! i = (off, l, cid)"
      by (cases "plan ! i") auto
    have "i < length plan"
      using in_flight_lt_length [OF inv finish(2)] .
    then have v: "f0 + int L1 \<le> off" "0 < l" "off + l \<le> f0 + int R"
      using assms(3) c nth_mem by fastforce+
    have "downloadChunkFunc_file f f0 off l cid (length plan) (local, file_result f) =
            Inr (file_write local (off - f0) (take (nat l) (drop (nat off) (sf_content f))), file_result f)"
      using downloadChunkFunc_file_write [of f0 off l f cid "length plan" local "file_result f"] v assms(1,2)
      by simp
    moreover have "file_filled f f0 L1 R plan (completed u @ [i])
                     (file_write local (off - f0) (take (nat l) (drop (nat off) (sf_content f))))"
      using file_write_filled [OF assms(1) v assms(2) c loc(2)] .
    ultimately show ?thesis
      using finish loc by (auto simp: run_chunk_def c)
  qed (use loc in simp_all)
qed

text \<open>A run of \<open>DownloadTo(file)\<close>'s transfer in which the second chunk lands
  first, past the end of the empty local file, leaving a hole that the first
  chunk fills.\<close>

lemma example_out_of_order_file_download:
  fixes F :: ShareFile
  defines "F \<equiv> \<lparr>sf_content = [1, 2, 3, 4], sf_ETag = ''0x8D1'', sf_LastModified = ''Mon'',
                  sf_ServerEncrypted = False\<rparr>"
  defines "T \<equiv> \<lparr>next_chunk = 2, in_flight = [], completed = [1, 0], failures = [],
                  cancelled = False, shared = ([1, 2, 3, 4], file_result F)\<rparr>"
  shows "transfer_reach 2 (chunk_plan (0 + int (length ([] :: byte list))) 4 2) (downloadChunkFunc_file F 0)
           ([], file_result F) T"
    and "transfer_final (chunk_plan (0 + int (length ([] :: byte list))) 4 2) T"
    and "transfer_result (chunk_plan (0 + int (length ([] :: byte list))) 4 2) T = Inr ([1, 2, 3, 4], file_result F)"
proof -
  let ?w = "downloadChunkFunc_file F 0" and ?fr = "file_result F"
  have plan: "chunk_plan 0 4 2 = [(0, 2, 0), (2, 2, 1)]"
    by (simp add: chunk_plan_def num_chunks_def chunk_at_def upt_rec)
  let ?p = "chunk_plan (0 + int (length ([] :: byte list))) 4 2"
  let ?t0 = "transfer_init ([] :: byte list, ?fr)"
  let ?t1 = "?t0\<lparr>next_chunk := 1, in_flight := [0]\<rparr>"
  let ?t2 = "?t0\<lparr>next_chunk := 2, in_flight := [0, 1]\<rparr>"
  let ?t3 = "?t0\<lparr>next_chunk := 2, in_flight := [0], completed := [1], shared := ([0, 0, 3, 4], ?fr)\<rparr>"
  have c: "sf_content F = [1, 2, 3, 4]"
    by (simp add: F_def)
  have w1: "?w 2 2 1 2 ([], ?fr) = Inr ([0, 0, 3, 4], ?fr)"
    using downloadChunkFunc_file_write [of 0 2 2 F 1 2 "[]" ?fr] c
    by (simp add: file_write_def numeral_eq_Suc)
  have w0: "?w 0 2 0 2 ([0, 0, 3, 4], ?fr) = Inr ([1, 2, 3, 4], ?fr)"
    using downloadChunkFunc_file_write [of 0 0 2 F 0 2 "[0, 0, 3, 4]" ?fr] c
    by (simp add: file_write_def numeral_eq_Suc)
  have s1: "transfer_step 2 ?p ?w ?t0 ?t1"
    using transfer_step.dispatch [of ?t0 ?p 2 ?w] by (simp add: plan transfer_init_def)
  have s2: "transfer_step 2 ?p ?w ?t1 ?t2"
    using transfer_step.dispatch [of ?t1 ?p 2 ?w] by (simp add: plan transfer_init_def numeral_2_eq_2)
  have s3: "transfer_step 2 ?p ?w ?t2 ?t3"
    using transfer_step.finish [of 1 ?t2 ?w ?p "([0, 0, 3, 4], ?fr)" 2] w1
    by (simp add: plan transfer_init_def run_chunk_def numeral_2_eq_2)
  have s4: "transfer_step 2 ?p ?w ?t3 T"
    using transfer_step.finish [of 0 ?t3 ?w ?p "([1, 2, 3, 4], ?fr)" 2] w0
    by (simp add: plan transfer_init_def run_chunk_def T_def numeral_2_eq_2)
  show "transfer_reach 2 ?p ?w ([], ?fr) T"
    unfolding transfer_reach_def
    using s1 s2 s3 s4 by (meson rtranclp.rtrancl_into_rtrancl rtranclp.rtrancl_refl)
  show "transfer_final ?p T"
    by (simp add: transfer_final_def T_def plan)
  show "transfer_result ?p T = Inr ([1, 2, 3, 4], ?fr)"
    by (simp add: transfer_result_def T_def plan)
qed

text \<open>
  C27. Whatever order the scheduler dispatches and completes the chunks of
  \<open>DownloadTo(file)\<close> in, a run that ends successfully leaves in the local file
  exactly the file's bytes of the range, behind the first chunk already
  written: a chunk that lands past the end of the local file leaves a hole of
  zeros, and the chunk that belongs there fills it later.
\<close>

theorem download_file_transfer_any_order:
  assumes "0 \<le> f0" and "0 < cs" and "0 \<le> len"
    and "f0 + int (length local0) + len \<le> int (length (sf_content f))"
    and "local0 = take (length local0) (drop (nat f0) (sf_content f))"
    and "transfer_reach concurrency (chunk_plan (f0 + int (length local0)) len cs) (downloadChunkFunc_file f f0)
           (local0, file_result f) t"
    and "transfer_final (chunk_plan (f0 + int (length local0)) len cs) t"
    and "transfer_result (chunk_plan (f0 + int (length local0)) len cs) t = Inr (local, r)"
  shows "local = take (length local0 + nat len) (drop (nat f0) (sf_content f)) \<and> r = file_result f"
proof -
  let ?c = "sf_content f" and ?L1 = "length local0" and ?R = "length local0 + nat len"
  let ?off = "f0 + int (length local0)"
  let ?plan = "chunk_plan ?off len cs"
  have R: "int ?R = int ?L1 + len"
    using assms(3) by simp
  have valid: "\<forall>(o', l, cid) \<in> set ?plan. f0 + int ?L1 \<le> o' \<and> 0 < l \<and> o' + l \<le> f0 + int ?R"
  proof (intro ballI, clarify)
    fix o' l cid assume "(o', l, cid) \<in> set ?plan"
    then have "?off \<le> o' \<and> o' + l \<le> ?off + len \<and> 0 < l"
      using chunk_plan_chunk [OF assms(2,3)] by blast
    then show "f0 + int ?L1 \<le> o' \<and> 0 < l \<and> o' + l \<le> f0 + int ?R"
      using R by simp
  qed
  have init: "file_filled f f0 ?L1 ?R ?plan [] local0"
  proof -
    have "\<forall>p < ?L1. local0 ! p = ?c ! nat (f0 + int p)"
    proof (intro allI impI)
      fix p assume p: "p < ?L1"
      have "local0 ! p = take ?L1 (drop (nat f0) ?c) ! p"
        using assms(5) by (metis)
      also have "\<dots> = ?c ! (nat f0 + p)"
      proof -
        have "nat f0 + p < length ?c"
          using p assms(1,3,4) by linarith
        then show ?thesis
          using p by simp
      qed
      finally show "local0 ! p = ?c ! nat (f0 + int p)"
        using assms(1) by (simp add: nat_add_distrib)
    qed
    then show ?thesis
      by (simp add: file_filled_def)
  qed
  obtain local' where loc: "shared t = (local', file_result f)" "file_filled f f0 ?L1 ?R ?plan (completed t) local'"
    using download_file_reach_filled [OF assms(1) _ valid init assms(6)] assms(4) R by auto
  have fin: "failures t = []" "next_chunk t = length ?plan" "in_flight t = []"
    using assms(7,8) by (auto simp: transfer_result_def transfer_final_def split: list.splits if_splits)
  then have "mset (completed t) = mset [0..<length ?plan]"
    using transfer_reach_inv [OF assms(6)] by (simp add: transfer_inv_def)
  then have set_done: "set (completed t) = {0..<length ?plan}"
    by (metis mset_eq_setD set_upt)
  have inv: "?L1 \<le> length local'" "length local' \<le> ?R"
      "\<forall>i\<in>set (completed t). chunk_end (?plan ! i) - f0 \<le> int (length local')"
      "\<forall>p < length local'. local' ! p = (if p < ?L1 \<or> (\<exists>i\<in>set (completed t). f0 + int p \<in> chunk_range (?plan ! i))
                                         then ?c ! nat (f0 + int p) else 0)"
    using loc(2) by (simp_all add: file_filled_def)
  have cover: "(\<exists>i\<in>set (completed t). x \<in> chunk_range (?plan ! i)) \<longleftrightarrow> x \<in> {?off..<?off + len}" for x
    using chunk_plan_union_nth [OF assms(2,3) set_done] .
  have len: "length local' = ?R"
  proof (cases "len = 0")
    case True
    then show ?thesis using inv(1,2) by simp
  next
    case False
    then obtain i where i: "i \<in> set (completed t)" "?off + len - 1 \<in> chunk_range (?plan ! i)"
      using cover [of "?off + len - 1"] assms(3) by auto
    have "?off + len - 1 < chunk_end (?plan ! i)"
      using i(2) by (cases "?plan ! i") (simp add: chunk_range_def chunk_end_def)
    then have "int ?R \<le> int (length local')"
      using inv(3) i(1) R by fastforce
    then show ?thesis
      using inv(2) by linarith
  qed
  have Rfit: "?R \<le> length ?c - nat f0"
    using assms(1,3,4) by linarith
  have "local' = take ?R (drop (nat f0) ?c)"
  proof (rule nth_equalityI)
    show "length local' = length (take ?R (drop (nat f0) ?c))"
      using len Rfit by simp
    fix p assume p: "p < length local'"
    have "p < ?L1 \<or> (\<exists>i\<in>set (completed t). f0 + int p \<in> chunk_range (?plan ! i))"
      using cover [of "f0 + int p"] p len by auto
    then have "local' ! p = ?c ! nat (f0 + int p)"
      using inv(4) p by simp
    also have "\<dots> = take ?R (drop (nat f0) ?c) ! p"
      using p len Rfit assms(1) by (simp add: nat_add_distrib)
    finally show "local' ! p = take ?R (drop (nat f0) ?c) ! p" .
  qed
  moreover have "(local, r) = (local', file_result f)"
    using assms(8) fin loc(1) by (simp add: transfer_result_def)
  ultimately show ?thesis by simp
qed

theorem download_file_transfer_any_order_witness:
  "[1, 2, 3, 4] = take (length ([] :: byte list) + nat 4) (drop (nat 0) [1, 2, 3, 4 :: byte])"
  using download_file_transfer_any_order [OF _ _ _ _ _ example_out_of_order_file_download] by simp

end
