(* ===== verification/Reliable_Download.thy ===== *)
theory Reliable_Download
  imports Share_File_Transfer
begin

text \<open>
  The resumable body of \<open>FileClient::Download\<close> (share_file_client.cpp lines
  210--265): the response body is wrapped in a \<open>ReliableStream\<close> whose
  \<open>retryFunction\<close> (lines 238--259) reissues the download from the offset
  already delivered and checks the entity tag. \<open>ReliableStream\<close> lives in
  azure-core, outside the sources, and is modelled from specification section
  4.3: a read of the body meets a finite schedule of faults; each fault, while
  attempts remain, calls the getter with the offset delivered so far and goes on
  reading the new body. The service may change the file between any two
  requests: a resume is answered by the file as it is at the first and at the
  second request of \<open>retryFunction\<close>.
\<close>

section \<open>The reliable stream\<close>

text \<open>\<open>HttpGetterInfo\<close>: the offset, relative to the original response, that the
  reader has delivered.\<close>

record HttpGetterInfo =
  hgi_Offset :: int

text \<open>\<open>c_reliableStreamRetryCount\<close> (storage common, outside the sources).\<close>

definition c_reliableStreamRetryCount :: nat where
  "c_reliableStreamRetryCount = 3"

text \<open>Reading a reliable stream to its end. A fault \<open>(k, env)\<close> hits the body being
  read after \<open>k\<close> more bytes, unless the body ends first; the resume is answered in
  the environment \<open>env\<close>. Without attempts left the transport fault surfaces.\<close>

fun reliable_read ::
  "nat \<Rightarrow> ('env \<Rightarrow> HttpGetterInfo \<Rightarrow> byte list result) \<Rightarrow> (nat \<times> 'env) list \<Rightarrow>
   byte list \<Rightarrow> byte list \<Rightarrow> byte list result" where
  "reliable_read retriesLeft getter [] delivered body = Inr (delivered @ body)"
| "reliable_read retriesLeft getter ((k, env) # faults) delivered body =
     (if length body \<le> k then Inr (delivered @ body)
      else
        let delivered' = delivered @ take k body
        in if retriesLeft = 0 then Inl TransportFault
           else bind_result (getter env \<lparr>hgi_Offset = int (length delivered')\<rparr>)
                  (\<lambda>body'. reliable_read (retriesLeft - 1) getter faults delivered' body'))"

section \<open>FileClient::Download with its resume function\<close>

text \<open>Lines 244--250: the options of the resumed request.\<close>

definition resume_options :: "DownloadFileOptions \<Rightarrow> HttpGetterInfo \<Rightarrow> DownloadFileOptions" where
  "resume_options options retryInfo =
     options\<lparr>dfo_Offset := Some (value_or (dfo_Offset options) 0 + hgi_Offset retryInfo),
             dfo_Length := map_option (\<lambda>l. l - hgi_Offset retryInfo) (dfo_Length options)\<rparr>"

text \<open>Lines 238--259. The first request checks the entity tag; the body returned
  is that of a second request with the same options, answered by the file as it
  is then (\<open>f2\<close>).\<close>

definition retryFunction ::
  "ShareFile \<Rightarrow> ShareFile \<Rightarrow> DownloadFileOptions \<Rightarrow> string \<Rightarrow> HttpGetterInfo \<Rightarrow> byte list result" where
  "retryFunction f1 f2 options eTag retryInfo =
     (let newOptions = resume_options options retryInfo
      in bind_result (Download f1 newOptions) (\<lambda>newResponse.
           if eTag \<noteq> dr_ETag newResponse
           then Inl (RuntimeError ''File was changed during the download process.'')
           else bind_result (Download f2 newOptions) (\<lambda>r. Inr (dr_Body r))))"

text \<open>Lines 210--265, read to the end: the response of \<open>Download\<close> with its body
  read through the reliable stream under a fault schedule whose resumes see
  the files \<open>(f1, f2)\<close>.\<close>

definition Download_reliable ::
  "(nat \<times> ShareFile \<times> ShareFile) list \<Rightarrow> ShareFile \<Rightarrow> DownloadFileOptions \<Rightarrow>
   DownloadFileResult result" where
  "Download_reliable faults f options =
     bind_result (Download f options) (\<lambda>downloadResponse.
       let eTag = dr_ETag downloadResponse
       in bind_result
            (reliable_read c_reliableStreamRetryCount
               (\<lambda>(f1, f2). retryFunction f1 f2 options eTag) faults [] (dr_Body downloadResponse))
            (\<lambda>body. Inr (downloadResponse\<lparr>dr_Body := body\<rparr>)))"

text \<open>Two versions of a file for the examples: the original and the file as a
  writer leaves it during a download.\<close>

abbreviation example_file :: ShareFile where
  "example_file \<equiv>
     \<lparr>sf_content = [1, 2, 3, 4, 5], sf_ETag = ''0x8D1'', sf_LastModified = ''Mon'',
      sf_ServerEncrypted = False\<rparr>"

abbreviation changed_file :: ShareFile where
  "changed_file \<equiv>
     \<lparr>sf_content = [9, 9, 9, 9, 9], sf_ETag = ''0x8D2'', sf_LastModified = ''Tue'',
      sf_ServerEncrypted = False\<rparr>"

section \<open>Lemmas\<close>

lemma Download_offset:
  assumes "dfo_Offset opts = Some off" and "0 \<le> off" and "off < int (length (sf_content f))"
    and "case dfo_Length opts of None \<Rightarrow> True | Some l \<Rightarrow> 0 < l"
  shows "\<exists>r. Download f opts = Inr r \<and> dr_ETag r = sf_ETag f \<and>
             dr_Body r = (case dfo_Length opts of
                            None \<Rightarrow> drop (nat off) (sf_content f)
                          | Some l \<Rightarrow> take (nat l) (drop (nat off) (sf_content f)))"
proof (cases "dfo_Length opts")
  case None
  have "nat (int (length (sf_content f)) - 1 - off + 1) = length (drop (nat off) (sf_content f))"
    using assms(2,3) by simp
  then show ?thesis
    using assms None parse_range_string [of off None]
    by (simp add: Download_def serve_download_def Download_request_def Let_def)
next
  case (Some l)
  let ?c = "sf_content f"
  have "nat (min (off + l - 1) (int (length ?c) - 1) - off + 1) = min (nat l) (length (drop (nat off) ?c))"
    using assms Some by auto
  then have body: "take (nat (min (off + l - 1) (int (length ?c) - 1) - off + 1)) (drop (nat off) ?c) =
                   take (nat l) (drop (nat off) ?c)"
    by (simp only: take_min_length)
  show ?thesis
    using assms Some parse_range_string [of off "Some l"] body
    by (simp add: Download_def serve_download_def Download_request_def Let_def)
qed

lemma Download_ETag: "Download f opts = Inr r \<Longrightarrow> dr_ETag r = sf_ETag f"
  by (auto simp: Download_def serve_download_def Let_def split: option.splits if_splits)

text \<open>A reader whose every resume returns the rest of the same bytes \<open>T\<close> delivers
  \<open>T\<close>, as long as the faults do not outnumber the attempts.\<close>

lemma reliable_read_resumes:
  assumes "\<forall>(k, env) \<in> set faults. \<forall>d < length T. getter env \<lparr>hgi_Offset = int d\<rparr> = Inr (drop d T)"
    and "length faults \<le> retries" and "delivered @ body = T"
  shows "reliable_read retries getter faults delivered body = Inr T"
  using assms
proof (induction faults arbitrary: retries delivered body)
  case Nil
  then show ?case by simp
next
  case (Cons fault faults)
  obtain k env where fault: "fault = (k, env)" by (cases fault)
  show ?case
  proof (cases "length body \<le> k")
    case True
    then show ?thesis using Cons.prems by (simp add: fault)
  next
    case False
    let ?d = "delivered @ take k body"
    have lt: "length ?d < length T"
      using False Cons.prems(3) by auto
    have rest: "drop (length ?d) T = drop k body"
      using False Cons.prems(3) by auto
    have get: "getter env \<lparr>hgi_Offset = int (length ?d)\<rparr> = Inr (drop k body)"
      using Cons.prems(1) lt rest by (auto simp: fault)
    have "reliable_read (retries - 1) getter faults ?d (drop k body) = Inr T"
      using Cons.IH [of "retries - 1" ?d "drop k body"] Cons.prems lt by auto
    then show ?thesis
      using False Cons.prems(2) get by (simp add: fault Let_def)
  qed
qed

text \<open>The options a download may succeed with: a range inside the file with a
  positive length, or no range and no length.\<close>

lemma retryFunction_unchanged:
  assumes "Download f options = Inr r" and "d < length (dr_Body r)"
    and "case dfo_Offset options of
           None \<Rightarrow> dfo_Length options = None
         | Some off \<Rightarrow> 0 \<le> off \<and> (case dfo_Length options of None \<Rightarrow> True | Some l \<Rightarrow> 0 < l)"
  shows "retryFunction f f options (sf_ETag f) \<lparr>hgi_Offset = int d\<rparr> = Inr (drop d (dr_Body r))"
proof (cases "dfo_Offset options")
  case None
  then have r: "dr_Body r = sf_content f"
    using assms(1) Download_whole [of options f] by auto
  obtain r' where "Download f (resume_options options \<lparr>hgi_Offset = int d\<rparr>) = Inr r'"
      "dr_ETag r' = sf_ETag f" "dr_Body r' = drop d (sf_content f)"
    using Download_offset [of "resume_options options \<lparr>hgi_Offset = int d\<rparr>" "int d" f]
          None assms(2,3) r by (auto simp: resume_options_def)
  then show ?thesis
    using r by (simp add: retryFunction_def)
next
  case (Some off)
  let ?c = "sf_content f"
  have off: "0 \<le> off" "case dfo_Length options of None \<Rightarrow> True | Some l \<Rightarrow> 0 < l"
    using assms(3) Some by simp_all
  have inside: "off < int (length ?c)"
  proof (rule ccontr)
    assume "\<not> off < int (length ?c)"
    then show False
      using assms(1) Some off parse_range_string [of off "dfo_Length options"]
      by (auto simp: Download_def serve_download_def Download_request_def Let_def)
  qed
  obtain r0 where r0: "Download f options = Inr r0"
      "dr_Body r0 = (case dfo_Length options of None \<Rightarrow> drop (nat off) ?c
                                            | Some l \<Rightarrow> take (nat l) (drop (nat off) ?c))"
    using Download_offset [OF Some off(1) inside off(2)] by blast
  have B: "dr_Body r = (case dfo_Length options of None \<Rightarrow> drop (nat off) ?c
                                                | Some l \<Rightarrow> take (nat l) (drop (nat off) ?c))"
    using r0 assms(1) by simp
  have resume: "resume_options options \<lparr>hgi_Offset = int d\<rparr> =
                  options\<lparr>dfo_Offset := Some (off + int d),
                          dfo_Length := map_option (\<lambda>l. l - int d) (dfo_Length options)\<rparr>"
    using Some by (simp add: resume_options_def)
  have pre: "0 \<le> off + int d" "off + int d < int (length ?c)"
      "case map_option (\<lambda>l. l - int d) (dfo_Length options) of None \<Rightarrow> True | Some l \<Rightarrow> 0 < l"
    using off inside assms(2) B by (auto split: option.splits)
  obtain r' where r': "Download f (resume_options options \<lparr>hgi_Offset = int d\<rparr>) = Inr r'"
      "dr_ETag r' = sf_ETag f"
      "dr_Body r' = (case map_option (\<lambda>l. l - int d) (dfo_Length options) of
                       None \<Rightarrow> drop (nat (off + int d)) ?c
                     | Some l \<Rightarrow> take (nat l) (drop (nat (off + int d)) ?c))"
    using Download_offset [of "resume_options options \<lparr>hgi_Offset = int d\<rparr>" "off + int d" f]
          resume pre by auto
  have nd: "\<And>l. nat (l - int d) = nat l - d"
    by arith
  have "dr_Body r' = drop d (dr_Body r)"
    using r'(3) B off(1) by (auto simp: drop_take nat_add_distrib add.commute nd split: option.splits)
  then show ?thesis
    using r' by (simp add: retryFunction_def)
qed

lemma Download_succeeds:
  assumes "case dfo_Offset options of
             None \<Rightarrow> dfo_Length options = None
           | Some off \<Rightarrow> 0 \<le> off \<and> off < int (length (sf_content f)) \<and>
                         (case dfo_Length options of None \<Rightarrow> True | Some l \<Rightarrow> 0 < l)"
  shows "\<exists>r. Download f options = Inr r"
  using assms Download_whole [of options f] Download_offset [of options _ f]
  by (cases "dfo_Offset options") auto

section \<open>Properties of the resumable download\<close>



text \<open>
  C19. When the file has changed by the time a resume is requested (its entity
  tag differs from the original response's), the download fails: with the
  runtime error \<open>File was changed during the download process.\<close>, or with the
  service's error if the resumed range is not satisfiable; later faults of the
  schedule play no part, no further resume is attempted.
\<close>

theorem Download_reliable_changed_file:
  assumes "Download f options = Inr r" and "k < length (dr_Body r)" and "sf_ETag f1 \<noteq> sf_ETag f"
  shows "Download_reliable ((k, f1, f2) # faults) f options =
           bind_result (Download f1 (resume_options options \<lparr>hgi_Offset = int k\<rparr>))
             (\<lambda>_. Inl (RuntimeError ''File was changed during the download process.''))"
proof (cases "Download f1 (resume_options options \<lparr>hgi_Offset = int k\<rparr>)")
  case (Inl e)
  then show ?thesis
    using assms by (simp add: Download_reliable_def retryFunction_def c_reliableStreamRetryCount_def)
next
  case (Inr r1)
  then have "dr_ETag r1 \<noteq> dr_ETag r"
    using assms(1,3) Download_ETag by metis
  then show ?thesis
    using assms Inr by (simp add: Download_reliable_def retryFunction_def c_reliableStreamRetryCount_def)
qed

theorem Download_reliable_changed_file_witness:
  "Download example_file default_download_options =
     Inr \<lparr>dr_ETag = ''0x8D1'', dr_LastModified = ''Mon'', dr_ContentRange = None,
          dr_Body = [1, 2, 3, 4, 5], dr_IsServerEncrypted = False\<rparr> \<and>
   2 < length [1, 2, 3, 4, 5 :: byte] \<and> sf_ETag changed_file \<noteq> sf_ETag example_file \<and>
   Download_reliable [(2, changed_file, changed_file)] example_file default_download_options =
     bind_result (Download changed_file (resume_options default_download_options \<lparr>hgi_Offset = int 2\<rparr>))
       (\<lambda>_. Inl (RuntimeError ''File was changed during the download process.''))"
  using Download_reliable_changed_file
          [of example_file default_download_options
              "\<lparr>dr_ETag = ''0x8D1'', dr_LastModified = ''Mon'', dr_ContentRange = None,
                dr_Body = [1, 2, 3, 4, 5], dr_IsServerEncrypted = False\<rparr>" 2 changed_file changed_file "[]"]
  by (simp add: Download_whole default_download_options_def)

text \<open>
  C20. The entity tag that \<open>retryFunction\<close> checks is that of its first
  request; the body it resumes with is that of a second request, which is not
  checked. If the file changes between the two requests, the resumed body is
  the new file's whatever its tag.
\<close>

theorem retryFunction_second_response:
  assumes "sf_ETag f1 = eTag" and "\<not> isl (Download f1 (resume_options options info))"
  shows "retryFunction f1 f2 options eTag info =
           map_sum id dr_Body (Download f2 (resume_options options info))"
proof -
  obtain r1 where r1: "Download f1 (resume_options options info) = Inr r1"
    using assms(2) by (cases "Download f1 (resume_options options info)") auto
  then have "dr_ETag r1 = eTag"
    using assms(1) Download_ETag by metis
  then show ?thesis
    using r1 by (cases "Download f2 (resume_options options info)") (simp_all add: retryFunction_def)
qed

theorem retryFunction_second_response_witness:
  "sf_ETag example_file = ''0x8D1'' \<and>
   \<not> isl (Download example_file (resume_options default_download_options \<lparr>hgi_Offset = 2\<rparr>)) \<and>
   retryFunction example_file changed_file default_download_options ''0x8D1'' \<lparr>hgi_Offset = 2\<rparr> =
     Inr [9, 9, 9]"
proof -
  have d1: "\<not> isl (Download example_file (resume_options default_download_options \<lparr>hgi_Offset = 2\<rparr>))"
    using Download_offset [of "resume_options default_download_options \<lparr>hgi_Offset = 2\<rparr>" 2 example_file]
    by (auto simp: resume_options_def default_download_options_def)
  have d2: "map_sum id dr_Body
              (Download changed_file (resume_options default_download_options \<lparr>hgi_Offset = 2\<rparr>)) =
            Inr [9, 9, 9]"
    using Download_offset [of "resume_options default_download_options \<lparr>hgi_Offset = 2\<rparr>" 2 changed_file]
    by (auto simp: resume_options_def default_download_options_def numeral_eq_Suc)
  show ?thesis
    using retryFunction_second_response
            [of example_file "''0x8D1''" default_download_options "\<lparr>hgi_Offset = 2\<rparr>" changed_file] d1 d2
    by simp
qed

text \<open>
  C21. \<open>Download\<close> with a length but no offset sends no range and receives the
  whole file, but its resume function keeps the length: after a fault inside
  the first \<open>Length\<close> bytes the resumed request asks for the rest of those bytes
  only, so the stream ends after \<open>Length\<close> bytes instead of delivering the
  response's whole body.
\<close>

theorem Download_reliable_length_without_offset:
  assumes "dfo_Offset options = None" and "dfo_Length options = Some l"
    and "int k < l" and "l < int (length (sf_content f))"
  shows "map_sum id dr_Body (Download f options) = Inr (sf_content f) \<and>
         Download_reliable [(k, f, f)] f options =
           map_sum id (\<lambda>r. r\<lparr>dr_Body := take (nat l) (sf_content f)\<rparr>) (Download f options)"
proof -
  let ?c = "sf_content f"
  have resume: "resume_options options \<lparr>hgi_Offset = int k\<rparr> =
                  options\<lparr>dfo_Offset := Some (int k), dfo_Length := Some (l - int k)\<rparr>"
    using assms(1,2) by (simp add: resume_options_def)
  obtain r' where r': "Download f (resume_options options \<lparr>hgi_Offset = int k\<rparr>) = Inr r'"
      "dr_ETag r' = sf_ETag f" "dr_Body r' = take (nat (l - int k)) (drop k ?c)"
    using Download_offset [of "resume_options options \<lparr>hgi_Offset = int k\<rparr>" "int k" f] resume assms(3,4)
    by auto
  have get: "retryFunction f f options (sf_ETag f) \<lparr>hgi_Offset = int k\<rparr> =
               Inr (take (nat (l - int k)) (drop k ?c))"
    using r' by (simp add: retryFunction_def)
  have split: "take k ?c @ take (nat (l - int k)) (drop k ?c) = take (nat l) ?c"
    using take_drop_split [of 0 "int k" l ?c] assms(3) by simp
  have "k < length ?c"
    using assms(3,4) by simp
  then show ?thesis
    using assms(1) get split
    by (simp add: Download_reliable_def Download_whole c_reliableStreamRetryCount_def)
qed

theorem Download_reliable_length_without_offset_witness:
  "dfo_Offset (default_download_options\<lparr>dfo_Length := Some 3\<rparr>) = None \<and>
   dfo_Length (default_download_options\<lparr>dfo_Length := Some 3\<rparr>) = Some 3 \<and>
   int 1 < 3 \<and> 3 < int (length (sf_content example_file)) \<and>
   map_sum id dr_Body (Download example_file (default_download_options\<lparr>dfo_Length := Some 3\<rparr>)) =
     Inr [1, 2, 3, 4, 5] \<and>
   Download_reliable [(1, example_file, example_file)] example_file
     (default_download_options\<lparr>dfo_Length := Some 3\<rparr>) =
   Inr \<lparr>dr_ETag = ''0x8D1'', dr_LastModified = ''Mon'', dr_ContentRange = None,
        dr_Body = [1, 2, 3], dr_IsServerEncrypted = False\<rparr>"
  using Download_reliable_length_without_offset
          [of "default_download_options\<lparr>dfo_Length := Some 3\<rparr>" 3 1 example_file]
  by (simp add: Download_whole default_download_options_def)

end
