(* ===== verification/File_Client_Pipeline.thy ===== *)
theory File_Client_Pipeline
  imports Prelude
begin

text \<open>
  The construction of a \<open>FileClient\<close> (share_file_client.cpp lines 21--134):
  the three constructors build the client's HTTP pipeline as an ordered list
  of policies, \<open>CreateFromConnectionString\<close> picks the constructor from the
  parsed connection string, and \<open>WithSnapshot\<close> copies the client with the
  snapshot query parameter set or removed. The policies themselves and the
  pipeline's \<open>Send\<close> live in azure-core, outside the sources; \<open>Send\<close> and the
  retry policy are modelled from specification sections 4.1 and 4.2. A
  policy the caller supplies is cloned into the pipeline: a copy of the same
  value.
\<close>

section \<open>Policies, options and the client\<close>

text \<open>\<open>Azure::Core::Http::RetryOptions\<close>: delays in milliseconds.\<close>

record RetryOptions =
  ro_MaxRetries :: nat
  ro_RetryDelay :: int
  ro_MaxRetryDelay :: int
  ro_StatusCodes :: "nat list"

text \<open>\<open>RetryOptions()\<close>: the defaults of azure-core.\<close>

definition default_retry_options :: RetryOptions where
  "default_retry_options =
     \<lparr>ro_MaxRetries = 3, ro_RetryDelay = 4000, ro_MaxRetryDelay = 120000,
      ro_StatusCodes = [408, 429, 500, 502, 503, 504]\<rparr>"

text \<open>\<open>Azure::Storage::StorageRetryWithSecondaryOptions\<close> extends the retry options
  with the secondary host read requests may be retried on; it is a record
  extension of \<open>RetryOptions\<close>, as the C++ struct derives from it.\<close>

record StorageRetryWithSecondaryOptions = RetryOptions +
  sro_SecondaryHostForRetryReads :: string

text \<open>The policies a \<open>FileClient\<close> or DataLake pipeline is made of; \<open>UserPolicy\<close>
  is one the caller supplies in \<open>PerOperationPolicies\<close> or \<open>PerRetryPolicies\<close>,
  named.\<close>

datatype HttpPolicy =
    TelemetryPolicy string string
  | RequestIdPolicy
  | RetryPolicy RetryOptions
  | StorageRetryPolicy StorageRetryWithSecondaryOptions
  | StoragePerRetryPolicy
  | SharedKeyPolicy string
  | BearerTokenAuthenticationPolicy string string
  | TransportPolicy
  | UserPolicy string

record FileClientOptions =
  fco_PerOperationPolicies :: "HttpPolicy list"
  fco_PerRetryPolicies :: "HttpPolicy list"

text \<open>\<open>Azure::Core::Http::Url\<close>: the service address, the path segments appended
  to it (encoded when sent) and the query parameters, a map as in azure-core;
  \<open>AppendPath\<close>, \<open>AppendQuery\<close> and \<open>RemoveQuery\<close> are written out where they
  are called.\<close>

record Url =
  url_host :: string
  url_path :: "string list"
  url_query :: "string \<rightharpoonup> string"

text \<open>\<open>FileClient\<close>'s members \<open>m_shareFileUri\<close> and \<open>m_pipeline\<close>.\<close>

record FileClient =
  fc_shareFileUri :: Url
  fc_pipeline :: "HttpPolicy list"

section \<open>The constructors\<close>

text \<open>The telemetry policy carries \<open>Details::c_FileServicePackageName\<close> and
  \<open>FileServiceVersion\<close>, constants of the package outside the sources; the
  version is named here by the constant, and no lemma depends on its value.\<close>

definition c_FileServicePackageName :: string where
  "c_FileServicePackageName = ''storage-files-shares''"

definition FileServiceVersion :: string where
  "FileServiceVersion = ''FileServiceVersion''"

text \<open>The policies every constructor puts around the authentication policy
  (lines 48--66, 74--95, 100--119; the telemetry policy carries
  \<open>c_FileServicePackageName\<close> and \<open>FileServiceVersion\<close>)
  \<open>auth\<close>: telemetry, request id, the caller's per-operation policies, the retry
  policy, the caller's per-retry policies, the storage per-retry policy, then
  \<open>auth\<close> and the transport.\<close>

definition client_pipeline :: "FileClientOptions \<Rightarrow> HttpPolicy list \<Rightarrow> HttpPolicy list" where
  "client_pipeline options auth =
     [TelemetryPolicy c_FileServicePackageName FileServiceVersion, RequestIdPolicy] @
     fco_PerOperationPolicies options @ [RetryPolicy default_retry_options] @
     fco_PerRetryPolicies options @ [StoragePerRetryPolicy] @ auth @ [TransportPolicy]"

text \<open>Lines 42--68: with a shared key.\<close>

definition FileClient_shared_key :: "Url \<Rightarrow> string \<Rightarrow> FileClientOptions \<Rightarrow> FileClient" where
  "FileClient_shared_key shareFileUri credential options =
     \<lparr>fc_shareFileUri = shareFileUri,
      fc_pipeline = client_pipeline options [SharedKeyPolicy credential]\<rparr>"

text \<open>Lines 69--97: with a token credential, for the scope \<open>c_StorageScope\<close>.\<close>

definition FileClient_token :: "Url \<Rightarrow> string \<Rightarrow> FileClientOptions \<Rightarrow> FileClient" where
  "FileClient_token shareFileUri credential options =
     \<lparr>fc_shareFileUri = shareFileUri,
      fc_pipeline = client_pipeline options [BearerTokenAuthenticationPolicy credential
                                                   ''https://storage.azure.com/.default'']\<rparr>"

text \<open>Lines 99--120: anonymous (a SAS in the URL, or none).\<close>

definition FileClient_anonymous :: "Url \<Rightarrow> FileClientOptions \<Rightarrow> FileClient" where
  "FileClient_anonymous shareFileUri options =
     \<lparr>fc_shareFileUri = shareFileUri, fc_pipeline = client_pipeline options []\<rparr>"

text \<open>\<open>ParseConnectionString\<close> (storage common, outside the sources) gives the
  file service address and, when the string has an account key, the key.\<close>

record ParsedConnectionString =
  pcs_FileServiceUri :: Url
  pcs_KeyCredential :: "string option"

text \<open>Lines 21--40.\<close>

definition CreateFromConnectionString ::
  "ParsedConnectionString \<Rightarrow> string \<Rightarrow> string \<Rightarrow> FileClientOptions \<Rightarrow> FileClient" where
  "CreateFromConnectionString parsed shareName filePath options =
     (let serviceUri = pcs_FileServiceUri parsed;
          fileUri = serviceUri\<lparr>url_path := url_path serviceUri @ [shareName, filePath]\<rparr>
      in case pcs_KeyCredential parsed of
           Some key \<Rightarrow> FileClient_shared_key fileUri key options
         | None \<Rightarrow> FileClient_anonymous fileUri options)"

text \<open>Lines 122--134; \<open>c_ShareSnapshotQueryParameter\<close> is \<open>sharesnapshot\<close>.\<close>

definition WithSnapshot :: "FileClient \<Rightarrow> string \<Rightarrow> FileClient" where
  "WithSnapshot client snapshot =
     (let u = fc_shareFileUri client
      in if snapshot = []
         then client\<lparr>fc_shareFileUri := u\<lparr>url_query := (url_query u)(''sharesnapshot'' := None)\<rparr>\<rparr>
         else client\<lparr>fc_shareFileUri := u\<lparr>url_query := (url_query u)(''sharesnapshot'' \<mapsto> snapshot)\<rparr>\<rparr>)"

section \<open>Sending through the pipeline\<close>

text \<open>What one transport call meets: an HTTP status, or a transport fault. The
  network is the sequence of outcomes of the transport calls, in order.\<close>

datatype Outcome = HttpStatus nat | TransportFailure

definition retryable :: "RetryOptions \<Rightarrow> Outcome \<Rightarrow> bool" where
  "retryable opts out =
     (case out of TransportFailure \<Rightarrow> True | HttpStatus s \<Rightarrow> s \<in> set (ro_StatusCodes opts))"

text \<open>A send returns the policies it visited, in order, the number of transport
  calls made so far and the final outcome.\<close>

type_synonym send_result = "(HttpPolicy list \<times> nat \<times> Outcome) result"

definition prepend_visit :: "HttpPolicy list \<Rightarrow> send_result \<Rightarrow> send_result" where
  "prepend_visit tr r = map_sum id (\<lambda>(tr', c, out). (tr @ tr', c, out)) r"

text \<open>The retry policy (section 4.2): attempt \<open>n\<close> re-drives the rest of the chain
  \<open>next\<close>; a retryable outcome before attempt \<open>MaxRetries\<close> is retried, any other
  outcome is the answer. The storage retry policy counts attempts the same
  way; its secondary host changes which host a read is sent to, and the
  network's outcomes already stand for whichever host answers.\<close>

function retry_loop :: "(nat \<Rightarrow> send_result) \<Rightarrow> RetryOptions \<Rightarrow> nat \<Rightarrow> nat \<Rightarrow> send_result" where
  "retry_loop next opts n calls =
     (case next calls of
        Inl e \<Rightarrow> Inl e
      | Inr (tr, calls', out) \<Rightarrow>
          if retryable opts out \<and> n < ro_MaxRetries opts
          then prepend_visit tr (retry_loop next opts (Suc n) calls')
          else Inr (tr, calls', out))"
  by pat_completeness auto
termination
  by (relation "measure (\<lambda>(next, opts, n, calls). ro_MaxRetries opts - n)") auto

declare retry_loop.simps [simp del]

text \<open>\<open>HttpPipeline::Send\<close> (section 4.1): each policy is visited and passes the
  request on to the rest of the chain; the transport answers with the next
  outcome of the network and does not go on. A chain without a transport has
  no answer.\<close>

primrec send_chain :: "HttpPolicy list \<Rightarrow> (nat \<Rightarrow> Outcome) \<Rightarrow> nat \<Rightarrow> send_result" where
  "send_chain [] net calls = Inl (InvalidArgument ''Invalid pipeline. No transport policy found. Endless policy.'')"
| "send_chain (p # rest) net calls =
     (case p of
        TransportPolicy \<Rightarrow> Inr ([TransportPolicy], Suc calls, net calls)
      | RetryPolicy opts \<Rightarrow> prepend_visit [p] (retry_loop (send_chain rest net) opts 1 calls)
      | StorageRetryPolicy opts \<Rightarrow>
          prepend_visit [p] (retry_loop (send_chain rest net) (RetryOptions.truncate opts) 1 calls)
      | _ \<Rightarrow> prepend_visit [p] (send_chain rest net calls))"

text \<open>\<open>HttpPipeline\<close>'s constructor refuses an empty list of policies.\<close>

definition HttpPipeline :: "HttpPolicy list \<Rightarrow> HttpPolicy list result" where
  "HttpPipeline policies =
     (if policies = [] then Inl (InvalidArgument ''policies cannot be empty'') else Inr policies)"

definition Send :: "HttpPolicy list \<Rightarrow> (nat \<Rightarrow> Outcome) \<Rightarrow> send_result" where
  "Send policies net = bind_result (HttpPipeline policies) (\<lambda>ps. send_chain ps net 0)"

section \<open>Well-formed pipelines\<close>

text \<open>A policy that passes the request on and does not retry.\<close>

definition plain_policy :: "HttpPolicy \<Rightarrow> bool" where
  "plain_policy p =
     (case p of TransportPolicy \<Rightarrow> False | RetryPolicy _ \<Rightarrow> False | StorageRetryPolicy _ \<Rightarrow> False
      | _ \<Rightarrow> True)"

text \<open>The policies before the first retry policy, its options, and the policies
  after it.\<close>

fun retry_split :: "HttpPolicy list \<Rightarrow> (HttpPolicy list \<times> RetryOptions \<times> HttpPolicy list) option" where
  "retry_split [] = None"
| "retry_split (RetryPolicy opts # ps) = Some ([], opts, ps)"
| "retry_split (p # ps) = map_option (\<lambda>(pre, opts, post). (p # pre, opts, post)) (retry_split ps)"

text \<open>Section 3: a pipeline ends with the transport; here also exactly one retry
  policy, and no transport before the end.\<close>

definition pipeline_wf :: "HttpPolicy list \<Rightarrow> bool" where
  "pipeline_wf ps =
     (case retry_split ps of
        None \<Rightarrow> False
      | Some (pre, opts, post) \<Rightarrow>
          list_all plain_policy pre \<and> post \<noteq> [] \<and> last post = TransportPolicy \<and>
          list_all plain_policy (butlast post))"

text \<open>An address, options without policies of the caller's, and a network whose
  first answer is a 503 and whose later answers are 200, for the examples.\<close>

abbreviation example_url :: Url where
  "example_url \<equiv> \<lparr>url_host = ''a.file.core.windows.net'', url_path = [''share'', ''f''],
                   url_query = Map.empty\<rparr>"

abbreviation empty_client_options :: FileClientOptions where
  "empty_client_options \<equiv> \<lparr>fco_PerOperationPolicies = [], fco_PerRetryPolicies = []\<rparr>"

abbreviation flaky_network :: "nat \<Rightarrow> Outcome" where
  "flaky_network \<equiv> (\<lambda>n. if n = 0 then HttpStatus 503 else HttpStatus 200)"

section \<open>Lemmas\<close>

lemma send_chain_plain:
  assumes "list_all plain_policy mids"
  shows "send_chain (mids @ [TransportPolicy]) net c = Inr (mids @ [TransportPolicy], Suc c, net c)"
  using assms
proof (induction mids)
  case Nil
  then show ?case by simp
next
  case (Cons p mids)
  then show ?case
    by (cases p) (simp_all add: plain_policy_def prepend_visit_def)
qed

lemma retry_loop_attempts:
  assumes "\<And>c. nxt c = Inr (post, Suc c, net c)"
  shows "\<exists>k. 0 < k \<and> n + k - 1 \<le> max n (ro_MaxRetries opts) \<and>
             retry_loop nxt opts n c = Inr (concat (replicate k post), c + k, net (c + k - 1)) \<and>
             (\<forall>i < k - 1. retryable opts (net (c + i))) \<and>
             (n + k - 1 < ro_MaxRetries opts \<longrightarrow> \<not> retryable opts (net (c + k - 1)))"
  using assms
proof (induction nxt opts n c rule: retry_loop.induct)
  case (1 nxt opts n c)
  show ?case
  proof (cases "retryable opts (net c) \<and> n < ro_MaxRetries opts")
    case False
    then show ?thesis
      using "1.prems" by (intro exI [of _ 1]) (subst retry_loop.simps, auto)
  next
    case True
    then obtain k where k: "0 < k" "Suc n + k - 1 \<le> max (Suc n) (ro_MaxRetries opts)"
        "retry_loop nxt opts (Suc n) (Suc c) =
           Inr (concat (replicate k post), Suc c + k, net (Suc c + k - 1))"
        "\<forall>i < k - 1. retryable opts (net (Suc c + i))"
        "Suc n + k - 1 < ro_MaxRetries opts \<longrightarrow> \<not> retryable opts (net (Suc c + k - 1))"
      using "1.IH" "1.prems" by fastforce
    have "\<forall>i < Suc k - 1. retryable opts (net (c + i))"
    proof (intro allI impI)
      fix i
      assume "i < Suc k - 1"
      then show "retryable opts (net (c + i))"
        using k(4) True by (cases i) auto
    qed
    moreover have "retry_loop nxt opts n c =
                     Inr (concat (replicate (Suc k) post), c + Suc k, net (c + Suc k - 1))"
      using True k(1,3) "1.prems" by (subst retry_loop.simps) (simp add: prepend_visit_def)
    ultimately show ?thesis
      using k True by (intro exI [of _ "Suc k"]) auto
  qed
qed

lemma retry_split_append:
  "list_all plain_policy xs \<Longrightarrow> retry_split (xs @ RetryPolicy opts # ys) = Some (xs, opts, ys)"
  by (induction xs) (auto simp: plain_policy_def split: HttpPolicy.splits)

lemma retry_split_Some:
  "retry_split ps = Some (pre, opts, post) \<Longrightarrow> ps = pre @ RetryPolicy opts # post"
  by (induction ps arbitrary: pre rule: retry_split.induct) auto

lemma send_chain_plain_prefix:
  "list_all plain_policy pre \<Longrightarrow> send_chain (pre @ ys) net c = prepend_visit pre (send_chain ys net c)"
proof (induction pre)
  case Nil
  then show ?case by (cases "send_chain ys net c") (auto simp: prepend_visit_def)
next
  case (Cons p pre)
  then show ?case
    by (cases p; cases "send_chain ys net c") (auto simp: plain_policy_def prepend_visit_def)
qed

lemma pipeline_wf_client:
  assumes "list_all plain_policy (fco_PerOperationPolicies options)"
    and "list_all plain_policy (fco_PerRetryPolicies options)" and "list_all plain_policy auth"
  shows "pipeline_wf (client_pipeline options auth)"
proof -
  have "list_all plain_policy ([TelemetryPolicy c_FileServicePackageName FileServiceVersion, RequestIdPolicy] @
                                fco_PerOperationPolicies options)"
    using assms(1) by (simp add: plain_policy_def)
  from retry_split_append [OF this] show ?thesis
    using assms by (simp add: pipeline_wf_def client_pipeline_def plain_policy_def butlast_append)
qed

text \<open>A send through a well-formed pipeline: the policies before the retry
  policy once, the rest once per attempt, for \<open>k\<close> attempts.\<close>

lemma Send_wf:
  assumes "pipeline_wf ps" and "retry_split ps = Some (pre, opts, post)"
  shows "\<exists>k. 0 < k \<and> k \<le> max 1 (ro_MaxRetries opts) \<and>
             Send ps net = Inr (pre @ [RetryPolicy opts] @ concat (replicate k post), k, net (k - 1)) \<and>
             (\<forall>i < k - 1. retryable opts (net i)) \<and>
             (k < ro_MaxRetries opts \<longrightarrow> \<not> retryable opts (net (k - 1)))"
proof -
  have ps: "ps = pre @ RetryPolicy opts # post"
    using retry_split_Some [OF assms(2)] .
  have wf: "list_all plain_policy pre" "post \<noteq> []" "last post = TransportPolicy"
      "list_all plain_policy (butlast post)"
    using assms by (simp_all add: pipeline_wf_def)
  then have plain: "list_all plain_policy pre" "post = butlast post @ [TransportPolicy]"
      "list_all plain_policy (butlast post)"
    by (metis append_butlast_last_id)+
  have post: "\<And>c. send_chain post net c = Inr (post, Suc c, net c)"
    using send_chain_plain [OF plain(3), of net] plain(2) by metis
  obtain k where k: "0 < k" "1 + k - 1 \<le> max 1 (ro_MaxRetries opts)"
      "retry_loop (send_chain post net) opts 1 0 = Inr (concat (replicate k post), 0 + k, net (0 + k - 1))"
      "\<forall>i < k - 1. retryable opts (net (0 + i))"
      "1 + k - 1 < ro_MaxRetries opts \<longrightarrow> \<not> retryable opts (net (0 + k - 1))"
    using retry_loop_attempts [of "send_chain post net" post net 1 opts 0, OF post] by blast
  have "Send ps net = Inr (pre @ [RetryPolicy opts] @ concat (replicate k post), k, net (k - 1))"
    using k(3) by (simp add: Send_def HttpPipeline_def ps send_chain_plain_prefix [OF plain(1)]
                             prepend_visit_def)
  then show ?thesis
    using k by (intro exI [of _ k]) simp
qed

lemma retry_loop_Inl:
  "(\<And>c. nxt c = Inl e) \<Longrightarrow> retry_loop nxt opts n c = Inl e"
  by (subst retry_loop.simps) simp

lemma send_chain_no_transport:
  "TransportPolicy \<notin> set ps \<Longrightarrow>
   send_chain ps net c = Inl (InvalidArgument ''Invalid pipeline. No transport policy found. Endless policy.'')"
proof (induction ps arbitrary: c)
  case Nil
  then show ?case by simp
next
  case (Cons p ps)
  then show ?case
    by (cases p) (simp_all add: prepend_visit_def retry_loop_Inl)
qed

section \<open>Properties of the client's pipeline\<close>

text \<open>
  C22. Every way of constructing a \<open>FileClient\<close> (shared key, token,
  anonymous, from a connection string) gives a well-formed pipeline: exactly one
  retry policy, the transport last and only there, provided the caller's
  per-operation and per-retry policies neither retry nor end the chain.
\<close>

theorem client_pipelines_wf:
  assumes "list_all plain_policy (fco_PerOperationPolicies options)"
    and "list_all plain_policy (fco_PerRetryPolicies options)"
  shows "pipeline_wf (fc_pipeline (FileClient_shared_key u key options)) \<and>
         pipeline_wf (fc_pipeline (FileClient_token u token options)) \<and>
         pipeline_wf (fc_pipeline (FileClient_anonymous u options)) \<and>
         pipeline_wf (fc_pipeline (CreateFromConnectionString parsed shareName filePath options))"
  using assms pipeline_wf_client [OF assms]
  by (simp add: FileClient_shared_key_def FileClient_token_def FileClient_anonymous_def
                CreateFromConnectionString_def plain_policy_def Let_def split: option.split)

theorem client_pipelines_wf_witness:
  "list_all plain_policy (fco_PerOperationPolicies \<lparr>fco_PerOperationPolicies = [UserPolicy ''log''],
                                                    fco_PerRetryPolicies = [UserPolicy ''trace'']\<rparr>) \<and>
   list_all plain_policy (fco_PerRetryPolicies \<lparr>fco_PerOperationPolicies = [UserPolicy ''log''],
                                                fco_PerRetryPolicies = [UserPolicy ''trace'']\<rparr>) \<and>
   pipeline_wf (fc_pipeline (FileClient_shared_key \<lparr>url_host = ''a.file.core.windows.net'', url_path = [],
                                                     url_query = Map.empty\<rparr> ''key''
                                \<lparr>fco_PerOperationPolicies = [UserPolicy ''log''],
                                 fco_PerRetryPolicies = [UserPolicy ''trace'']\<rparr>))"
  using client_pipelines_wf
          [of "\<lparr>fco_PerOperationPolicies = [UserPolicy ''log''], fco_PerRetryPolicies = [UserPolicy ''trace'']\<rparr>"
              "\<lparr>url_host = ''a.file.core.windows.net'', url_path = [], url_query = Map.empty\<rparr>" "''key''"]
  by (simp add: plain_policy_def)

text \<open>
  C23. Sending through the pipeline of a \<open>FileClient\<close>, whatever its
  authentication policies \<open>auth\<close>, visits the policies in registration order:
  telemetry, request id and the caller's per-operation policies once, the
  retry policy once, then per attempt the caller's per-retry policies, the
  storage per-retry policy, \<open>auth\<close> and the transport, so every attempt is
  signed afresh. There are one to three attempts (the default \<open>MaxRetries\<close>):
  every attempt but the last met a retryable outcome, and the last one's
  outcome, the answer, is not retryable unless the attempts are spent. A
  pipeline with no policy at all fails when it is constructed.
\<close>

theorem client_send_visits_in_order:
  assumes "list_all plain_policy (fco_PerOperationPolicies options)"
    and "list_all plain_policy (fco_PerRetryPolicies options)" and "list_all plain_policy auth"
  shows "Send [] net = Inl (InvalidArgument ''policies cannot be empty'') \<and>
         (\<exists>k. 0 < k \<and> k \<le> 3 \<and>
              Send (client_pipeline options auth) net =
                Inr ([TelemetryPolicy c_FileServicePackageName FileServiceVersion, RequestIdPolicy] @
                     fco_PerOperationPolicies options @ [RetryPolicy default_retry_options] @
                     concat (replicate k (fco_PerRetryPolicies options @ [StoragePerRetryPolicy] @
                                          auth @ [TransportPolicy])),
                     k, net (k - 1)) \<and>
              (\<forall>i < k - 1. retryable default_retry_options (net i)) \<and>
              (k < 3 \<longrightarrow> \<not> retryable default_retry_options (net (k - 1))))"
proof -
  let ?pre = "[TelemetryPolicy c_FileServicePackageName FileServiceVersion, RequestIdPolicy] @
              fco_PerOperationPolicies options"
  have pre: "list_all plain_policy ?pre"
    using assms(1) by (simp add: plain_policy_def)
  have split: "retry_split (client_pipeline options auth) =
                 Some (?pre, default_retry_options,
                       fco_PerRetryPolicies options @ [StoragePerRetryPolicy] @ auth @ [TransportPolicy])"
    using retry_split_append [OF pre] by (simp add: client_pipeline_def)
  show ?thesis
    using Send_wf [OF pipeline_wf_client [OF assms] split, of net]
    by (simp add: default_retry_options_def Send_def HttpPipeline_def)
qed

theorem client_send_visits_in_order_witness:
  "list_all plain_policy (fco_PerOperationPolicies empty_client_options) \<and>
   list_all plain_policy (fco_PerRetryPolicies empty_client_options) \<and>
   list_all plain_policy [SharedKeyPolicy ''key''] \<and>
   Send [] flaky_network = Inl (InvalidArgument ''policies cannot be empty'') \<and>
   (\<exists>k. 0 < k \<and> k \<le> 3 \<and>
        Send (client_pipeline empty_client_options [SharedKeyPolicy ''key'']) flaky_network =
          Inr ([TelemetryPolicy c_FileServicePackageName FileServiceVersion, RequestIdPolicy] @
               fco_PerOperationPolicies empty_client_options @ [RetryPolicy default_retry_options] @
               concat (replicate k (fco_PerRetryPolicies empty_client_options @ [StoragePerRetryPolicy] @
                                    [SharedKeyPolicy ''key''] @ [TransportPolicy])),
               k, flaky_network (k - 1)) \<and>
        (\<forall>i < k - 1. retryable default_retry_options (flaky_network i)) \<and>
        (k < 3 \<longrightarrow> \<not> retryable default_retry_options (flaky_network (k - 1))))"
  using client_send_visits_in_order [of empty_client_options "[SharedKeyPolicy ''key'']" flaky_network]
  by (simp add: plain_policy_def)

text \<open>
  C24. A client made from a connection string addresses the file
  \<open>share/path\<close> under the file service of the connection string, and signs its
  requests with the account key exactly when the connection string has one;
  without a key the pipeline has no authentication policy of its own.
\<close>

theorem connection_string_client:
  assumes "list_all plain_policy (fco_PerOperationPolicies options)"
    and "list_all plain_policy (fco_PerRetryPolicies options)"
    and "\<forall>p \<in> set (fco_PerOperationPolicies options @ fco_PerRetryPolicies options).
           \<not> (\<exists>k. p = SharedKeyPolicy k)"
  shows "url_path (fc_shareFileUri (CreateFromConnectionString parsed shareName filePath options)) =
           url_path (pcs_FileServiceUri parsed) @ [shareName, filePath] \<and>
         (\<forall>k. SharedKeyPolicy k \<in> set (fc_pipeline (CreateFromConnectionString parsed shareName filePath options))
              \<longleftrightarrow> pcs_KeyCredential parsed = Some k)"
  using assms
  by (auto simp: CreateFromConnectionString_def FileClient_shared_key_def FileClient_anonymous_def
                 client_pipeline_def Let_def split: option.split)

theorem connection_string_client_witness:
  "list_all plain_policy (fco_PerOperationPolicies empty_client_options) \<and>
   list_all plain_policy (fco_PerRetryPolicies empty_client_options) \<and>
   url_path (fc_shareFileUri (CreateFromConnectionString
                                \<lparr>pcs_FileServiceUri = example_url, pcs_KeyCredential = Some ''key''\<rparr>
                                ''logs'' ''today.txt'' empty_client_options)) =
     [''share'', ''f'', ''logs'', ''today.txt''] \<and>
   SharedKeyPolicy ''key'' \<in> set (fc_pipeline (CreateFromConnectionString
                                \<lparr>pcs_FileServiceUri = example_url, pcs_KeyCredential = Some ''key''\<rparr>
                                ''logs'' ''today.txt'' empty_client_options))"
  using connection_string_client
          [of empty_client_options "\<lparr>pcs_FileServiceUri = example_url, pcs_KeyCredential = Some ''key''\<rparr>"
              "''logs''" "''today.txt''"]
  by simp


text \<open>\<open>HttpPipeline\<close>'s constructor checks only that it has a policy, as the
  azure-core test \<open>Pipeline.createPipeline\<close> (src/sdk/core/azure-core/test/ut/
  pipeline.cpp) expects of a pipeline holding just a telemetry policy; a
  pipeline without a transport is accepted and every send through it fails.\<close>

lemma pipeline_without_transport:
  assumes "ps \<noteq> []" and "TransportPolicy \<notin> set ps"
  shows "HttpPipeline ps = Inr ps \<and>
         Send ps net = Inl (InvalidArgument ''Invalid pipeline. No transport policy found. Endless policy.'')"
  using assms send_chain_no_transport [OF assms(2)] by (simp add: HttpPipeline_def Send_def)

text \<open>
  C26. The constructors put the caller's policies into the pipeline unchecked.
  A transport among the caller's per-operation policies answers the first
  send: the request makes one attempt, and neither the retry policy nor the
  authentication policy is ever reached, so the request goes out unsigned.
\<close>

theorem client_user_transport_short_circuits:
  assumes "fco_PerOperationPolicies options = ops @ TransportPolicy # rest"
    and "list_all plain_policy ops"
  shows "Send (client_pipeline options auth) net =
           Inr ([TelemetryPolicy c_FileServicePackageName FileServiceVersion, RequestIdPolicy] @ ops @
                [TransportPolicy], 1, net 0)"
proof -
  have pre: "list_all plain_policy ([TelemetryPolicy c_FileServicePackageName FileServiceVersion, RequestIdPolicy] @ ops)"
    using assms(2) by (simp add: plain_policy_def)
  show ?thesis
    using send_chain_plain_prefix [OF pre, of "TransportPolicy # _" net 0] assms(1)
    by (simp add: Send_def HttpPipeline_def client_pipeline_def prepend_visit_def)
qed

theorem client_user_transport_short_circuits_witness:
  "fco_PerOperationPolicies \<lparr>fco_PerOperationPolicies = [UserPolicy ''log'', TransportPolicy],
                             fco_PerRetryPolicies = []\<rparr> = [UserPolicy ''log''] @ TransportPolicy # [] \<and>
   list_all plain_policy [UserPolicy ''log''] \<and>
   Send (client_pipeline \<lparr>fco_PerOperationPolicies = [UserPolicy ''log'', TransportPolicy],
                          fco_PerRetryPolicies = []\<rparr> [SharedKeyPolicy ''key'']) flaky_network =
     Inr ([TelemetryPolicy c_FileServicePackageName FileServiceVersion, RequestIdPolicy, UserPolicy ''log'',
           TransportPolicy], 1, HttpStatus 503)"
  using client_user_transport_short_circuits
          [of "\<lparr>fco_PerOperationPolicies = [UserPolicy ''log'', TransportPolicy], fco_PerRetryPolicies = []\<rparr>"
              "[UserPolicy ''log'']" "[]" "[SharedKeyPolicy ''key'']" flaky_network]
  by (simp add: plain_policy_def)

end
