(* ===== verification/Code_Owners.thy ===== *)
theory Code_Owners
  imports Prelude
begin

text \<open>
  The repository's CODEOWNERS file (src/unnamed/part_000): an ordered list of
  rules, each a path pattern with its owners and, for some, the pull-request
  label of the comment above it. GitHub assigns a path the owners of the last
  rule whose pattern matches it. The matching is GitHub's, with gitignore
  patterns, and is modelled from its documentation: a pattern with a leading or
  inner slash is anchored at the repository root, any other matches at any
  depth; a trailing slash matches a directory and everything below it, any
  other pattern also matches everything below a directory it names; \<open>*\<close>
  matches within one path segment, \<open>**/\<close> any number of whole segments.
\<close>

section \<open>Rules\<close>

record CodeOwnersRule =
  co_pattern :: string
  co_owners :: "string list"
  co_prlabel :: "string option"

text \<open>Lines 9--35, in file order.\<close>

definition codeowners :: "CodeOwnersRule list" where
  "codeowners =
     [\<lparr>co_pattern = ''*'', co_owners = [''@rickwinter'', ''@ahsonkhan'', ''@antkmsft'', ''@vhvb1989''],
       co_prlabel = None\<rparr>,
      \<lparr>co_pattern = ''/sdk/'', co_owners = [''@rickwinter'', ''@ahsonkhan'', ''@antkmsft'', ''@vhvb1989''],
       co_prlabel = None\<rparr>,
      \<lparr>co_pattern = ''/samples/'', co_owners = [''@rickwinter'', ''@ahsonkhan'', ''@antkmsft'', ''@vhvb1989''],
       co_prlabel = None\<rparr>,
      \<lparr>co_pattern = ''/sdk/core/'', co_owners = [''@rickwinter'', ''@ahsonkhan'', ''@antkmsft'', ''@vhvb1989''],
       co_prlabel = Some ''%Azure.Core''\<rparr>,
      \<lparr>co_pattern = ''/sdk/identity/'',
       co_owners = [''@antkmsft'', ''@schaabs'', ''@ahsonkhan'', ''@rickwinter'', ''@vhvb1989''],
       co_prlabel = Some ''%Azure.Identity''\<rparr>,
      \<lparr>co_pattern = ''/sdk/keyvault/'', co_owners = [''@vhvb1989'', ''@ahsonkhan'', ''@antkmsft'', ''@rickwinter''],
       co_prlabel = Some ''%KeyVault''\<rparr>,
      \<lparr>co_pattern = ''/sdk/storage/'',
       co_owners = [''@vinjiang'', ''@katmsft'', ''@JinmingHu-MSFT'', ''@antkmsft'', ''@rickwinter'', ''@vhvb1989''],
       co_prlabel = Some ''%Storage''\<rparr>,
      \<lparr>co_pattern = ''/sdk/template/'', co_owners = [''@danieljurek'', ''@Azure/azure-sdk-eng''],
       co_prlabel = Some ''%EngSys''\<rparr>,
      \<lparr>co_pattern = ''/eng/'', co_owners = [''@danieljurek'', ''@azure/azure-sdk-eng''], co_prlabel = None\<rparr>,
      \<lparr>co_pattern = ''/**/ci.yml'', co_owners = [''@danieljurek'', ''@azure/azure-sdk-eng''], co_prlabel = None\<rparr>,
      \<lparr>co_pattern = ''/**/tests.yml'', co_owners = [''@danieljurek'', ''@azure/azure-sdk-eng''],
       co_prlabel = None\<rparr>]"

section \<open>Matching\<close>

text \<open>Glob matching of a repository-relative path: \<open>**/\<close> skips any number of
  whole segments, \<open>**\<close> anything, \<open>*\<close> anything within a segment.\<close>

function glob :: "string \<Rightarrow> string \<Rightarrow> bool" where
  "glob p s =
     (if p = [] then s = []
      else if take 3 p = ''**/'' then
        glob (drop 3 p) s \<or> (\<exists>k < length s. s ! k = CHR ''/'' \<and> glob (drop 3 p) (drop (Suc k) s))
      else if take 2 p = ''**'' then (\<exists>k \<le> length s. glob (drop 2 p) (drop k s))
      else if hd p = CHR ''*'' then
        (\<exists>k \<le> length s. CHR ''/'' \<notin> set (take k s) \<and> glob (tl p) (drop k s))
      else s \<noteq> [] \<and> hd p = hd s \<and> glob (tl p) (tl s))"
  by pat_completeness auto
termination
  by (relation "measure (\<lambda>(p, s). length p)") auto

declare glob.simps [simp del]

text \<open>A CODEOWNERS pattern against a path.\<close>

definition codeowners_match :: "string \<Rightarrow> string \<Rightarrow> bool" where
  "codeowners_match pattern path =
     (let core = (if take 1 pattern = ''/'' then drop 1 pattern else pattern);
          anchored = (take 1 pattern = ''/'' \<or> CHR ''/'' \<in> set (butlast core));
          g = (if anchored then core else ''**/'' @ core)
      in if last core = CHR ''/'' then glob (g @ ''**'') path
         else glob g path \<or> glob (g @ ''/**'') path)"

text \<open>The owners of a path: those of the last matching rule.\<close>

definition owners_of :: "string \<Rightarrow> string list" where
  "owners_of path =
     (case filter (\<lambda>r. codeowners_match (co_pattern r) path) codeowners of
        [] \<Rightarrow> []
      | ms \<Rightarrow> co_owners (last ms))"

section \<open>Lemmas on matching\<close>

lemma glob_Nil [simp]: "glob [] s = (s = [])"
  by (simp add: glob.simps)

lemma glob_lit [simp]:
  "c \<noteq> CHR ''*'' \<Longrightarrow> glob (c # p) s = (s \<noteq> [] \<and> c = hd s \<and> glob p (tl s))"
  by (subst glob.simps) auto

lemma glob_anything [simp]: "glob ''**'' s"
proof -
  have "glob ''**'' s = (\<exists>k \<le> length s. drop k s = [])"
    by (subst glob.simps) simp
  then show ?thesis
    by auto
qed

lemma glob_any_depth: "glob p s \<Longrightarrow> glob (''**/'' @ p) s"
  by (subst glob.simps) simp

lemma glob_star: "glob ''*'' s \<longleftrightarrow> CHR ''/'' \<notin> set s"
proof -
  have "glob ''*'' s = (\<exists>k \<le> length s. CHR ''/'' \<notin> set (take k s) \<and> drop k s = [])"
    by (subst glob.simps) simp
  also have "\<dots> \<longleftrightarrow> CHR ''/'' \<notin> set s"
    by (auto intro: exI [of _ "length s"])
  finally show ?thesis .
qed

lemma glob_star_slash: "CHR ''/'' \<in> set s \<Longrightarrow> glob ''*/**'' s"
proof -
  assume "CHR ''/'' \<in> set s"
  then obtain a b where s: "s = a @ CHR ''/'' # b" and a: "CHR ''/'' \<notin> set a"
    by (blast dest: split_list_first)
  have "glob ''*/**'' s =
          (\<exists>k \<le> length s. CHR ''/'' \<notin> set (take k s) \<and> glob ''/**'' (drop k s))"
    by (subst glob.simps) simp
  moreover have "CHR ''/'' \<notin> set (take (length a) s) \<and> glob ''/**'' (drop (length a) s)"
    using a by (simp add: s)
  ultimately show ?thesis
    by (metis le_add1 length_append s)
qed

text \<open>The catch-all rule \<open>*\<close> matches every path.\<close>

lemma codeowners_match_star: "codeowners_match ''*'' path"
proof (cases "CHR ''/'' \<in> set path")
  case True
  then have "glob (''**/'' @ ''*/**'') path"
    by (intro glob_any_depth glob_star_slash)
  then show ?thesis
    by (simp add: codeowners_match_def)
next
  case False
  then have "glob (''**/'' @ ''*'') path"
    by (intro glob_any_depth) (simp add: glob_star)
  then show ?thesis
    by (simp add: codeowners_match_def)
qed

lemma codeowners_owners_nonempty: "\<forall>r \<in> set codeowners. co_owners r \<noteq> []"
  by (simp add: codeowners_def)

lemma owners_of_last:
  assumes "filter (\<lambda>r. codeowners_match (co_pattern r) path) codeowners = ms" and "ms \<noteq> []"
  shows "owners_of path = co_owners (last ms)"
  using assms by (cases ms) (simp_all add: owners_of_def)

section \<open>Properties of the ownership\<close>

text \<open>
  C28. Every path of the repository has owners: the catch-all rule \<open>*\<close> on
  line 9 matches every path, and every rule names at least one owner, so
  whichever rule matches last, its owners are not empty.
\<close>

theorem every_path_has_owners: "owners_of path \<noteq> []"
proof -
  let ?ms = "filter (\<lambda>r. codeowners_match (co_pattern r) path) codeowners"
  have "?ms \<noteq> []"
    using codeowners_match_star [of path] by (simp add: codeowners_def)
  moreover have "last ?ms \<in> set codeowners"
    using calculation last_in_set by fastforce
  ultimately show ?thesis
    using owners_of_last [OF refl] codeowners_owners_nonempty by metis
qed

text \<open>
  C29. The rule for \<open>/sdk/storage/\<close> (line 25) overrides the catch-all and
  \<open>/sdk/\<close> rules above it: every path under \<open>sdk/storage/\<close> that is not a CI
  definition (\<open>ci.yml\<close>, \<open>tests.yml\<close>, matched by the last two rules) is owned
  by the storage team exactly.
\<close>

theorem storage_paths_owned_by_storage:
  assumes "\<not> codeowners_match ''/**/ci.yml'' (''sdk/storage/'' @ rest)"
    and "\<not> codeowners_match ''/**/tests.yml'' (''sdk/storage/'' @ rest)"
  shows "owners_of (''sdk/storage/'' @ rest) =
           [''@vinjiang'', ''@katmsft'', ''@JinmingHu-MSFT'', ''@antkmsft'', ''@rickwinter'', ''@vhvb1989'']"
proof -
  let ?path = "''sdk/storage/'' @ rest"
  have "filter (\<lambda>r. codeowners_match (co_pattern r) ?path) codeowners =
          [codeowners ! 0, codeowners ! 1, codeowners ! 6]"
    using assms codeowners_match_star [of ?path]
    by (simp add: codeowners_def) (simp add: codeowners_match_def)
  then show ?thesis
    by (simp add: owners_of_last codeowners_def)
qed

theorem storage_paths_owned_by_storage_witness:
  "\<not> codeowners_match ''/**/ci.yml'' (''sdk/storage/'' @ ''src/shares/share_file_client.cpp'') \<and>
   \<not> codeowners_match ''/**/tests.yml'' (''sdk/storage/'' @ ''src/shares/share_file_client.cpp'') \<and>
   owners_of (''sdk/storage/'' @ ''src/shares/share_file_client.cpp'') =
     [''@vinjiang'', ''@katmsft'', ''@JinmingHu-MSFT'', ''@antkmsft'', ''@rickwinter'', ''@vhvb1989'']"
proof -
  have ci: "\<not> codeowners_match ''/**/ci.yml'' (''sdk/storage/'' @ ''src/shares/share_file_client.cpp'')"
    by code_simp
  have tests: "\<not> codeowners_match ''/**/tests.yml'' (''sdk/storage/'' @ ''src/shares/share_file_client.cpp'')"
    by code_simp
  show ?thesis
    using storage_paths_owned_by_storage [OF ci tests] ci tests by simp
qed

text \<open>
  C30. CI definitions anywhere in the tree, also under a component's directory
  such as \<open>sdk/storage/\<close>, are owned by the engineering-system team and not by
  the component's owners: the rules \<open>/**/ci.yml\<close> and \<open>/**/tests.yml\<close> come last
  and name the same owners.
\<close>

theorem ci_files_owned_by_engsys:
  "owners_of (dir @ ''/ci.yml'') = [''@danieljurek'', ''@azure/azure-sdk-eng''] \<and>
   owners_of (dir @ ''/tests.yml'') = [''@danieljurek'', ''@azure/azure-sdk-eng'']"
proof -
  have seg: "glob (''**/'' @ name) (dir @ CHR ''/'' # name)" if "CHR ''*'' \<notin> set name" for name
  proof -
    have lit: "glob name name"
      using that by (induction name) auto
    show ?thesis
      by (subst glob.simps)
         (use lit in \<open>auto intro!: exI [of _ "length dir"] simp: nth_append\<close>)
  qed
  have last_two: "owners_of path = [''@danieljurek'', ''@azure/azure-sdk-eng'']"
    if "codeowners_match ''/**/ci.yml'' path \<or> codeowners_match ''/**/tests.yml'' path" for path
  proof -
    let ?ms = "filter (\<lambda>r. codeowners_match (co_pattern r) path) codeowners"
    have split: "codeowners = take 9 codeowners @ [codeowners ! 9, codeowners ! 10]"
      by (simp add: codeowners_def)
    have "?ms = filter (\<lambda>r. codeowners_match (co_pattern r) path) (take 9 codeowners) @
                filter (\<lambda>r. codeowners_match (co_pattern r) path) [codeowners ! 9, codeowners ! 10]"
      by (subst split) simp
    moreover have "filter (\<lambda>r. codeowners_match (co_pattern r) path) [codeowners ! 9, codeowners ! 10] \<noteq> []"
      using that by (auto simp: codeowners_def)
    moreover have "\<forall>r \<in> set [codeowners ! 9, codeowners ! 10].
                     co_owners r = [''@danieljurek'', ''@azure/azure-sdk-eng'']"
      by (simp add: codeowners_def)
    ultimately show ?thesis
      using owners_of_last [OF refl] by (auto simp: last_append dest!: last_in_set)
  qed
  have "codeowners_match ''/**/ci.yml'' (dir @ ''/ci.yml'')"
    using seg [of "''ci.yml''"] by (simp add: codeowners_match_def)
  moreover have "codeowners_match ''/**/tests.yml'' (dir @ ''/tests.yml'')"
    using seg [of "''tests.yml''"] by (simp add: codeowners_match_def)
  ultimately show ?thesis
    using last_two by blast
qed

end
