(* ===== verification/Share_File_Lease.thy ===== *)
theory Share_File_Lease
  imports Share_File_Upload
begin

text \<open>
  The remaining operations of \<open>FileClient\<close> (share_file_client.cpp):
  \<open>Delete\<close> (lines 202--208), \<open>StartCopy\<close> (269--298), \<open>AbortCopy\<close> (300--309),
  \<open>GetProperties\<close> (311--318), \<open>SetProperties\<close> (320--381), \<open>SetMetadata\<close>
  (383--392), \<open>ListHandlesSegmented\<close> (495--509), \<open>ForceCloseHandles\<close>
  (511--520) and the lease operations \<open>AcquireLease\<close>, \<open>ChangeLease\<close>,
  \<open>ReleaseLease\<close>, \<open>BreakLease\<close> (522--561). Each builds the protocol-layer
  request of one REST operation from its arguments and options; the requests
  form one datatype. The file service's answer to them, in particular its
  lease (a file lease is infinite and guards every write), is the documented
  behaviour of the Azure Files REST API: it is not part of the repository and
  the specification does not describe it.
\<close>

section \<open>Protocol-layer requests\<close>

record StartCopyRequest =
  sc_Metadata :: "(string \<times> string) list"
  sc_CopySource :: string
  sc_FileCopyFileAttributes :: string
  sc_FileCopyFileCreationTime :: "string option"
  sc_FileCopyFileLastWriteTime :: "string option"
  sc_FilePermission :: "string option"
  sc_FilePermissionKey :: "string option"
  sc_XMsFilePermissionCopyMode :: "string option"
  sc_FileCopyIgnoreReadOnly :: "bool option"
  sc_FileCopySetArchiveAttribute :: "bool option"
  sc_LeaseIdOptional :: "string option"

record SetHttpHeadersRequest =
  sh_FileAttributes :: string
  sh_FileCreationTime :: string
  sh_FileLastWriteTime :: string
  sh_XMsContentLength :: "int option"
  sh_LeaseIdOptional :: "string option"
  sh_FilePermission :: "string option"
  sh_FilePermissionKey :: "string option"
  sh_FileContentType :: "string option"
  sh_FileContentEncoding :: "string option"
  sh_FileContentLanguage :: "string option"
  sh_FileCacheControl :: "string option"
  sh_FileContentDisposition :: "string option"

datatype FileRequest =
    DeleteFile "string option"
  | StartCopyFile StartCopyRequest
  | AbortCopyFile string "string option"
  | GetFileProperties "string option"
  | SetFileHttpHeaders SetHttpHeadersRequest
  | SetFileMetadata "(string \<times> string) list" "string option"
  | ListFileHandles "string option" "int option"
  | ForceCloseFileHandles string "string option"
  | AcquireFileLease string int
  | ChangeFileLease string string
  | ReleaseFileLease string
  | BreakFileLease

text \<open>\<open>StartCopyFileOptions\<close>: the options \<open>StartCopy\<close> reads.\<close>

record StartCopyFileOptions =
  sco_Metadata :: "(string \<times> string) list"
  sco_SmbProperties :: SmbProperties
  sco_FilePermission :: "string option"
  sco_FilePermissionCopyMode :: "string option"
  sco_IgnoreReadOnly :: "bool option"
  sco_SetArchiveAttribute :: "bool option"
  sco_LeaseId :: "string option"

definition c_FilePreserveSmbProperties :: string where
  "c_FilePreserveSmbProperties = ''preserve''"

section \<open>The request builders of FileClient\<close>

text \<open>Lines 202--208; the lease is the options' access condition.\<close>

definition Delete_request :: "string option \<Rightarrow> FileRequest" where
  "Delete_request leaseId = DeleteFile leaseId"

text \<open>Lines 269--298.\<close>

definition StartCopy_request :: "string \<Rightarrow> StartCopyFileOptions \<Rightarrow> FileRequest" where
  "StartCopy_request copySource options =
     (let smb = sco_SmbProperties options
      in StartCopyFile
           \<lparr>sc_Metadata = sco_Metadata options, sc_CopySource = copySource,
            sc_FileCopyFileAttributes = smb_Attributes smb,
            sc_FileCopyFileCreationTime = smb_FileCreationTime smb,
            sc_FileCopyFileLastWriteTime = smb_FileLastWriteTime smb,
            sc_FilePermission = (case sco_FilePermission options of
                                   Some p \<Rightarrow> Some p
                                 | None \<Rightarrow> (case smb_FilePermissionKey smb of
                                              Some _ \<Rightarrow> None
                                            | None \<Rightarrow> Some c_FileInheritPermission)),
            sc_FilePermissionKey = (case sco_FilePermission options of
                                      Some _ \<Rightarrow> None
                                    | None \<Rightarrow> smb_FilePermissionKey smb),
            sc_XMsFilePermissionCopyMode = sco_FilePermissionCopyMode options,
            sc_FileCopyIgnoreReadOnly = sco_IgnoreReadOnly options,
            sc_FileCopySetArchiveAttribute = sco_SetArchiveAttribute options,
            sc_LeaseIdOptional = sco_LeaseId options\<rparr>)"

text \<open>Lines 300--309.\<close>

definition AbortCopy_request :: "string \<Rightarrow> string option \<Rightarrow> FileRequest" where
  "AbortCopy_request copyId leaseId = AbortCopyFile copyId leaseId"

text \<open>Lines 311--318.\<close>

definition GetProperties_request :: "string option \<Rightarrow> FileRequest" where
  "GetProperties_request leaseId = GetFileProperties leaseId"

text \<open>Lines 320--381: the SMB times the caller leaves unset are preserved; the
  attributes are sent as given.\<close>

definition SetProperties_request ::
  "FileHttpHeaders \<Rightarrow> SmbProperties \<Rightarrow> int option \<Rightarrow> string option \<Rightarrow> string option \<Rightarrow> FileRequest" where
  "SetProperties_request httpHeaders smbProperties newSize filePermission leaseId =
     SetFileHttpHeaders
       \<lparr>sh_FileAttributes = smb_Attributes smbProperties,
        sh_FileCreationTime = value_or (smb_FileCreationTime smbProperties) c_FilePreserveSmbProperties,
        sh_FileLastWriteTime = value_or (smb_FileLastWriteTime smbProperties) c_FilePreserveSmbProperties,
        sh_XMsContentLength = newSize,
        sh_LeaseIdOptional = leaseId,
        sh_FilePermission = (case filePermission of
                               Some p \<Rightarrow> Some p
                             | None \<Rightarrow> (case smb_FilePermissionKey smbProperties of
                                          Some _ \<Rightarrow> None
                                        | None \<Rightarrow> Some c_FileInheritPermission)),
        sh_FilePermissionKey = (case filePermission of
                                  Some _ \<Rightarrow> None
                                | None \<Rightarrow> smb_FilePermissionKey smbProperties),
        sh_FileContentType = nonempty_opt (hh_ContentType httpHeaders),
        sh_FileContentEncoding = nonempty_opt (hh_ContentEncoding httpHeaders),
        sh_FileContentLanguage = nonempty_opt (hh_ContentLanguage httpHeaders),
        sh_FileCacheControl = nonempty_opt (hh_CacheControl httpHeaders),
        sh_FileContentDisposition = nonempty_opt (hh_ContentDisposition httpHeaders)\<rparr>"

text \<open>Lines 383--392.\<close>

definition SetMetadata_request :: "(string \<times> string) list \<Rightarrow> string option \<Rightarrow> FileRequest" where
  "SetMetadata_request metadata leaseId = SetFileMetadata metadata leaseId"

text \<open>Lines 495--509 (the result is passed on field by field) and 511--520.\<close>

definition ListHandlesSegmented_request :: "string option \<Rightarrow> int option \<Rightarrow> FileRequest" where
  "ListHandlesSegmented_request marker maxResults = ListFileHandles marker maxResults"

definition ForceCloseHandles_request :: "string \<Rightarrow> string option \<Rightarrow> FileRequest" where
  "ForceCloseHandles_request handleId marker = ForceCloseFileHandles handleId marker"

text \<open>Lines 522--561: a lease is always requested for ever (\<open>LeaseDuration = -1\<close>).\<close>

definition AcquireLease_request :: "string \<Rightarrow> FileRequest" where
  "AcquireLease_request proposedLeaseId = AcquireFileLease proposedLeaseId (-1)"

definition ChangeLease_request :: "string \<Rightarrow> string \<Rightarrow> FileRequest" where
  "ChangeLease_request leaseId proposedLeaseId = ChangeFileLease leaseId proposedLeaseId"

definition ReleaseLease_request :: "string \<Rightarrow> FileRequest" where
  "ReleaseLease_request leaseId = ReleaseFileLease leaseId"

definition BreakLease_request :: FileRequest where
  "BreakLease_request = BreakFileLease"

section \<open>The file service and its lease\<close>

text \<open>A file lease is infinite: it is available, held under an id, or broken
  (after which it can be acquired again).\<close>

datatype LeaseState = LeaseAvailable | LeaseLeased string | LeaseBroken

record FileOnService =
  fs_exists :: bool
  fs_file :: ShareFile
  fs_metadata :: "(string \<times> string) list"
  fs_lease :: LeaseState

text \<open>A write names the lease exactly when the file is leased, and then its id;
  a read may name the lease, and then must name the active one.\<close>

definition write_allowed :: "LeaseState \<Rightarrow> string option \<Rightarrow> bool" where
  "write_allowed ls leaseId = (case ls of LeaseLeased l \<Rightarrow> leaseId = Some l | _ \<Rightarrow> leaseId = None)"

definition read_allowed :: "LeaseState \<Rightarrow> string option \<Rightarrow> bool" where
  "read_allowed ls leaseId = (case leaseId of None \<Rightarrow> True | Some l \<Rightarrow> ls = LeaseLeased l)"

definition guarded_write :: "FileOnService \<Rightarrow> string option \<Rightarrow> FileOnService \<Rightarrow> FileOnService result" where
  "guarded_write st leaseId st' = (if write_allowed (fs_lease st) leaseId then Inr st' else Inl (ServiceFault 412))"

definition serve_file_request :: "FileOnService \<Rightarrow> FileRequest \<Rightarrow> FileOnService result" where
  "serve_file_request st req =
     (if \<not> fs_exists st then Inl (ServiceFault 404)
      else case req of
        DeleteFile lid \<Rightarrow> guarded_write st lid (st\<lparr>fs_exists := False, fs_lease := LeaseAvailable\<rparr>)
      | StartCopyFile r \<Rightarrow> guarded_write st (sc_LeaseIdOptional r) st
      | AbortCopyFile _ lid \<Rightarrow> guarded_write st lid st
      | GetFileProperties lid \<Rightarrow>
          if read_allowed (fs_lease st) lid then Inr st else Inl (ServiceFault 412)
      | SetFileHttpHeaders r \<Rightarrow>
          (case sh_XMsContentLength r of
             Some n \<Rightarrow>
               if n < 0 then Inl (ServiceFault 400)
               else guarded_write st (sh_LeaseIdOptional r)
                      (st\<lparr>fs_file := (fs_file st)\<lparr>sf_content :=
                         take (nat n) (sf_content (fs_file st)) @
                         replicate (nat n - length (sf_content (fs_file st))) 0\<rparr>\<rparr>)
           | None \<Rightarrow> guarded_write st (sh_LeaseIdOptional r) st)
      | SetFileMetadata md lid \<Rightarrow> guarded_write st lid (st\<lparr>fs_metadata := md\<rparr>)
      | ListFileHandles _ _ \<Rightarrow> Inr st
      | ForceCloseFileHandles _ _ \<Rightarrow> Inr st
      | AcquireFileLease p d \<Rightarrow>
          if d \<noteq> -1 then Inl (ServiceFault 400)
          else (case fs_lease st of
                  LeaseLeased l \<Rightarrow> if l = p then Inr st else Inl (ServiceFault 409)
                | _ \<Rightarrow> Inr (st\<lparr>fs_lease := LeaseLeased p\<rparr>))
      | ChangeFileLease l p \<Rightarrow>
          (case fs_lease st of
             LeaseLeased l' \<Rightarrow> if l' = l then Inr (st\<lparr>fs_lease := LeaseLeased p\<rparr>) else Inl (ServiceFault 409)
           | _ \<Rightarrow> Inl (ServiceFault 409))
      | ReleaseFileLease l \<Rightarrow>
          (case fs_lease st of
             LeaseLeased l' \<Rightarrow> if l' = l then Inr (st\<lparr>fs_lease := LeaseAvailable\<rparr>) else Inl (ServiceFault 409)
           | _ \<Rightarrow> Inl (ServiceFault 409))
      | BreakFileLease \<Rightarrow>
          (case fs_lease st of
             LeaseAvailable \<Rightarrow> Inl (ServiceFault 409)
           | _ \<Rightarrow> Inr (st\<lparr>fs_lease := LeaseBroken\<rparr>)))"

section \<open>Operations of a client\<close>

text \<open>The calls a program makes on a \<open>FileClient\<close>, with the arguments and
  options each reads; each is sent as the request its builder makes.\<close>

datatype FileOperation =
    OpDelete "string option"
  | OpStartCopy string StartCopyFileOptions
  | OpAbortCopy string "string option"
  | OpGetProperties "string option"
  | OpSetProperties FileHttpHeaders SmbProperties "int option" "string option" "string option"
  | OpSetMetadata "(string \<times> string) list" "string option"
  | OpListHandlesSegmented "string option" "int option"
  | OpForceCloseHandles string "string option"
  | OpAcquireLease string
  | OpChangeLease string string
  | OpReleaseLease string
  | OpBreakLease

fun operation_request :: "FileOperation \<Rightarrow> FileRequest" where
  "operation_request (OpDelete lid) = Delete_request lid"
| "operation_request (OpStartCopy src opts) = StartCopy_request src opts"
| "operation_request (OpAbortCopy cid lid) = AbortCopy_request cid lid"
| "operation_request (OpGetProperties lid) = GetProperties_request lid"
| "operation_request (OpSetProperties hh smb sz perm lid) = SetProperties_request hh smb sz perm lid"
| "operation_request (OpSetMetadata md lid) = SetMetadata_request md lid"
| "operation_request (OpListHandlesSegmented m n) = ListHandlesSegmented_request m n"
| "operation_request (OpForceCloseHandles h m) = ForceCloseHandles_request h m"
| "operation_request (OpAcquireLease p) = AcquireLease_request p"
| "operation_request (OpChangeLease l p) = ChangeLease_request l p"
| "operation_request (OpReleaseLease l) = ReleaseLease_request l"
| "operation_request OpBreakLease = BreakLease_request"

text \<open>Whether an operation names the lease id \<open>L\<close>, as its lease condition or as
  the lease it acquires, changes or releases.\<close>

fun names_lease :: "string \<Rightarrow> FileOperation \<Rightarrow> bool" where
  "names_lease L (OpDelete lid) = (lid = Some L)"
| "names_lease L (OpStartCopy _ opts) = (sco_LeaseId opts = Some L)"
| "names_lease L (OpAbortCopy _ lid) = (lid = Some L)"
| "names_lease L (OpGetProperties lid) = (lid = Some L)"
| "names_lease L (OpSetProperties _ _ _ _ lid) = (lid = Some L)"
| "names_lease L (OpSetMetadata _ lid) = (lid = Some L)"
| "names_lease L (OpListHandlesSegmented _ _) = False"
| "names_lease L (OpForceCloseHandles _ _) = False"
| "names_lease L (OpAcquireLease p) = (p = L)"
| "names_lease L (OpChangeLease l p) = (l = L \<or> p = L)"
| "names_lease L (OpReleaseLease l) = (l = L)"
| "names_lease L OpBreakLease = False"

text \<open>Operations one after the other; the first failure ends the run.\<close>

fun run_operations :: "FileOnService \<Rightarrow> FileOperation list \<Rightarrow> FileOnService result" where
  "run_operations st [] = Inr st"
| "run_operations st (op # ops) =
     bind_result (serve_file_request st (operation_request op)) (\<lambda>st'. run_operations st' ops)"

section \<open>Example values\<close>

abbreviation example_service_file :: "LeaseState \<Rightarrow> FileOnService" where
  "example_service_file ls \<equiv>
     \<lparr>fs_exists = True,
      fs_file = \<lparr>sf_content = [1, 2, 3], sf_ETag = ''0x8D1'', sf_LastModified = ''Mon'',
                 sf_ServerEncrypted = False\<rparr>,
      fs_metadata = [], fs_lease = ls\<rparr>"

abbreviation default_smb :: SmbProperties where
  "default_smb \<equiv>
     \<lparr>smb_Attributes = [], smb_FileCreationTime = None, smb_FileLastWriteTime = None,
      smb_FilePermissionKey = None\<rparr>"

abbreviation empty_headers :: FileHttpHeaders where
  "empty_headers \<equiv>
     \<lparr>hh_ContentType = [], hh_ContentEncoding = [], hh_ContentLanguage = [], hh_CacheControl = [],
      hh_ContentDisposition = []\<rparr>"

abbreviation keyed_create_options :: CreateFileOptions where
  "keyed_create_options \<equiv>
     \<lparr>cfo_Metadata = [], cfo_SmbProperties = default_smb\<lparr>smb_FilePermissionKey := Some ''key-1''\<rparr>,
      cfo_FilePermission = None, cfo_HttpHeaders = empty_headers, cfo_FileContentMD5 = None,
      cfo_LeaseId = None\<rparr>"

abbreviation keyed_copy_options :: StartCopyFileOptions where
  "keyed_copy_options \<equiv>
     \<lparr>sco_Metadata = [], sco_SmbProperties = default_smb\<lparr>smb_FilePermissionKey := Some ''key-1''\<rparr>,
      sco_FilePermission = None, sco_FilePermissionCopyMode = None, sco_IgnoreReadOnly = None,
      sco_SetArchiveAttribute = None, sco_LeaseId = None\<rparr>"

section \<open>Lemmas\<close>

lemmas request_builder_defs =
  Delete_request_def StartCopy_request_def AbortCopy_request_def GetProperties_request_def
  SetProperties_request_def SetMetadata_request_def ListHandlesSegmented_request_def
  ForceCloseHandles_request_def AcquireLease_request_def ChangeLease_request_def
  ReleaseLease_request_def BreakLease_request_def

lemmas service_defs =
  serve_file_request_def guarded_write_def write_allowed_def read_allowed_def

text \<open>While the file is leased under \<open>L\<close>, an operation that does not name \<open>L\<close>
  and does not break the lease either fails or changes nothing.\<close>

lemma other_operation_unchanged:
  assumes "fs_lease st = LeaseLeased L" and "\<not> names_lease L op" and "op \<noteq> OpBreakLease"
    and "serve_file_request st (operation_request op) = Inr st'"
  shows "st' = st"
  using assms
  by (cases op) (auto simp: request_builder_defs service_defs Let_def split: if_splits option.splits)

section \<open>Properties of the lease and the requests\<close>



text \<open>
  C32. The lease holder's cycle: on an existing file whose lease is available
  or broken, \<open>AcquireLease(p)\<close>, \<open>SetMetadata\<close> under lease \<open>p\<close> and
  \<open>ReleaseLease(p)\<close> succeed, leaving the new metadata and the lease available;
  once the lease is acquired, the same write without the lease id fails with
  412.
\<close>

theorem lease_holder_cycle:
  assumes "fs_exists st" and "fs_lease st = LeaseAvailable \<or> fs_lease st = LeaseBroken"
  shows "run_operations st [OpAcquireLease p, OpSetMetadata md (Some p), OpReleaseLease p] =
           Inr (st\<lparr>fs_metadata := md, fs_lease := LeaseAvailable\<rparr>) \<and>
         run_operations st [OpAcquireLease p, OpSetMetadata md None] = Inl (ServiceFault 412)"
proof -
  let ?st1 = "st\<lparr>fs_lease := LeaseLeased p\<rparr>"
  have a: "serve_file_request st (operation_request (OpAcquireLease p)) = Inr ?st1"
    using assms by (auto simp: request_builder_defs service_defs)
  have b: "serve_file_request ?st1 (operation_request (OpSetMetadata md (Some p))) =
             Inr (?st1\<lparr>fs_metadata := md\<rparr>)"
    using assms(1) by (simp add: request_builder_defs service_defs)
  have c: "serve_file_request (?st1\<lparr>fs_metadata := md\<rparr>) (operation_request (OpReleaseLease p)) =
             Inr (st\<lparr>fs_metadata := md, fs_lease := LeaseAvailable\<rparr>)"
    using assms(1) by (simp add: request_builder_defs service_defs)
  have d: "serve_file_request ?st1 (operation_request (OpSetMetadata md None)) = Inl (ServiceFault 412)"
    using assms(1) by (simp add: request_builder_defs service_defs)
  show ?thesis
    by (simp del: operation_request.simps add: a b c d)
qed

theorem lease_holder_cycle_witness:
  "fs_exists (example_service_file LeaseBroken) \<and>
   (fs_lease (example_service_file LeaseBroken) = LeaseAvailable \<or>
    fs_lease (example_service_file LeaseBroken) = LeaseBroken) \<and>
   run_operations (example_service_file LeaseBroken)
     [OpAcquireLease ''lease-A'', OpSetMetadata [(''owner'', ''alice'')] (Some ''lease-A''),
      OpReleaseLease ''lease-A''] =
     Inr ((example_service_file LeaseBroken)\<lparr>fs_metadata := [(''owner'', ''alice'')],
                                              fs_lease := LeaseAvailable\<rparr>) \<and>
   run_operations (example_service_file LeaseBroken)
     [OpAcquireLease ''lease-A'', OpSetMetadata [(''owner'', ''alice'')] None] = Inl (ServiceFault 412)"
  using lease_holder_cycle [of "example_service_file LeaseBroken" "''lease-A''" "[(''owner'', ''alice'')]"]
  by simp

text \<open>
  C33. With the default SMB properties (no attributes, no times),
  \<open>SetProperties\<close> sends an empty attributes value and asks to preserve both
  times, while \<open>Create\<close> substitutes \<open>None\<close> for the attributes and \<open>now\<close> for
  the times.
\<close>

theorem default_smb_set_properties_vs_create:
  assumes "smb_Attributes smb = []" and "smb_FileCreationTime smb = None"
    and "smb_FileLastWriteTime smb = None" and "cfo_SmbProperties copts = smb"
  shows "(case SetProperties_request hh smb sz perm lid of
            SetFileHttpHeaders r \<Rightarrow>
              sh_FileAttributes r = [] \<and> sh_FileCreationTime r = ''preserve'' \<and>
              sh_FileLastWriteTime r = ''preserve''
          | _ \<Rightarrow> False) \<and>
         cr_FileAttributes (Create_request n copts) = ''None'' \<and>
         cr_FileCreationTime (Create_request n copts) = ''now'' \<and>
         cr_FileLastWriteTime (Create_request n copts) = ''now''"
  using assms
  by (simp add: SetProperties_request_def c_FilePreserveSmbProperties_def Create_request_def
                smb_create_request_def c_FileAttributesNone_def c_FileDefaultTimeValue_def)

theorem default_smb_set_properties_vs_create_witness:
  "smb_Attributes default_smb = [] \<and> smb_FileCreationTime default_smb = None \<and>
   smb_FileLastWriteTime default_smb = None \<and>
   cfo_SmbProperties (keyed_create_options\<lparr>cfo_SmbProperties := default_smb\<rparr>) = default_smb \<and>
   (case SetProperties_request empty_headers default_smb None None None of
      SetFileHttpHeaders r \<Rightarrow>
        sh_FileAttributes r = [] \<and> sh_FileCreationTime r = ''preserve'' \<and>
        sh_FileLastWriteTime r = ''preserve''
    | _ \<Rightarrow> False) \<and>
   cr_FileAttributes (Create_request 1024 (keyed_create_options\<lparr>cfo_SmbProperties := default_smb\<rparr>)) = ''None''"
  using default_smb_set_properties_vs_create
          [of default_smb "keyed_create_options\<lparr>cfo_SmbProperties := default_smb\<rparr>" empty_headers None None None
              1024]
  by simp

text \<open>
  C34. \<open>Create\<close>, \<open>StartCopy\<close> and \<open>SetProperties\<close> resolve the file permission
  the same way: given the same SMB properties and permission, they send the
  same permission and permission key (the explicit permission first, then the
  key, else \<open>inherit\<close>).
\<close>

theorem permission_precedence_agrees:
  assumes "sco_SmbProperties opts = cfo_SmbProperties copts"
    and "sco_FilePermission opts = cfo_FilePermission copts"
  shows "(case StartCopy_request src opts of
            StartCopyFile r \<Rightarrow> (sc_FilePermission r, sc_FilePermissionKey r)
          | _ \<Rightarrow> (None, None)) =
           (cr_FilePermission (Create_request n copts), cr_FilePermissionKey (Create_request n copts)) \<and>
         (case SetProperties_request hh (cfo_SmbProperties copts) sz (cfo_FilePermission copts) lid of
            SetFileHttpHeaders r \<Rightarrow> (sh_FilePermission r, sh_FilePermissionKey r)
          | _ \<Rightarrow> (None, None)) =
           (cr_FilePermission (Create_request n copts), cr_FilePermissionKey (Create_request n copts))"
  using assms
  by (simp add: StartCopy_request_def SetProperties_request_def Create_request_def smb_create_request_def
                Let_def)

theorem permission_precedence_agrees_witness:
  "sco_SmbProperties keyed_copy_options = cfo_SmbProperties keyed_create_options \<and>
   sco_FilePermission keyed_copy_options = cfo_FilePermission keyed_create_options \<and>
   (case StartCopy_request ''https://a/src'' keyed_copy_options of
      StartCopyFile r \<Rightarrow> (sc_FilePermission r, sc_FilePermissionKey r)
    | _ \<Rightarrow> (None, None)) =
     (cr_FilePermission (Create_request 1024 keyed_create_options),
      cr_FilePermissionKey (Create_request 1024 keyed_create_options)) \<and>
   (cr_FilePermission (Create_request 1024 keyed_create_options),
    cr_FilePermissionKey (Create_request 1024 keyed_create_options)) = (None, Some ''key-1'')"
proof -
  have eq: "sco_SmbProperties keyed_copy_options = cfo_SmbProperties keyed_create_options"
           "sco_FilePermission keyed_copy_options = cfo_FilePermission keyed_create_options"
    by simp_all
  show ?thesis
    using permission_precedence_agrees [OF eq, of "''https://a/src''" 1024 empty_headers None None] eq
    by (simp add: Create_request_def smb_create_request_def)
qed

end
