(* ===== verification/DataLake_Directory.thy ===== *)
theory DataLake_Directory
  imports File_Client_Pipeline Std_String
begin

text \<open>
  \<open>DataLakeDirectoryClient\<close> (datalake_directory_client.cpp, held in the sources
  as src/sdk/storage/azure-storage-blobs/test/performance/CMakeLists.txt lines
  37--341): its three constructors and \<open>CreateFromConnectionString\<close>, the
  clients it derives (\<open>GetFileClient\<close>, \<open>GetSubdirectoryClient\<close>), the two
  renames, the two deletes and \<open>ListPathsSinglePage\<close>, each up to the REST call
  it makes. A directory client holds its DFS address (\<open>m_pathUrl\<close>), the
  address of its blob client (\<open>m_blobClient.m_blobUrl\<close>) and the pipeline. The
  REST calls themselves (\<open>Path::Create\<close>, \<open>DataLakePathClient::Delete\<close>) are
  parameters of the operations: a function from the request to a response
  or an error. Addresses keep their encoded path as a string, as azure-core's
  \<open>Url\<close> does, because the directory client reads it back (\<open>GetPath\<close>).
\<close>

section \<open>Addresses and path encoding\<close>

text \<open>\<open>Azure::Core::Url\<close>: what precedes the path (scheme, host, port) and the
  encoded path without its leading slash.\<close>

record EncodedUrl =
  eu_host :: string
  eu_path :: string

text \<open>\<open>Url::AppendPath\<close>: a slash is put between a non-empty path and the new
  part unless the path already ends with one.\<close>

definition AppendPath :: "EncodedUrl \<Rightarrow> string \<Rightarrow> EncodedUrl" where
  "AppendPath u p =
     (let q = eu_path u
      in u\<lparr>eu_path := (if q \<noteq> [] \<and> last q \<noteq> CHR ''/'' then q @ ''/'' else q) @ p\<rparr>)"

text \<open>\<open>Storage::Details::UrlEncodePath\<close>: every character a path may not hold
  as it is (RFC 3986: unreserved characters, sub-delimiters, \<open>:\<close>, \<open>@\<close> and the
  separator \<open>/\<close> stay) is written as \<open>%\<close> and two upper-case hex digits.\<close>

definition path_safe_char :: "char \<Rightarrow> bool" where
  "path_safe_char c =
     (c \<in> set (''ABCDEFGHIJKLMNOPQRSTUVWXYZabcdefghijklmnopqrstuvwxyz0123456789-._~'') \<or>
      c \<in> set (''!$&()*+,;=:@/'') \<or> c = CHR 0x27)"

definition hex_digit :: "nat \<Rightarrow> char" where
  "hex_digit n = ''0123456789ABCDEF'' ! n"

definition percent_encode :: "char \<Rightarrow> string" where
  "percent_encode c = (let n = of_char c :: nat in [CHR ''%'', hex_digit (n div 16), hex_digit (n mod 16)])"

definition UrlEncodePath :: "string \<Rightarrow> string" where
  "UrlEncodePath s = concat (map (\<lambda>c. if path_safe_char c then [c] else percent_encode c) s)"

text \<open>\<open>Details::GetSubstringTillDelimiter\<close> (datalake_utilities): the characters
  from the cursor up to the delimiter, and the cursor moved past it.\<close>

definition GetSubstringTillDelimiter :: "char \<Rightarrow> string \<Rightarrow> string \<times> string" where
  "GetSubstringTillDelimiter d s = (takeWhile (\<lambda>c. c \<noteq> d) s, drop 1 (dropWhile (\<lambda>c. c \<noteq> d) s))"

text \<open>\<open>GetDfsUrlFromUrl\<close> and \<open>GetBlobUrlFromUrl\<close> (datalake_utilities) replace the
  first \<open>.blob.\<close> by \<open>.dfs.\<close> and back.\<close>

primrec replace_first :: "string \<Rightarrow> string \<Rightarrow> string \<Rightarrow> string" where
  "replace_first pat rep [] = (if pat = [] then rep else [])"
| "replace_first pat rep (c # s) =
     (if take (length pat) (c # s) = pat then rep @ drop (length pat) (c # s)
      else c # replace_first pat rep s)"

definition GetDfsUrlFromUrl :: "string \<Rightarrow> string" where
  "GetDfsUrlFromUrl u = replace_first ''.blob.'' ''.dfs.'' u"

definition GetBlobUrlFromUrl :: "string \<Rightarrow> string" where
  "GetBlobUrlFromUrl u = replace_first ''.dfs.'' ''.blob.'' u"

section \<open>Clients and options\<close>

record DataLakeClientOptions =
  dlo_PerOperationPolicies :: "HttpPolicy list"
  dlo_PerRetryPolicies :: "HttpPolicy list"
  dlo_RetryOptions :: StorageRetryWithSecondaryOptions

text \<open>A directory client: \<open>m_pathUrl\<close>, the address of \<open>m_blobClient\<close> and
  \<open>m_pipeline\<close>; a file client also holds its block blob client's address.\<close>

record DataLakeDirectoryClient =
  ddc_pathUrl :: EncodedUrl
  ddc_blobUrl :: EncodedUrl
  ddc_pipeline :: "HttpPolicy list"

record DataLakeFileClient =
  dfc_pathUrl :: EncodedUrl
  dfc_blobUrl :: EncodedUrl
  dfc_blockBlobUrl :: EncodedUrl
  dfc_pipeline :: "HttpPolicy list"

text \<open>The base \<open>DataLakePathClient(url, ...)\<close> (outside the sources) keeps the
  address and gives its blob client the blob endpoint of it.\<close>

definition blob_url_of :: "EncodedUrl \<Rightarrow> EncodedUrl" where
  "blob_url_of u = u\<lparr>eu_host := GetBlobUrlFromUrl (eu_host u)\<rparr>"

text \<open>The telemetry policy carries \<open>DatalakeServicePackageName\<close> and the string of
  \<open>Details::Version::VersionString()\<close>, a constant of the package outside the
  sources; it is named here by that call, and no lemma depends on its value.\<close>

definition DatalakeServicePackageName :: string where
  "DatalakeServicePackageName = ''storage-files-datalake''"

definition DataLakeVersionString :: string where
  "DataLakeVersionString = ''Details::Version::VersionString()''"

section \<open>The constructors\<close>

text \<open>Lines 92--94 (and 122--124, 158--160): the caller's retry options with the
  secondary host turned into its DFS endpoint.\<close>

definition dfs_retry_options :: "DataLakeClientOptions \<Rightarrow> StorageRetryWithSecondaryOptions" where
  "dfs_retry_options options =
     (let r = dlo_RetryOptions options
      in r\<lparr>sro_SecondaryHostForRetryReads := GetDfsUrlFromUrl (sro_SecondaryHostForRetryReads r)\<rparr>)"

text \<open>The policies of lines 84--104, 114--141 and 150--168 around the
  authentication policies \<open>auth\<close>.\<close>

definition datalake_pipeline :: "DataLakeClientOptions \<Rightarrow> HttpPolicy list \<Rightarrow> HttpPolicy list" where
  "datalake_pipeline options auth =
     [TelemetryPolicy DatalakeServicePackageName DataLakeVersionString, RequestIdPolicy] @
     dlo_PerOperationPolicies options @ [StorageRetryPolicy (dfs_retry_options options)] @
     dlo_PerRetryPolicies options @ [StoragePerRetryPolicy] @ auth @ [TransportPolicy]"

text \<open>Lines 78--106: with a shared key.\<close>

definition DataLakeDirectoryClient_shared_key ::
  "EncodedUrl \<Rightarrow> string \<Rightarrow> DataLakeClientOptions \<Rightarrow> DataLakeDirectoryClient" where
  "DataLakeDirectoryClient_shared_key directoryUrl credential options =
     \<lparr>ddc_pathUrl = directoryUrl, ddc_blobUrl = blob_url_of directoryUrl,
      ddc_pipeline = datalake_pipeline options [SharedKeyPolicy credential]\<rparr>"

text \<open>Lines 108--143: with a token credential for \<open>Storage::Details::StorageScope\<close>.\<close>

definition DataLakeDirectoryClient_token ::
  "EncodedUrl \<Rightarrow> string \<Rightarrow> DataLakeClientOptions \<Rightarrow> DataLakeDirectoryClient" where
  "DataLakeDirectoryClient_token directoryUrl credential options =
     \<lparr>ddc_pathUrl = directoryUrl, ddc_blobUrl = blob_url_of directoryUrl,
      ddc_pipeline = datalake_pipeline options
                       [BearerTokenAuthenticationPolicy credential ''https://storage.azure.com/.default'']\<rparr>"

text \<open>Lines 145--170: anonymous.\<close>

definition DataLakeDirectoryClient_anonymous ::
  "EncodedUrl \<Rightarrow> DataLakeClientOptions \<Rightarrow> DataLakeDirectoryClient" where
  "DataLakeDirectoryClient_anonymous directoryUrl options =
     \<lparr>ddc_pathUrl = directoryUrl, ddc_blobUrl = blob_url_of directoryUrl,
      ddc_pipeline = datalake_pipeline options []\<rparr>"

text \<open>\<open>ParseConnectionString\<close> (storage common) gives the DFS service address and
  the account key, if the string has one.\<close>

record ParsedDataLakeConnectionString =
  pdc_DataLakeServiceUrl :: EncodedUrl
  pdc_KeyCredential :: "string option"

text \<open>Lines 56--76.\<close>

definition DataLakeDirectoryClient_CreateFromConnectionString ::
  "ParsedDataLakeConnectionString \<Rightarrow> string \<Rightarrow> string \<Rightarrow> DataLakeClientOptions \<Rightarrow> DataLakeDirectoryClient" where
  "DataLakeDirectoryClient_CreateFromConnectionString parsed fileSystemName directoryName options =
     (let directoryUrl = AppendPath (AppendPath (pdc_DataLakeServiceUrl parsed) (UrlEncodePath fileSystemName))
                                    (UrlEncodePath directoryName)
      in case pdc_KeyCredential parsed of
           Some key \<Rightarrow> DataLakeDirectoryClient_shared_key directoryUrl key options
         | None \<Rightarrow> DataLakeDirectoryClient_anonymous directoryUrl options)"

section \<open>Derived clients\<close>

text \<open>Lines 172--181: the file's name is appended to both addresses; the block
  blob client is the blob client's, and the pipeline is shared.\<close>

definition GetFileClient :: "DataLakeDirectoryClient \<Rightarrow> string \<Rightarrow> DataLakeFileClient" where
  "GetFileClient c fileName =
     (let builder = AppendPath (ddc_pathUrl c) (UrlEncodePath fileName);
          blobUrl = AppendPath (ddc_blobUrl c) (UrlEncodePath fileName)
      in \<lparr>dfc_pathUrl = builder, dfc_blobUrl = blobUrl, dfc_blockBlobUrl = blobUrl,
          dfc_pipeline = ddc_pipeline c\<rparr>)"

text \<open>Lines 183--191.\<close>

definition GetSubdirectoryClient :: "DataLakeDirectoryClient \<Rightarrow> string \<Rightarrow> DataLakeDirectoryClient" where
  "GetSubdirectoryClient c subdirectoryName =
     \<lparr>ddc_pathUrl = AppendPath (ddc_pathUrl c) (UrlEncodePath subdirectoryName),
      ddc_blobUrl = AppendPath (ddc_blobUrl c) (UrlEncodePath subdirectoryName),
      ddc_pipeline = ddc_pipeline c\<rparr>"

section \<open>Renames\<close>

text \<open>The access conditions of a path and the options of both renames
  (\<open>RenameDataLakeFileOptions\<close>, \<open>RenameDataLakeSubdirectoryOptions\<close> have the
  same fields).\<close>

record PathAccessConditions =
  pac_LeaseId :: "string option"
  pac_IfMatch :: "string option"
  pac_IfNoneMatch :: "string option"
  pac_IfModifiedSince :: "string option"
  pac_IfUnmodifiedSince :: "string option"

record RenameOptions =
  rn_DestinationFileSystem :: "string option"
  rn_AccessConditions :: PathAccessConditions
  rn_SourceAccessConditions :: PathAccessConditions

datatype PathRenameMode = Legacy | Posix

text \<open>\<open>DataLakeRestClient::Path::CreateOptions\<close>, the fields a rename sets.\<close>

record PathRenameRequest =
  pr_Mode :: PathRenameMode
  pr_SourceLeaseId :: "string option"
  pr_LeaseIdOptional :: "string option"
  pr_IfMatch :: "string option"
  pr_IfNoneMatch :: "string option"
  pr_IfModifiedSince :: "string option"
  pr_IfUnmodifiedSince :: "string option"
  pr_SourceIfMatch :: "string option"
  pr_SourceIfNoneMatch :: "string option"
  pr_SourceIfModifiedSince :: "string option"
  pr_SourceIfUnmodifiedSince :: "string option"
  pr_RenameSource :: string

text \<open>Lines 199--209 (and 247--257): the destination file system defaults to the
  first segment of the directory's path; the destination address is that
  file system, a slash and the encoded destination path.\<close>

definition rename_destination :: "DataLakeDirectoryClient \<Rightarrow> string option \<Rightarrow> string \<Rightarrow> EncodedUrl" where
  "rename_destination c destinationFileSystem destinationPath =
     (let fs = (case destinationFileSystem of
                  Some f \<Rightarrow> if f = [] then fst (GetSubstringTillDelimiter (CHR ''/'') (eu_path (ddc_pathUrl c)))
                            else f
                | None \<Rightarrow> fst (GetSubstringTillDelimiter (CHR ''/'') (eu_path (ddc_pathUrl c))))
      in (ddc_pathUrl c)\<lparr>eu_path := fs @ ''/'' @ UrlEncodePath destinationPath\<rparr>)"

text \<open>Lines 211--224 (and 259--272): the request, whose source is a slash, the
  directory's path and the encoded name.\<close>

definition rename_request :: "DataLakeDirectoryClient \<Rightarrow> string \<Rightarrow> RenameOptions \<Rightarrow> PathRenameRequest" where
  "rename_request c name options =
     (let ac = rn_AccessConditions options; sac = rn_SourceAccessConditions options
      in \<lparr>pr_Mode = Legacy, pr_SourceLeaseId = pac_LeaseId sac, pr_LeaseIdOptional = pac_LeaseId ac,
          pr_IfMatch = pac_IfMatch ac, pr_IfNoneMatch = pac_IfNoneMatch ac,
          pr_IfModifiedSince = pac_IfModifiedSince ac, pr_IfUnmodifiedSince = pac_IfUnmodifiedSince ac,
          pr_SourceIfMatch = pac_IfMatch sac, pr_SourceIfNoneMatch = pac_IfNoneMatch sac,
          pr_SourceIfModifiedSince = pac_IfModifiedSince sac,
          pr_SourceIfUnmodifiedSince = pac_IfUnmodifiedSince sac,
          pr_RenameSource = ''/'' @ eu_path (ddc_pathUrl c) @ UrlEncodePath name\<rparr>)"

text \<open>Lines 193--239: \<open>Path::Create\<close> (the parameter \<open>create\<close>) is sent to the
  destination; when it returns, the client of the renamed file has the
  destination address, its blob client the same path, and the pipeline.\<close>

definition RenameFile ::
  "(EncodedUrl \<Rightarrow> PathRenameRequest \<Rightarrow> 'r result) \<Rightarrow> DataLakeDirectoryClient \<Rightarrow> string \<Rightarrow> string \<Rightarrow>
   RenameOptions \<Rightarrow> (DataLakeFileClient \<times> 'r) result" where
  "RenameFile create c fileName destinationFilePath options =
     (let dest = rename_destination c (rn_DestinationFileSystem options) destinationFilePath
      in bind_result (create dest (rename_request c fileName options))
           (\<lambda>raw. let blobUrl = (ddc_blobUrl c)\<lparr>eu_path := eu_path dest\<rparr>
                  in Inr (\<lparr>dfc_pathUrl = dest, dfc_blobUrl = blobUrl, dfc_blockBlobUrl = blobUrl,
                           dfc_pipeline = ddc_pipeline c\<rparr>, raw)))"

text \<open>Lines 241--283.\<close>

definition RenameSubdirectory ::
  "(EncodedUrl \<Rightarrow> PathRenameRequest \<Rightarrow> 'r result) \<Rightarrow> DataLakeDirectoryClient \<Rightarrow> string \<Rightarrow> string \<Rightarrow>
   RenameOptions \<Rightarrow> (DataLakeDirectoryClient \<times> 'r) result" where
  "RenameSubdirectory create c subdirectoryName destinationDirectoryPath options =
     (let dest = rename_destination c (rn_DestinationFileSystem options) destinationDirectoryPath
      in bind_result (create dest (rename_request c subdirectoryName options))
           (\<lambda>raw. Inr (\<lparr>ddc_pathUrl = dest, ddc_blobUrl = (ddc_blobUrl c)\<lparr>eu_path := eu_path dest\<rparr>,
                        ddc_pipeline = ddc_pipeline c\<rparr>, raw)))"

section \<open>Deletes\<close>

record DeletePathOptions =
  dpo_AccessConditions :: PathAccessConditions
  dpo_Recursive :: "bool option"

text \<open>Lines 285--294 and 296--306: the path client's \<open>Delete\<close> or
  \<open>DeleteIfExists\<close> (the parameter \<open>pathDelete\<close>) with the conditions and the
  recursion flag.\<close>

definition Delete :: "(DeletePathOptions \<Rightarrow> 'r result) \<Rightarrow> bool \<Rightarrow> PathAccessConditions \<Rightarrow> 'r result" where
  "Delete pathDelete recursive accessConditions =
     pathDelete \<lparr>dpo_AccessConditions = accessConditions, dpo_Recursive = Some recursive\<rparr>"

definition DeleteIfExists ::
  "(DeletePathOptions \<Rightarrow> 'r result) \<Rightarrow> bool \<Rightarrow> PathAccessConditions \<Rightarrow> 'r result" where
  "DeleteIfExists pathDeleteIfExists recursive accessConditions =
     pathDeleteIfExists \<lparr>dpo_AccessConditions = accessConditions, dpo_Recursive = Some recursive\<rparr>"

section \<open>Listing\<close>

record ListPathsSinglePageOptions =
  lpo_UserPrincipalName :: "bool option"
  lpo_ContinuationToken :: "string option"
  lpo_PageSizeHint :: "int option"

text \<open>\<open>DataLakeRestClient::FileSystem::ListPathsOptions\<close>; the resource is always
  the file system.\<close>

record ListPathsRequest =
  lp_Resource :: string
  lp_Upn :: "bool option"
  lp_ContinuationToken :: "string option"
  lp_MaxResults :: "int option"
  lp_RecursiveRequired :: bool
  lp_Directory :: "string option"

text \<open>Lines 308--339: the address and the request \<open>FileSystem::ListPaths\<close> is
  sent; positions are \<open>size_t\<close>, so \<open>size() + 1U\<close>, \<open>firstSlashPos + 1U\<close> and the
  lengths wrap around.\<close>

definition ListPathsSinglePage ::
  "DataLakeDirectoryClient \<Rightarrow> bool \<Rightarrow> ListPathsSinglePageOptions \<Rightarrow> (EncodedUrl \<times> ListPathsRequest) result" where
  "ListPathsSinglePage c recursive options =
     (let req = \<lparr>lp_Resource = ''filesystem'', lp_Upn = lpo_UserPrincipalName options,
                 lp_ContinuationToken = lpo_ContinuationToken options,
                 lp_MaxResults = lpo_PageSizeHint options, lp_RecursiveRequired = recursive,
                 lp_Directory = None\<rparr>;
          currentPath = eu_path (ddc_pathUrl c);
          size = (of_nat (length currentPath) :: size_t);
          firstSlashPos = str_find currentPath (CHR ''/'')
      in if firstSlashPos = 0 \<or> firstSlashPos = size + 1 then Inr (ddc_pathUrl c, req)
         else bind_result (substr currentPath (firstSlashPos + 1) (size - firstSlashPos - 1))
                (\<lambda>directory.
                   bind_result (substr currentPath 0 (size - of_nat (length directory) - 1))
                     (\<lambda>fileSystemPath. Inr ((ddc_pathUrl c)\<lparr>eu_path := fileSystemPath\<rparr>,
                                            req\<lparr>lp_Directory := Some directory\<rparr>))))"

section \<open>Clients derived from a client\<close>

text \<open>The addresses of a directory or file client agree when its blob client
  has the same path as its DFS address (the hosts differ: \<open>.dfs.\<close> and
  \<open>.blob.\<close>), and a file's block blob client is its blob client.\<close>

definition ddc_paths_agree :: "DataLakeDirectoryClient \<Rightarrow> bool" where
  "ddc_paths_agree c = (eu_path (ddc_blobUrl c) = eu_path (ddc_pathUrl c))"

definition dfc_paths_agree :: "DataLakeFileClient \<Rightarrow> bool" where
  "dfc_paths_agree f = (eu_path (dfc_blobUrl f) = eu_path (dfc_pathUrl f) \<and> dfc_blockBlobUrl f = dfc_blobUrl f)"

text \<open>The directory clients a program obtains from \<open>root\<close> by
  \<open>GetSubdirectoryClient\<close> and by successful renames against the service's
  \<open>Path::Create\<close> answer \<open>create\<close>.\<close>

inductive derived_directory ::
  "(EncodedUrl \<Rightarrow> PathRenameRequest \<Rightarrow> 'r result) \<Rightarrow> DataLakeDirectoryClient \<Rightarrow> DataLakeDirectoryClient \<Rightarrow> bool"
  for create root where
  root: "derived_directory create root root"
| subdirectory: "derived_directory create root c \<Longrightarrow> derived_directory create root (GetSubdirectoryClient c name)"
| renamed: "derived_directory create root c \<Longrightarrow> RenameSubdirectory create c name dest options = Inr (c', raw) \<Longrightarrow>
             derived_directory create root c'"

section \<open>Example values\<close>

abbreviation example_dfs_url :: EncodedUrl where
  "example_dfs_url \<equiv> \<lparr>eu_host = ''https://acct.dfs.core.windows.net'', eu_path = ''fs/dir''\<rparr>"

abbreviation example_datalake_options :: DataLakeClientOptions where
  "example_datalake_options \<equiv>
     \<lparr>dlo_PerOperationPolicies = [], dlo_PerRetryPolicies = [],
      dlo_RetryOptions = \<lparr>ro_MaxRetries = 2, ro_RetryDelay = 800, ro_MaxRetryDelay = 60000,
                          ro_StatusCodes = [503],
                          sro_SecondaryHostForRetryReads = ''https://acct-secondary.blob.core.windows.net''\<rparr>\<rparr>"

abbreviation example_directory :: DataLakeDirectoryClient where
  "example_directory \<equiv> DataLakeDirectoryClient_anonymous example_dfs_url example_datalake_options"

abbreviation no_conditions :: PathAccessConditions where
  "no_conditions \<equiv> \<lparr>pac_LeaseId = None, pac_IfMatch = None, pac_IfNoneMatch = None,
                     pac_IfModifiedSince = None, pac_IfUnmodifiedSince = None\<rparr>"

abbreviation default_rename_options :: RenameOptions where
  "default_rename_options \<equiv> \<lparr>rn_DestinationFileSystem = None, rn_AccessConditions = no_conditions,
                              rn_SourceAccessConditions = no_conditions\<rparr>"

abbreviation no_list_options :: ListPathsSinglePageOptions where
  "no_list_options \<equiv> \<lparr>lpo_UserPrincipalName = None, lpo_ContinuationToken = None, lpo_PageSizeHint = None\<rparr>"

abbreviation accepting_service :: "EncodedUrl \<Rightarrow> PathRenameRequest \<Rightarrow> unit result" where
  "accepting_service \<equiv> \<lambda>u r. Inr ()"

section \<open>Lemmas\<close>

lemma unat_size_t_nat: "n < 2 ^ 64 \<Longrightarrow> unat (of_nat n :: size_t) = n"
  by (simp add: unat_of_nat)

lemma size_t_of_nat_diff: "b \<le> a \<Longrightarrow> (of_nat a - of_nat b :: size_t) = of_nat (a - b)"
  by (simp add: of_nat_diff)

lemma size_t_of_nat_eq: "a < 2 ^ 64 \<Longrightarrow> b < 2 ^ 64 \<Longrightarrow> (of_nat a :: size_t) = of_nat b \<longleftrightarrow> a = b"
  by (metis unat_size_t_nat)

lemma str_find_first:
  "c \<notin> set xs \<Longrightarrow> str_find (xs @ c # ys) c = of_nat (length xs)"
  by (simp add: str_find_def find_pos_append_notin)

lemma npos_ne_size_plus_one:
  "n < 2 ^ 63 \<Longrightarrow> npos \<noteq> (of_nat n :: size_t) + 1"
proof
  assume n: "n < 2 ^ 63" and eq: "npos = (of_nat n :: size_t) + 1"
  have "unat (of_nat (n + 1) :: size_t) = n + 1"
    using n by (intro unat_size_t_nat) simp
  moreover have "(of_nat (n + 1) :: size_t) = npos"
    using eq by (simp add: add.commute)
  ultimately show False
    using n by (simp add: unat_npos)
qed

lemma GetSubstringTillDelimiter_first:
  "d \<notin> set xs \<Longrightarrow> fst (GetSubstringTillDelimiter d (xs @ d # ys)) = xs"
  by (induction xs) (auto simp: GetSubstringTillDelimiter_def)

lemma AppendPath_host [simp]: "eu_host (AppendPath u p) = eu_host u"
  by (simp add: AppendPath_def Let_def)

lemma rename_destination_host [simp]: "eu_host (rename_destination c destFs destPath) = eu_host (ddc_pathUrl c)"
  by (simp add: rename_destination_def Let_def)

lemma RenameSubdirectory_Inr:
  "RenameSubdirectory create c name dest options = Inr (c', raw) \<Longrightarrow>
   eu_path (ddc_blobUrl c') = eu_path (ddc_pathUrl c') \<and> eu_host (ddc_pathUrl c') = eu_host (ddc_pathUrl c) \<and>
   eu_host (ddc_blobUrl c') = eu_host (ddc_blobUrl c) \<and> ddc_pipeline c' = ddc_pipeline c"
  by (auto simp: RenameSubdirectory_def Let_def)

lemma derived_directory_agree:
  assumes "derived_directory create root c" and "ddc_paths_agree root"
  shows "ddc_paths_agree c \<and> eu_host (ddc_pathUrl c) = eu_host (ddc_pathUrl root) \<and>
         eu_host (ddc_blobUrl c) = eu_host (ddc_blobUrl root) \<and> ddc_pipeline c = ddc_pipeline root"
  using assms
proof (induction rule: derived_directory.induct)
  case root
  then show ?case by simp
next
  case (subdirectory c name)
  then show ?case
    by (simp add: GetSubdirectoryClient_def ddc_paths_agree_def AppendPath_def Let_def)
next
  case (renamed c name dest options c' raw)
  then show ?case
    using RenameSubdirectory_Inr [OF renamed.hyps(2)] by (simp add: ddc_paths_agree_def)
qed

lemma GetFileClient_agree:
  "ddc_paths_agree c \<Longrightarrow> dfc_paths_agree (GetFileClient c name) \<and> dfc_pipeline (GetFileClient c name) = ddc_pipeline c"
  by (simp add: GetFileClient_def dfc_paths_agree_def ddc_paths_agree_def AppendPath_def Let_def)

lemma RenameFile_agree:
  "RenameFile create c name dest options = Inr (f, raw) \<Longrightarrow>
   dfc_paths_agree f \<and> dfc_pipeline f = ddc_pipeline c"
  by (auto simp: RenameFile_def dfc_paths_agree_def Let_def)

lemma constructors_agree:
  "ddc_paths_agree (DataLakeDirectoryClient_shared_key u key options) \<and>
   ddc_paths_agree (DataLakeDirectoryClient_token u tok options) \<and>
   ddc_paths_agree (DataLakeDirectoryClient_anonymous u options) \<and>
   ddc_paths_agree (DataLakeDirectoryClient_CreateFromConnectionString parsed fsn dn options)"
  unfolding ddc_paths_agree_def DataLakeDirectoryClient_shared_key_def DataLakeDirectoryClient_token_def DataLakeDirectoryClient_anonymous_def DataLakeDirectoryClient_CreateFromConnectionString_def blob_url_of_def Let_def
  by (simp split: option.split)

lemma rename_destination_default:
  assumes "CHR ''/'' \<notin> set fs" and "eu_path (ddc_pathUrl c) = fs @ CHR ''/'' # rest"
    and "destFs = None \<or> destFs = Some []"
  shows "rename_destination c destFs destPath = (ddc_pathUrl c)\<lparr>eu_path := fs @ ''/'' @ UrlEncodePath destPath\<rparr>"
  using assms GetSubstringTillDelimiter_first [OF assms(1), of rest]
  by (auto simp: rename_destination_def Let_def)

lemma Send_storage_retry:
  assumes pre: "list_all plain_policy pre" and mids: "list_all plain_policy mids"
  shows "\<exists>k. 0 < k \<and> k \<le> max 1 (ro_MaxRetries opts) \<and>
             Send (pre @ StorageRetryPolicy opts # mids @ [TransportPolicy]) net =
               Inr (pre @ [StorageRetryPolicy opts] @ concat (replicate k (mids @ [TransportPolicy])),
                    k, net (k - 1)) \<and>
             (\<forall>i < k - 1. retryable (RetryOptions.truncate opts) (net i)) \<and>
             (k < ro_MaxRetries opts \<longrightarrow> \<not> retryable (RetryOptions.truncate opts) (net (k - 1)))"
proof -
  have post: "\<And>c. send_chain (mids @ [TransportPolicy]) net c = Inr (mids @ [TransportPolicy], Suc c, net c)"
    using send_chain_plain [OF mids] by blast
  obtain k where k: "0 < k" "1 + k - 1 \<le> max 1 (ro_MaxRetries (RetryOptions.truncate opts))"
      "retry_loop (send_chain (mids @ [TransportPolicy]) net) (RetryOptions.truncate opts) 1 0 =
         Inr (concat (replicate k (mids @ [TransportPolicy])), 0 + k, net (0 + k - 1))"
      "\<forall>i < k - 1. retryable (RetryOptions.truncate opts) (net (0 + i))"
      "1 + k - 1 < ro_MaxRetries (RetryOptions.truncate opts) \<longrightarrow>
         \<not> retryable (RetryOptions.truncate opts) (net (0 + k - 1))"
    using retry_loop_attempts [of "send_chain (mids @ [TransportPolicy]) net" _ net 1
                                  "RetryOptions.truncate opts" 0, OF post] by blast
  have m: "ro_MaxRetries (RetryOptions.truncate opts) = ro_MaxRetries opts"
    by (simp add: RetryOptions.truncate_def)
  have "Send (pre @ StorageRetryPolicy opts # mids @ [TransportPolicy]) net =
          Inr (pre @ [StorageRetryPolicy opts] @ concat (replicate k (mids @ [TransportPolicy])), k, net (k - 1))"
    using k(3) by (simp add: Send_def HttpPipeline_def send_chain_plain_prefix [OF pre] prepend_visit_def)
  then show ?thesis
    using k m by (intro exI [of _ k]) simp
qed

lemma dfs_retry_options_truncate [simp]:
  "RetryOptions.truncate (dfs_retry_options options) = RetryOptions.truncate (dlo_RetryOptions options)"
  by (simp add: dfs_retry_options_def RetryOptions.truncate_def Let_def)

section \<open>Properties\<close>

text \<open>
  C35. \<open>ListPathsSinglePage\<close> on a directory whose path is a file system name
  \<open>fs\<close>, a slash and a directory path \<open>dir\<close> sends \<open>FileSystem::ListPaths\<close> to the
  file system's address with \<open>dir\<close> as the directory, and the options passed on:
  the \<open>size_t\<close> arithmetic of lines 322--335 cuts the path at its first slash.
\<close>

theorem list_paths_directory_split:
  assumes fs: "CHR ''/'' \<notin> set fs" "fs \<noteq> []"
    and p: "eu_path (ddc_pathUrl c) = fs @ CHR ''/'' # dir"
    and len: "length (fs @ CHR ''/'' # dir) < 2 ^ 63"
  shows "ListPathsSinglePage c recursive options =
           Inr ((ddc_pathUrl c)\<lparr>eu_path := fs\<rparr>,
                \<lparr>lp_Resource = ''filesystem'', lp_Upn = lpo_UserPrincipalName options,
                 lp_ContinuationToken = lpo_ContinuationToken options,
                 lp_MaxResults = lpo_PageSizeHint options, lp_RecursiveRequired = recursive,
                 lp_Directory = Some dir\<rparr>)"
proof -
  let ?L = "length (fs @ CHR ''/'' # dir)"
  have L: "?L = length fs + 1 + length dir" by simp
  have pos: "str_find (fs @ CHR ''/'' # dir) (CHR ''/'') = of_nat (length fs)"
    using fs(1) by (rule str_find_first)
  have ne0: "(of_nat (length fs) :: size_t) \<noteq> 0"
    using fs(2) len size_t_of_nat_eq [of "length fs" 0] by simp
  have "(of_nat ?L :: size_t) + 1 = of_nat (?L + 1)" by simp
  then have ne1: "(of_nat (length fs) :: size_t) \<noteq> of_nat ?L + 1"
    using len size_t_of_nat_eq [of "length fs" "?L + 1"] by simp
  have a1: "(of_nat (length fs) :: size_t) + 1 = of_nat (length fs + 1)" by simp
  have a2: "(of_nat ?L - of_nat (length fs) - 1 :: size_t) = of_nat (length dir)"
    using size_t_of_nat_diff [of "length fs + 1" ?L] by (simp add: L)
  have a3: "(of_nat ?L - of_nat (length dir) - 1 :: size_t) = of_nat (length fs)"
    using size_t_of_nat_diff [of "length dir + 1" ?L] by (simp add: L)
  have u1: "unat (of_nat (length fs + 1) :: size_t) = length fs + 1"
    using len by (intro unat_size_t_nat) simp
  have u2: "unat (of_nat (length dir) :: size_t) = length dir"
    using len by (intro unat_size_t_nat) simp
  have s1: "substr (fs @ CHR ''/'' # dir) (of_nat (length fs + 1)) (of_nat (length dir)) = Inr dir"
    unfolding substr_def u1 u2 by simp
  have s2: "substr (fs @ CHR ''/'' # dir) 0 (of_nat (length fs)) = Inr fs"
    using len by (simp add: substr_def unat_size_t_nat)
  show ?thesis
    unfolding ListPathsSinglePage_def Let_def p pos
    using ne0 ne1 by (simp only: a1 a2 s1 bind_result_Inr a3 s2 if_False simp_thms) simp
qed

theorem list_paths_directory_split_witness:
  "ListPathsSinglePage example_directory True no_list_options =
     Inr (\<lparr>eu_host = ''https://acct.dfs.core.windows.net'', eu_path = ''fs''\<rparr>,
          \<lparr>lp_Resource = ''filesystem'', lp_Upn = None, lp_ContinuationToken = None,
           lp_MaxResults = None, lp_RecursiveRequired = True, lp_Directory = Some ''dir''\<rparr>)"
  using list_paths_directory_split [of "''fs''" example_directory "''dir''" True no_list_options]
  by (simp add: DataLakeDirectoryClient_anonymous_def)

text \<open>
  C36. The test \<open>firstSlashPos == currentPath.size() + 1U\<close> (line 324) is never
  true for a path shorter than \<open>2^63\<close>: \<open>find_first_of\<close> returns a position
  inside the path or \<open>npos\<close>. A directory client whose path is a bare file
  system name \<open>fs\<close> (no slash) therefore takes the other branch, where
  \<open>npos + 1\<close> wraps to 0 and the lengths wrap back: it lists the directory
  \<open>fs\<close> inside the file system \<open>fs\<close> instead of the file system's root.
\<close>

theorem list_paths_without_slash:
  assumes fs: "CHR ''/'' \<notin> set fs" "fs \<noteq> []"
    and p: "eu_path (ddc_pathUrl c) = fs"
    and len: "length fs < 2 ^ 63"
  shows "ListPathsSinglePage c recursive options =
           Inr (ddc_pathUrl c,
                \<lparr>lp_Resource = ''filesystem'', lp_Upn = lpo_UserPrincipalName options,
                 lp_ContinuationToken = lpo_ContinuationToken options,
                 lp_MaxResults = lpo_PageSizeHint options, lp_RecursiveRequired = recursive,
                 lp_Directory = Some fs\<rparr>)"
proof -
  have pos: "str_find fs (CHR ''/'') = npos"
    using fs(1) by (rule str_find_not_found)
  have ne0: "npos \<noteq> (0 :: size_t)"
    by (simp add: npos_def)
  have ne1: "npos \<noteq> (of_nat (length fs) :: size_t) + 1"
    using len by (rule npos_ne_size_plus_one)
  have a2: "(of_nat (length fs) - npos - 1 :: size_t) = of_nat (length fs)"
    by (simp add: npos_def)
  have a3: "(of_nat (length fs) - of_nat (length fs) - 1 :: size_t) = npos"
    by (simp add: npos_def)
  have u: "unat (of_nat (length fs) :: size_t) = length fs"
    using len by (intro unat_size_t_nat) simp
  have s1: "substr fs 0 (of_nat (length fs)) = Inr fs"
    unfolding substr_def u by simp
  have s2: "substr fs 0 npos = Inr fs"
    using len by (intro substr_zero_npos) simp
  have url: "(ddc_pathUrl c)\<lparr>eu_path := fs\<rparr> = ddc_pathUrl c"
    using p by simp
  show ?thesis
    unfolding ListPathsSinglePage_def Let_def p pos
    using ne0 ne1 by (simp only: npos_plus_one a2 s1 bind_result_Inr a3 s2 url if_False simp_thms) simp
qed

theorem list_paths_without_slash_witness:
  "ListPathsSinglePage (example_directory\<lparr>ddc_pathUrl := example_dfs_url\<lparr>eu_path := ''fs''\<rparr>\<rparr>) False
     no_list_options =
     Inr (\<lparr>eu_host = ''https://acct.dfs.core.windows.net'', eu_path = ''fs''\<rparr>,
          \<lparr>lp_Resource = ''filesystem'', lp_Upn = None, lp_ContinuationToken = None,
           lp_MaxResults = None, lp_RecursiveRequired = False, lp_Directory = Some ''fs''\<rparr>)"
  using list_paths_without_slash
          [of "''fs''" "example_directory\<lparr>ddc_pathUrl := example_dfs_url\<lparr>eu_path := ''fs''\<rparr>\<rparr>" False
              no_list_options]
  by simp

text \<open>
  C37. The rename source \<open>RenameFile\<close> and \<open>RenameSubdirectory\<close> send (lines
  223--224 and 271--272) is a slash, the directory's path and the encoded
  name with no separator between them: for a directory whose path does not end
  with a slash it is not the path of the file \<open>GetFileClient\<close> gives for the
  same name, but that of a sibling of the directory.
\<close>

theorem rename_source_not_child_path:
  assumes "eu_path (ddc_pathUrl c) \<noteq> []" and "last (eu_path (ddc_pathUrl c)) \<noteq> CHR ''/''"
  shows "pr_RenameSource (rename_request c name options) =
           ''/'' @ eu_path (ddc_pathUrl c) @ UrlEncodePath name \<and>
         pr_RenameSource (rename_request c name options) \<noteq>
           ''/'' @ eu_path (dfc_pathUrl (GetFileClient c name))"
proof
  show "pr_RenameSource (rename_request c name options) = ''/'' @ eu_path (ddc_pathUrl c) @ UrlEncodePath name"
    by (simp add: rename_request_def Let_def)
next
  have "length (pr_RenameSource (rename_request c name options)) <
          length (''/'' @ eu_path (dfc_pathUrl (GetFileClient c name)))"
    using assms by (simp add: rename_request_def GetFileClient_def AppendPath_def Let_def)
  then show "pr_RenameSource (rename_request c name options) \<noteq>
               ''/'' @ eu_path (dfc_pathUrl (GetFileClient c name))"
    by auto
qed

theorem rename_source_not_child_path_witness:
  "pr_RenameSource (rename_request example_directory ''f.txt'' default_rename_options) = ''/fs/dirf.txt'' \<and>
   ''/fs/dirf.txt'' \<noteq> ''/'' @ eu_path (dfc_pathUrl (GetFileClient example_directory ''f.txt''))"
proof -
  have enc: "UrlEncodePath ''f.txt'' = ''f.txt''"
    by (simp add: UrlEncodePath_def path_safe_char_def)
  have h1: "eu_path (ddc_pathUrl example_directory) \<noteq> []"
    by (simp add: DataLakeDirectoryClient_anonymous_def)
  have h2: "last (eu_path (ddc_pathUrl example_directory)) \<noteq> CHR ''/''"
    by (simp add: DataLakeDirectoryClient_anonymous_def)
  have r: "''/'' @ eu_path (ddc_pathUrl example_directory) @ UrlEncodePath ''f.txt'' = ''/fs/dirf.txt''"
    by (simp add: DataLakeDirectoryClient_anonymous_def enc)
  show ?thesis
    using rename_source_not_child_path [OF h1 h2, of "''f.txt''" default_rename_options] r
    by metis
qed



text \<open>
  C39. \<open>RenameFile\<close> without a destination file system sends \<open>Path::Create\<close> to
  the directory's own file system (the first segment of its path), at the
  encoded destination path; when the service answers, the new file client
  addresses that path through both its DFS and its blob addresses and shares
  the pipeline, and an error of the service is the result.
\<close>

theorem rename_file_destination:
  assumes "CHR ''/'' \<notin> set fs" and "eu_path (ddc_pathUrl c) = fs @ CHR ''/'' # rest"
    and "rn_DestinationFileSystem options = None \<or> rn_DestinationFileSystem options = Some []"
  shows "RenameFile create c fileName destPath options =
           (case create ((ddc_pathUrl c)\<lparr>eu_path := fs @ ''/'' @ UrlEncodePath destPath\<rparr>)
                        (rename_request c fileName options) of
              Inl e \<Rightarrow> Inl e
            | Inr raw \<Rightarrow>
                Inr (\<lparr>dfc_pathUrl = (ddc_pathUrl c)\<lparr>eu_path := fs @ ''/'' @ UrlEncodePath destPath\<rparr>,
                      dfc_blobUrl = (ddc_blobUrl c)\<lparr>eu_path := fs @ ''/'' @ UrlEncodePath destPath\<rparr>,
                      dfc_blockBlobUrl = (ddc_blobUrl c)\<lparr>eu_path := fs @ ''/'' @ UrlEncodePath destPath\<rparr>,
                      dfc_pipeline = ddc_pipeline c\<rparr>, raw))"
  using rename_destination_default [OF assms, of destPath]
  by (simp add: RenameFile_def Let_def bind_result_def split: sum.split)

theorem rename_file_destination_witness:
  "RenameFile accepting_service example_directory ''f.txt'' ''g.txt'' default_rename_options =
     Inr (\<lparr>dfc_pathUrl = example_dfs_url\<lparr>eu_path := ''fs/g.txt''\<rparr>,
           dfc_blobUrl = \<lparr>eu_host = ''https://acct.blob.core.windows.net'', eu_path = ''fs/g.txt''\<rparr>,
           dfc_blockBlobUrl = \<lparr>eu_host = ''https://acct.blob.core.windows.net'', eu_path = ''fs/g.txt''\<rparr>,
           dfc_pipeline = datalake_pipeline example_datalake_options []\<rparr>, ())"
proof -
  have enc: "UrlEncodePath ''g.txt'' = ''g.txt''"
    by (simp add: UrlEncodePath_def path_safe_char_def)
  have host: "GetBlobUrlFromUrl ''https://acct.dfs.core.windows.net'' = ''https://acct.blob.core.windows.net''"
    by (simp add: GetBlobUrlFromUrl_def)
  show ?thesis
    using rename_file_destination [of "''fs''" example_directory "''dir''" default_rename_options
                                      accepting_service "''f.txt''" "''g.txt''"]
    by (simp add: DataLakeDirectoryClient_anonymous_def blob_url_of_def enc host)
qed

text \<open>
  C40. Unlike \<open>FileClient\<close>, which always retries with the default options, a
  \<open>DataLakeDirectoryClient\<close> retries with the caller's: a send through its
  pipeline visits telemetry, request id and the per-operation policies once,
  the storage retry policy once, then per attempt the per-retry policies, the
  storage per-retry policy, the authentication policies and the transport, for
  one to \<open>max 1 MaxRetries\<close> attempts of the caller's options, retrying exactly
  the outcomes the caller's status codes name; the retry policy's secondary
  host is the DFS endpoint of the caller's.
\<close>

theorem datalake_send_honours_retry_options:
  assumes "list_all plain_policy (dlo_PerOperationPolicies options)"
    and "list_all plain_policy (dlo_PerRetryPolicies options)" and "list_all plain_policy auth"
  shows "(\<exists>k. 0 < k \<and> k \<le> max 1 (ro_MaxRetries (dlo_RetryOptions options)) \<and>
              Send (datalake_pipeline options auth) net =
                Inr ([TelemetryPolicy DatalakeServicePackageName DataLakeVersionString, RequestIdPolicy] @
                     dlo_PerOperationPolicies options @ [StorageRetryPolicy (dfs_retry_options options)] @
                     concat (replicate k (dlo_PerRetryPolicies options @ [StoragePerRetryPolicy] @
                                          auth @ [TransportPolicy])),
                     k, net (k - 1)) \<and>
              (\<forall>i < k - 1. retryable (RetryOptions.truncate (dlo_RetryOptions options)) (net i)) \<and>
              (k < ro_MaxRetries (dlo_RetryOptions options) \<longrightarrow>
                 \<not> retryable (RetryOptions.truncate (dlo_RetryOptions options)) (net (k - 1)))) \<and>
         sro_SecondaryHostForRetryReads (dfs_retry_options options) =
           GetDfsUrlFromUrl (sro_SecondaryHostForRetryReads (dlo_RetryOptions options))"
proof -
  let ?pre = "[TelemetryPolicy DatalakeServicePackageName DataLakeVersionString, RequestIdPolicy] @
              dlo_PerOperationPolicies options"
  let ?mids = "dlo_PerRetryPolicies options @ [StoragePerRetryPolicy] @ auth"
  have pre: "list_all plain_policy ?pre"
    using assms(1) by (simp add: plain_policy_def)
  have mids: "list_all plain_policy ?mids"
    using assms(2,3) by (simp add: plain_policy_def)
  have p: "datalake_pipeline options auth = ?pre @ StorageRetryPolicy (dfs_retry_options options) # ?mids @ [TransportPolicy]"
    by (simp add: datalake_pipeline_def)
  have m: "ro_MaxRetries (dfs_retry_options options) = ro_MaxRetries (dlo_RetryOptions options)"
    by (simp add: dfs_retry_options_def Let_def)
  have send: "\<exists>k. 0 < k \<and> k \<le> max 1 (ro_MaxRetries (dlo_RetryOptions options)) \<and>
              Send (datalake_pipeline options auth) net =
                Inr ([TelemetryPolicy DatalakeServicePackageName DataLakeVersionString, RequestIdPolicy] @
                     dlo_PerOperationPolicies options @ [StorageRetryPolicy (dfs_retry_options options)] @
                     concat (replicate k (dlo_PerRetryPolicies options @ [StoragePerRetryPolicy] @
                                          auth @ [TransportPolicy])),
                     k, net (k - 1)) \<and>
              (\<forall>i < k - 1. retryable (RetryOptions.truncate (dlo_RetryOptions options)) (net i)) \<and>
              (k < ro_MaxRetries (dlo_RetryOptions options) \<longrightarrow>
                 \<not> retryable (RetryOptions.truncate (dlo_RetryOptions options)) (net (k - 1)))"
    using Send_storage_retry [OF pre mids, of "dfs_retry_options options" net]
    unfolding p m dfs_retry_options_truncate append_assoc .
  have sec: "sro_SecondaryHostForRetryReads (dfs_retry_options options) =
               GetDfsUrlFromUrl (sro_SecondaryHostForRetryReads (dlo_RetryOptions options))"
    by (simp add: dfs_retry_options_def Let_def)
  show ?thesis
    using send sec by (rule conjI)
qed

theorem datalake_send_honours_retry_options_witness:
  "list_all plain_policy (dlo_PerOperationPolicies example_datalake_options) \<and>
   list_all plain_policy (dlo_PerRetryPolicies example_datalake_options) \<and>
   list_all plain_policy [SharedKeyPolicy ''key''] \<and>
   (\<exists>k. 0 < k \<and> k \<le> max 1 (ro_MaxRetries (dlo_RetryOptions example_datalake_options)) \<and>
        Send (datalake_pipeline example_datalake_options [SharedKeyPolicy ''key'']) flaky_network =
          Inr ([TelemetryPolicy DatalakeServicePackageName DataLakeVersionString, RequestIdPolicy] @
               dlo_PerOperationPolicies example_datalake_options @
               [StorageRetryPolicy (dfs_retry_options example_datalake_options)] @
               concat (replicate k (dlo_PerRetryPolicies example_datalake_options @ [StoragePerRetryPolicy] @
                                    [SharedKeyPolicy ''key''] @ [TransportPolicy])),
               k, flaky_network (k - 1)) \<and>
        (\<forall>i < k - 1. retryable (RetryOptions.truncate (dlo_RetryOptions example_datalake_options)) (flaky_network i)) \<and>
        (k < ro_MaxRetries (dlo_RetryOptions example_datalake_options) \<longrightarrow>
           \<not> retryable (RetryOptions.truncate (dlo_RetryOptions example_datalake_options)) (flaky_network (k - 1)))) \<and>
   sro_SecondaryHostForRetryReads (dfs_retry_options example_datalake_options) =
     GetDfsUrlFromUrl (sro_SecondaryHostForRetryReads (dlo_RetryOptions example_datalake_options))"
proof -
  have p1: "list_all plain_policy (dlo_PerOperationPolicies example_datalake_options)" by simp
  have p2: "list_all plain_policy (dlo_PerRetryPolicies example_datalake_options)" by simp
  have p3: "list_all plain_policy [SharedKeyPolicy ''key'']" by (simp add: plain_policy_def)
  show ?thesis
    using datalake_send_honours_retry_options [OF p1 p2 p3, of flaky_network] p1 p2 p3 by blast
qed

end
