(* ===== verification/Md5_Hash_Test.thy ===== *)
theory Md5_Hash_Test
  imports Prelude
begin

text \<open>
  The unit test of \<open>Azure::Core::Cryptography::Md5Hash\<close> (md5 test, held in the
  sources inside src/sdk/storage/azure-storage-blobs/test/performance/CMakeLists.txt
  lines 524--641). The hash class is azure-core's and outside the sources: it
  is modelled by the contract the test relies on, with the digest function a
  parameter \<open>digest\<close> (the test compares the object's results with each other
  and with digests the library computes). The object accumulates the bytes
  appended; \<open>Final\<close> hashes them and closes the object; a call on a closed
  object throws \<open>std::runtime_error\<close>, a null pointer with a non-zero length
  \<open>std::invalid_argument\<close>. The test's random sizes are a list of draws, so its
  streaming loop, which need not end when a draw is 0, runs on a finite list
  and returns \<open>None\<close> when the draws run out first.
\<close>

section \<open>The hash object\<close>

record Md5Hash =
  md5_data :: "byte list"
  md5_isDone :: bool

definition Md5Hash_new :: Md5Hash where
  "Md5Hash_new = \<lparr>md5_data = [], md5_isDone = False\<rparr>"

text \<open>A pointer argument is \<open>None\<close> for \<open>nullptr\<close> or the bytes it points at; a call
  reads the first \<open>length\<close> of them, and reading past them is undefined.\<close>

definition read_bytes :: "byte list option \<Rightarrow> nat \<Rightarrow> byte list result" where
  "read_bytes ptr len =
     (case ptr of
        None \<Rightarrow> if len = 0 then Inr [] else Inl (InvalidArgument ''null data with a non-zero length'')
      | Some bs \<Rightarrow> if len \<le> size bs then Inr (take len bs)
                   else Inl (UndefinedBehaviour ''read past the buffer''))"

text \<open>\<open>Hash::Append(data, length)\<close>.\<close>

definition Md5_Append :: "Md5Hash \<Rightarrow> byte list option \<Rightarrow> nat \<Rightarrow> Md5Hash result" where
  "Md5_Append h ptr len =
     bind_result (read_bytes ptr len)
       (\<lambda>bs. if md5_isDone h then Inl (RuntimeError ''Cannot call Append after calling Final().'')
             else Inr (h\<lparr>md5_data := md5_data h @ bs\<rparr>))"

text \<open>\<open>Hash::Final(data, length)\<close> and \<open>Hash::Final()\<close>, which is \<open>Final(nullptr, 0)\<close>.\<close>

definition Md5_Final ::
  "(byte list \<Rightarrow> 'd) \<Rightarrow> Md5Hash \<Rightarrow> byte list option \<Rightarrow> nat \<Rightarrow> ('d \<times> Md5Hash) result" where
  "Md5_Final digest h ptr len =
     bind_result (read_bytes ptr len)
       (\<lambda>bs. if md5_isDone h then Inl (RuntimeError ''Cannot call Final() multiple times.'')
             else Inr (digest (md5_data h @ bs), h\<lparr>md5_data := md5_data h @ bs, md5_isDone := True\<rparr>))"

definition Md5_Final0 :: "(byte list \<Rightarrow> 'd) \<Rightarrow> Md5Hash \<Rightarrow> ('d \<times> Md5Hash) result" where
  "Md5_Final0 digest h = Md5_Final digest h None 0"

section \<open>The test\<close>

text \<open>Lines 537--542: \<open>ComputeHash\<close>, a fresh object's \<open>Final(ptr, length)\<close>.\<close>

definition ComputeHash :: "(byte list \<Rightarrow> 'd) \<Rightarrow> byte list \<Rightarrow> 'd result" where
  "ComputeHash digest data = map_sum id fst (Md5_Final digest Md5Hash_new (Some data) (length data))"

text \<open>Lines 608--616: while \<open>length < data.size()\<close>, a draw \<open>s\<close> is cut to what is
  left, \<open>s\<close> bytes and then 0 bytes from \<open>&data[length]\<close> are appended, and
  \<open>length\<close> grows by \<open>s\<close>.\<close>

fun stream_loop :: "byte list \<Rightarrow> nat list \<Rightarrow> nat \<Rightarrow> Md5Hash \<Rightarrow> Md5Hash result option" where
  "stream_loop data [] len h = (if len < size data then None else Some (Inr h))"
| "stream_loop data (r # rs) len h =
     (if len < size data
      then (let s = min r (size data - len)
            in case bind_result (Md5_Append h (Some (drop len data)) s)
                      (\<lambda>h1. Md5_Append h1 (Some (drop len data)) 0) of
                 Inl e \<Rightarrow> Some (Inl e)
               | Inr h2 \<Rightarrow> stream_loop data rs (len + s) h2)
      else Some (Inr h))"

text \<open>Lines 617: the streaming object's \<open>Final()\<close> against a second object's
  \<open>Final(data, size)\<close>; the comparison, when the loop ends.\<close>

definition basic_streaming_agrees :: "(byte list \<Rightarrow> 'd) \<Rightarrow> byte list \<Rightarrow> nat list \<Rightarrow> bool option" where
  "basic_streaming_agrees digest data draws =
     map_option (\<lambda>r. map_sum id fst (bind_result r (Md5_Final0 digest)) =
                     map_sum id fst (Md5_Final digest Md5Hash_new (Some data) (size data)))
       (stream_loop data draws 0 Md5Hash_new)"

text \<open>Lines 620--634, \<open>ExpectThrow\<close>: the outcome of each call in order, as the
  exception it throws or the digest it returns, on one object.\<close>

datatype 'd call_outcome = Threw error | Returned 'd | Done

definition outcome :: "('a \<times> Md5Hash) result \<Rightarrow> ('a \<Rightarrow> 'd call_outcome) \<Rightarrow> 'd call_outcome" where
  "outcome r f = (case r of Inl e \<Rightarrow> Threw e | Inr (a, _) \<Rightarrow> f a)"

definition state_after :: "Md5Hash \<Rightarrow> ('a \<times> Md5Hash) result \<Rightarrow> Md5Hash" where
  "state_after h r = (case r of Inl _ \<Rightarrow> h | Inr (_, h') \<Rightarrow> h')"

definition expect_throw_test :: "(byte list \<Rightarrow> 'd) \<Rightarrow> 'd call_outcome list" where
  "expect_throw_test digest =
     (let h0 = Md5Hash_new;
          r1 = Md5_Final digest h0 None 1;
          h1 = state_after h0 r1;
          r2 = map_sum id (\<lambda>h. ((), h)) (Md5_Append h1 None 1);
          h2 = state_after h1 r2;
          r3 = Md5_Final digest h2 (Some []) 0;
          h3 = state_after h2 r3;
          r4 = Md5_Final0 digest h3;
          h4 = state_after h3 r4;
          r5 = Md5_Final digest h4 (Some []) 0;
          h5 = state_after h4 r5;
          r6 = map_sum id (\<lambda>h. ((), h)) (Md5_Append h5 (Some []) 0)
      in [outcome r1 Returned, outcome r2 (\<lambda>_. Done), outcome r3 Returned, outcome r4 Returned,
          outcome r5 Returned, outcome r6 (\<lambda>_. Done)])"

section \<open>Lemmas\<close>

lemma read_bytes_Some [simp]: "n \<le> size bs \<Longrightarrow> read_bytes (Some bs) n = Inr (take n bs)"
  by (simp add: read_bytes_def)

lemma Md5_Append_open [simp]:
  "\<not> md5_isDone h \<Longrightarrow> n \<le> size bs \<Longrightarrow>
   Md5_Append h (Some bs) n = Inr (h\<lparr>md5_data := md5_data h @ take n bs\<rparr>)"
  by (simp add: Md5_Append_def)

text \<open>The loop keeps the object open and its bytes the prefix of the data read
  so far; when it ends, the object holds exactly the data.\<close>

lemma stream_loop_data:
  assumes "stream_loop data rs len h = Some (Inr h')" and "len \<le> size data"
    and "md5_data h = take len data" and "\<not> md5_isDone h"
  shows "md5_data h' = data \<and> \<not> md5_isDone h'"
  using assms
proof (induction data rs len h rule: stream_loop.induct)
  case (1 data len h)
  then show ?case by (simp split: if_splits)
next
  case (2 data r rs len h)
  show ?case
  proof (cases "len < size data")
    case False
    then show ?thesis using "2.prems" by simp
  next
    case True
    let ?s = "min r (size data - len)"
    have step: "stream_loop data (r # rs) len h =
                  stream_loop data rs (len + ?s) (h\<lparr>md5_data := take (len + ?s) data\<rparr>)"
      using True "2.prems"(3,4) by (simp add: Let_def take_add)
    show ?thesis
      using "2.IH" [OF True refl, of "h\<lparr>md5_data := take (len + ?s) data\<rparr>"] "2.prems" step True
      by (simp add: Let_def take_add)
  qed
qed

text \<open>Positive draws make the loop end within \<open>size data\<close> of them.\<close>

lemma stream_loop_ends:
  assumes "list_all (\<lambda>r. 0 < r) rs" and "size data - len \<le> size rs"
    and "md5_data h = take len data" and "\<not> md5_isDone h" and "len \<le> size data"
  shows "\<exists>h'. stream_loop data rs len h = Some (Inr h')"
  using assms
proof (induction rs arbitrary: len h)
  case Nil
  then show ?case by simp
next
  case (Cons r rs)
  show ?case
  proof (cases "len < size data")
    case False
    then show ?thesis by simp
  next
    case True
    let ?s = "min r (size data - len)"
    have "\<exists>h'. stream_loop data rs (len + ?s) (h\<lparr>md5_data := take (len + ?s) data\<rparr>) = Some (Inr h')"
      using Cons.prems True by (intro Cons.IH) (auto simp: take_add)
    then show ?thesis
      using True Cons.prems(3,4) by (simp add: Let_def take_add)
  qed
qed

text \<open>\<open>Md5Hash.Basic\<close>, lines 595--617: whenever the streaming loop ends, the
  streaming digest is the single-shot digest of the same data, for every digest
  function and every sequence of draws.\<close>

lemma basic_test_streaming:
  assumes "stream_loop data draws 0 Md5Hash_new = Some (Inr h')"
  shows "basic_streaming_agrees digest data draws = Some True"
proof -
  have "md5_data h' = data \<and> \<not> md5_isDone h'"
    using stream_loop_data [OF assms] by (simp add: Md5Hash_new_def)
  then show ?thesis
    using assms by (simp add: basic_streaming_agrees_def Md5_Final0_def Md5_Final_def read_bytes_def
                              Md5Hash_new_def)
qed

text \<open>Lines 590--592: the digest of a fresh object and \<open>ComputeHash("")\<close> agree.\<close>

lemma basic_test_empty:
  "ComputeHash digest [] = Inr (digest []) \<and> map_sum id fst (Md5_Final0 digest Md5Hash_new) = Inr (digest [])"
  by (simp add: ComputeHash_def Md5_Final0_def Md5_Final_def read_bytes_def Md5Hash_new_def)

text \<open>\<open>Md5Hash.ExpectThrow\<close>: the null pointers throw \<open>invalid_argument\<close> and leave the
  object open; the first \<open>Final\<close> returns the digest of nothing; every later call
  throws \<open>runtime_error\<close>.\<close>

lemma expect_throw_test_outcomes:
  "expect_throw_test digest =
     [Threw (InvalidArgument ''null data with a non-zero length''),
      Threw (InvalidArgument ''null data with a non-zero length''),
      Returned (digest []),
      Threw (RuntimeError ''Cannot call Final() multiple times.''),
      Threw (RuntimeError ''Cannot call Final() multiple times.''),
      Threw (RuntimeError ''Cannot call Append after calling Final().'')]"
  by (simp add: expect_throw_test_def Md5_Final0_def Md5_Final_def Md5_Append_def read_bytes_def
                Md5Hash_new_def outcome_def state_after_def)

text \<open>Draws of 0 make no progress: on non-empty data the loop never ends.\<close>

lemma stream_loop_zero_draws:
  assumes "list_all (\<lambda>r. r = 0) rs" and "len < size data" and "\<not> md5_isDone h"
  shows "stream_loop data rs len h = None"
  using assms
proof (induction rs arbitrary: h)
  case Nil
  then show ?case by simp
next
  case (Cons r rs)
  then show ?case by (simp add: Let_def)
qed

end
