(* ===== verification/Retry_Delay.thy ===== *)
theory Retry_Delay
  imports Complex_Main File_Client_Pipeline
begin

text \<open>
  The delay the retry policy sleeps before attempt \<open>n + 1\<close> (specification
  section 4.2, azure-core outside the sources): the base delay doubled per
  attempt, capped at the maximum delay, then scaled by a jitter factor
  \<open>1 + j\<close> with \<open>|j|\<close> at most the jitter fraction. Delays are exact rationals
  of milliseconds; the jitter drawn for an attempt is a parameter. Sleeping
  changes no outcome, so the delays do not enter \<open>retry_loop\<close>.
\<close>

section \<open>Delays\<close>

definition backoff :: "RetryOptions \<Rightarrow> nat \<Rightarrow> rat" where
  "backoff opts n = min (of_int (ro_MaxRetryDelay opts)) (of_int (ro_RetryDelay opts) * 2 ^ (n - 1))"

definition retry_delay :: "RetryOptions \<Rightarrow> rat \<Rightarrow> nat \<Rightarrow> rat" where
  "retry_delay opts j n = backoff opts n * (1 + j)"

text \<open>The delays of the attempts \<open>1 .. k - 1\<close> of a send of \<open>k\<close> attempts, under
  the jitters drawn for them.\<close>

definition retry_delays :: "RetryOptions \<Rightarrow> rat list \<Rightarrow> rat list" where
  "retry_delays opts js = map (\<lambda>(n, j). retry_delay opts j n) (zip [1 ..< Suc (length js)] js)"

section \<open>Lemmas\<close>

lemma backoff_nonneg:
  "0 \<le> ro_RetryDelay opts \<Longrightarrow> 0 \<le> ro_MaxRetryDelay opts \<Longrightarrow> 0 \<le> backoff opts n"
  by (simp add: backoff_def)

lemma backoff_le_max: "backoff opts n \<le> of_int (ro_MaxRetryDelay opts)"
  by (simp add: backoff_def)

lemma backoff_mono:
  assumes "0 \<le> ro_RetryDelay opts" and "n \<le> m"
  shows "backoff opts n \<le> backoff opts m"
proof -
  have "(2 :: rat) ^ (n - 1) \<le> 2 ^ (m - 1)"
    using assms(2) by (intro power_increasing) auto
  then have "of_int (ro_RetryDelay opts) * (2 :: rat) ^ (n - 1) \<le> of_int (ro_RetryDelay opts) * 2 ^ (m - 1)"
    using assms(1) by (intro mult_left_mono) auto
  then show ?thesis
    by (auto simp: backoff_def min_def)
qed

text \<open>The delay of attempt \<open>n\<close> lies between the capped backoff scaled by
  \<open>1 - J\<close> and by \<open>1 + J\<close>.\<close>

lemma retry_delay_bounds:
  assumes "0 \<le> ro_RetryDelay opts" and "0 \<le> ro_MaxRetryDelay opts" and "\<bar>j\<bar> \<le> J"
  shows "backoff opts n * (1 - J) \<le> retry_delay opts j n \<and> retry_delay opts j n \<le> backoff opts n * (1 + J)"
proof -
  have b: "0 \<le> backoff opts n"
    using assms(1,2) by (rule backoff_nonneg)
  have "1 - J \<le> 1 + j" and "1 + j \<le> 1 + J"
    using assms(3) by auto
  then show ?thesis
    using b by (simp add: retry_delay_def mult_left_mono)
qed

text \<open>With a jitter of at most one, no delay exceeds the maximum delay by more
  than the jitter allows, and the delays of the successive attempts do not
  decrease when the same jitter is drawn.\<close>

lemma retry_delay_le_max:
  assumes "0 \<le> ro_RetryDelay opts" and "0 \<le> ro_MaxRetryDelay opts" and "\<bar>j\<bar> \<le> J"
  shows "retry_delay opts j n \<le> of_int (ro_MaxRetryDelay opts) * (1 + J)"
proof -
  have "retry_delay opts j n \<le> backoff opts n * (1 + J)"
    using retry_delay_bounds [OF assms] by blast
  also have "\<dots> \<le> of_int (ro_MaxRetryDelay opts) * (1 + J)"
    using assms(3) backoff_le_max [of opts n] by (intro mult_right_mono) auto
  finally show ?thesis .
qed

lemma retry_delay_mono:
  assumes "0 \<le> ro_RetryDelay opts" and "n \<le> m" and "-1 \<le> j"
  shows "retry_delay opts j n \<le> retry_delay opts j m"
  using backoff_mono [OF assms(1,2)] assms(3) by (simp add: retry_delay_def mult_right_mono)

text \<open>Specification section 8, property 2, bounds the delay of attempt \<open>n\<close> by
  \<open>min(MaxDelay, Base 2^(n-1) (1 + J))\<close> above and \<open>Base 2^(n-1) (1 - J)\<close> below.
  Under section 4.2's formula both fail once the cap applies: with the
  default options, a jitter fraction of 20 percent and the seventh attempt,
  the delay can be 144 s, above the stated maximum of 120 s, or 96 s, below the
  stated minimum of 204.8 s.\<close>

lemma spec_delay_bounds_fail_under_cap:
  "retry_delay default_retry_options (1/5) 7 = 144000 \<and>
   min (of_int (ro_MaxRetryDelay default_retry_options))
       (of_int (ro_RetryDelay default_retry_options) * 2 ^ 6 * (1 + 1/5)) = (120000 :: rat) \<and>
   retry_delay default_retry_options (-1/5) 7 = 96000 \<and>
   of_int (ro_RetryDelay default_retry_options) * 2 ^ 6 * (1 - 1/5) = (204800 :: rat)"
  by (simp add: retry_delay_def backoff_def default_retry_options_def)

lemma retry_delays_length [simp]: "length (retry_delays opts js) = length js"
  by (simp add: retry_delays_def del: upt_Suc)

lemma retry_delays_nth:
  "i < length js \<Longrightarrow> retry_delays opts js ! i = retry_delay opts (js ! i) (Suc i)"
  by (simp add: retry_delays_def nth_upt del: upt_Suc)

lemma sum_list_le_length_mult:
  "(\<forall>x\<in>set xs. x \<le> (c :: rat)) \<Longrightarrow> sum_list xs \<le> of_nat (length xs) * c"
  by (induction xs) (auto simp: algebra_simps add_mono)

text \<open>The time one send spends asleep: at most the maximum delay scaled by
  \<open>1 + J\<close> for each retried attempt.\<close>

lemma retry_delays_total:
  assumes "0 \<le> ro_RetryDelay opts" and "0 \<le> ro_MaxRetryDelay opts" and "\<forall>j \<in> set js. \<bar>j\<bar> \<le> J"
  shows "sum_list (retry_delays opts js) \<le> of_nat (length js) * (of_int (ro_MaxRetryDelay opts) * (1 + J))"
proof -
  have "\<forall>x \<in> set (retry_delays opts js). x \<le> of_int (ro_MaxRetryDelay opts) * (1 + J)"
  proof
    fix x
    assume "x \<in> set (retry_delays opts js)"
    then obtain i where i: "i < length js" "x = retry_delay opts (js ! i) (Suc i)"
      by (auto simp: in_set_conv_nth retry_delays_nth)
    then show "x \<le> of_int (ro_MaxRetryDelay opts) * (1 + J)"
      using retry_delay_le_max [OF assms(1,2)] assms(3) nth_mem [OF i(1)] by simp
  qed
  then show ?thesis
    using sum_list_le_length_mult [of "retry_delays opts js"] by simp
qed

end
