(* ===== verification/Spec2Isabelle.thy ===== *)
theory Spec2Isabelle
  imports Local_Download_Order Reliable_Download File_Client_Pipeline Code_Owners Share_File_Lease DataLake_Directory Md5_Hash_Test Retry_Delay
begin

text \<open>
  Verification of the resilient transfer engine of the Azure SDK for C++ as it
  appears in this repository: the file-share client \<open>FileClient\<close>
  (src/sdk/storage/src/shares/share_file_client.cpp) and the engine parts it
  drives (pipeline, retry, reliable stream, concurrent chunk transfer).

  \<^bold>\<open>Theories.\<close>
  \<^item> \<open>Prelude\<close>: machine types (\<open>byte\<close>, \<open>size_t\<close>), the \<open>error\<close> datatype of
    the exceptions the code throws, fallible sequencing \<open>bind_result\<close>, C++
    truncating division \<open>cpp_div\<close>, the \<open>size_t\<close> cast of a non-negative
    \<open>int64_t\<close>, and list lemmas on writing a buffer piecewise.
  \<^item> \<open>Std_String\<close>: the standard-library string functions the client uses on
    HTTP headers: \<open>std::to_string\<close>, \<open>std::stoll\<close>, \<open>find\<close> and \<open>substr\<close> with
    \<open>size_t\<close> positions and \<open>npos\<close>; round trip of decimal printing and parsing.
  \<^item> \<open>Share_File_Ranges\<close>: the range operations of \<open>FileClient\<close> (\<open>Download\<close>,
    \<open>UploadRange\<close>, \<open>ClearRange\<close>, \<open>GetRangeList\<close>, \<open>UploadRangeFromUrl\<close>,
    share_file_client.cpp lines 210--493) up to the protocol-layer request they
    build; the range header and the grammar of specification section 6.
  \<^item> \<open>Concurrent_Transfer\<close>: \<open>Storage::Details::ConcurrentTransfer\<close>, which is
    not among the sources and is modelled from specification sections 3, 4.4
    and 5: the chunk plan (\<open>chunk_plan\<close>, proved equal to the one-chunk-at-a-time
    reference \<open>split_range\<close>, which partitions the range); the scheduler as an
    inductive step relation \<open>transfer_step\<close> (dispatch in plan order into at
    most \<open>concurrency\<close> slots, completion, failure, cancellation) with its
    invariant and the first failure winning; and the entry point
    \<open>ConcurrentTransfer\<close>, whose result is that of the in-order schedule
    \<open>run_in_order\<close>, proved to be a run of the step relation. These lemmas
    are generic in the chunk worker; the claims apply them to \<open>DownloadTo\<close>.
  \<^item> \<open>Share_File_Transfer\<close>: \<open>FileClient::DownloadTo(buffer)\<close> (lines
    563--681) over a model of the file service (a file is its bytes, entity
    tag and properties; \<open>serve_download\<close> answers a ranged GET as section 6
    says): the first-chunk options, the range size from \<open>Content-Range\<close>, the
    buffer check, the derived chunk size and the lambda \<open>downloadChunkFunc\<close>.
    The buffer is a byte list returned updated; \<open>ret\<close> is threaded with it as
    the scheduler's shared state.
  \<^item> \<open>Share_File_Upload\<close>: \<open>FileClient::Create\<close> (lines 136--197, the SMB
    properties and the precedence of the permission over its key) and
    \<open>FileClient::UploadFrom(buffer)\<close> (lines 813--897) over the service's
    Create and Put Range (\<open>serve_create\<close>, \<open>serve_upload_range\<close>); the upload's
    state is the service file and the \<open>x-ms-range\<close> headers sent, in order.
    It also holds the termination and progress of both transfers.
  \<^item> \<open>Share_File_Local\<close>: the local-file overloads \<open>UploadFrom(file)\<close> (lines
    899--985) and \<open>DownloadTo(file)\<close> (lines 683--811) with its 4 MiB
    \<open>bodyStreamToFile\<close> copy loop (a \<open>function\<close> terminating on the length
    left); the local file is a byte list and \<open>FileWriter::Write\<close> is \<open>pwrite\<close>.
  \<^item> \<open>Local_Download_Order\<close>: \<open>DownloadTo(file)\<close> under every
    interleaving of its chunks: the invariant \<open>file_filled\<close> of the local file
    (the first chunk and every completed chunk hold the file's bytes, the other
    bytes are holes of zeros left by writes past the end).
  \<^item> \<open>Reliable_Download\<close>: the resumable body of \<open>FileClient::Download\<close>
    (lines 233--267): the \<open>retryFunction\<close> lambda and its options
    (\<open>resume_options\<close>), and the reliable stream of specification section 4.3
    (\<open>reliable_read\<close>, outside the sources), read to its end under a finite
    schedule of transport faults; each resume is answered by the file as it is
    at that moment, so the file may change during the download.
  \<^item> \<open>File_Client_Pipeline\<close>: the constructors of \<open>FileClient\<close> (lines
    21--134): the pipeline as a list of policies (\<open>client_pipeline\<close>), the
    constructor chosen by \<open>CreateFromConnectionString\<close>, \<open>WithSnapshot\<close>; and
    azure-core's \<open>HttpPipeline::Send\<close> and retry policy from specification
    sections 4.1 and 4.2 (\<open>send_chain\<close>, a \<open>primrec\<close> on the policy list whose
    retry case re-drives the rest of the chain through \<open>retry_loop\<close>). The
    network is the sequence of outcomes of the transport calls.
  \<^item> \<open>Code_Owners\<close>: the CODEOWNERS file (src/unnamed/part_000) as its list
    of rules, and GitHub's matching of a path against them (gitignore-style
    globs, the last matching rule wins), modelled from GitHub's documentation.
  \<^item> \<open>Share_File_Lease\<close>: the remaining operations of \<open>FileClient\<close> (lines
    202--561: \<open>Delete\<close>, \<open>StartCopy\<close>, \<open>AbortCopy\<close>, \<open>GetProperties\<close>,
    \<open>SetProperties\<close>, \<open>SetMetadata\<close>, \<open>ListHandlesSegmented\<close>,
    \<open>ForceCloseHandles\<close> and the four lease operations) up to the protocol
    request each builds (\<open>FileRequest\<close>, one builder per method); the service's
    answer to them (\<open>serve_file_request\<close>: a missing file is 404, a write or
    read without the holder's lease id is 412, conflicting lease operations are
    409, an acquire with a finite duration is 400), modelled from the service
    contract of the specification; and a client session \<open>run_operations\<close>
    that sends operations in order and stops at the first error.
  \<^item> \<open>DataLake_Directory\<close>: \<open>DataLakeDirectoryClient\<close> (datalake_directory_client.cpp,
    held in the sources inside
    src/sdk/storage/azure-storage-blobs/test/performance/CMakeLists.txt, lines
    37--341): the constructors, whose pipelines use the storage retry policy
    with the caller's options (\<open>StorageRetryPolicy\<close>, added to the policies of
    \<open>File_Client_Pipeline\<close>, its options a record extension of
    \<open>RetryOptions\<close>), \<open>GetFileClient\<close>, \<open>GetSubdirectoryClient\<close>, the renames,
    the deletes and \<open>ListPathsSinglePage\<close>, each up to the REST call it makes;
    the REST calls are parameters. A client holds its DFS address and its blob
    client's address, each a host and an encoded path string (azure-core's
    \<open>Url\<close>); \<open>derived_directory\<close> is the inductive relation of the clients a
    program derives from one.
  \<^item> \<open>Md5_Hash_Test\<close>: the md5 unit test held in the same file (lines
    524--641) over the contract of azure-core's \<open>Md5Hash\<close>, whose digest
    function is a parameter: the streaming loop of \<open>Basic\<close> runs on a finite
    list of random draws (\<open>None\<close> when they run out). Its lemmas show the
    test's expectations hold for every digest function, that positive draws
    end the loop within the data's size and that draws of 0 never do.
  \<^item> \<open>Retry_Delay\<close>: the retry policy's sleep before each retry (specification
    section 4.2): the capped exponential backoff scaled by the jitter drawn,
    exact rationals of milliseconds. Its lemmas bound each delay and the total
    sleep of a send, show the delays do not decrease, and show that the bounds
    of specification section 8 (property 2) fail once the cap applies.

  \<^bold>\<open>What is proved.\<close> \<open>DownloadTo\<close> delivers the whole file (C1) or the
  requested range (C2) into the buffer and leaves the rest untouched; a length
  given without an offset is ignored, so a buffer sized to it is refused (C3);
  the derived chunk size is a positive multiple of 4 KiB of at most 4 MiB (C8).
  Under every interleaving of \<open>DownloadTo\<close>'s chunks that the scheduler allows,
  a successful run leaves the same buffer (C4, by an invariant over all
  reachable states: the bytes of completed chunks are the file's, the others
  untouched); the first failure is the one reported (C5); at most
  \<open>concurrency\<close> chunks are in flight and each runs at most once (C6); the
  sequential result is that of one of these runs (C7). The
  range header of \<open>Download\<close> reads back as the requested range (C9);
  \<open>UploadRangeFromUrl\<close> writes the source range into the target range (C10).
  \<open>UploadFrom(buffer)\<close> creates the file, leaves exactly the buffer on the
  service and sends the chunk ranges in plan order (C11); the create request
  carries exactly one of permission and permission key (C12). The scheduler's
  step relation is well founded for both transfers (C13) and from every
  reachable state a final one is reachable (C14). The local-file overloads are
  equivalent to the buffer ones (C15, C16), and the copy loop of
  \<open>DownloadTo(file)\<close> raises on a body shorter than expected (C17).
  Under every interleaving of its chunks a successful \<open>DownloadTo(file)\<close>
  leaves exactly the requested range in the local file (C27).
  On an unchanged file a download interrupted by at most three faults delivers
  the uninterrupted response (C18); a resume that finds a new entity tag fails
  and stops (C19). Two defects are proved as theorems: the body a resume
  continues with comes from a second request whose tag is not checked (C20),
  and a length given without an offset truncates the stream after a fault
  (C21).
  Every constructor builds a well-formed pipeline (C22); a send visits the
  policies in order, the ones after the retry policy once per attempt, for one
  to three attempts (C23); a client from a connection string signs exactly
  when the string has a key (C24); \<open>WithSnapshot\<close> sets or removes the snapshot
  and nothing else (C25); a pipeline without transport is accepted and fails on
  every send (C26).
  Every path of the repository has owners (C28); paths under \<open>sdk/storage/\<close>
  belong to the storage team (C29), CI definitions anywhere to the
  engineering-system team (C30).
  While another client holds the lease, any sequence of operations without
  the holder's lease id and without a break leaves the file unchanged (C31);
  acquire, write with the lease id, release succeeds and frees the lease, and
  a write without the lease id is refused (C32). \<open>SetProperties\<close> with default
  SMB properties sends empty attributes and preserves the times, where
  \<open>Create\<close> sends \<open>None\<close> and \<open>now\<close> (C33); \<open>StartCopy\<close>, \<open>SetProperties\<close> and
  \<open>Create\<close> choose between a permission and its key the same way (C34).
  \<open>ListPathsSinglePage\<close> cuts a directory's path at its first slash into file
  system and directory (C35); its test against \<open>size() + 1\<close> can never hold,
  so a client at a file system's root lists a directory named like the file
  system, through \<open>size_t\<close> wrap-around (C36). The rename source lacks the
  slash before the name, so it is not the path \<open>GetFileClient\<close> gives (C37).
  Clients derived by \<open>GetSubdirectoryClient\<close>, \<open>GetFileClient\<close> and renames keep
  their DFS and blob addresses on the same path and share the pipeline (C38,
  by rule induction); a rename goes to the directory's own file system unless
  another is given, and a service error is its result (C39). A DataLake
  pipeline retries with the caller's options and their secondary host in DFS
  form, where \<open>FileClient\<close> uses the defaults (C40).

  \<^bold>\<open>Choices.\<close> \<open>int64_t\<close> values are \<open>int\<close> with the hypotheses that keep them
  in range (a file of at most \<open>2^63 - 1\<close> bytes); \<open>size_t\<close> is \<open>64 word\<close>.
  The reliable stream's budget is \<open>c_reliableStreamRetryCount\<close> = 3 resumes
  over the whole body, as section 4.3 states it. No fuel is needed: the scheduler's in-order run is structural recursion on
  the plan, and the plan is finite. Reading a body stream delivers the bytes of
  the response (\<open>ReadToCount\<close> stops at the count or the end).

  \<^bold>\<open>Not modelled.\<close> Secondary-host failover: which host the storage retry
  policy sends each attempt to (\<open>FileClient\<close> configures none; for the DataLake
  clients the network's outcomes stand for whichever host answers, and the
  retry delays, modelled apart, change no outcome).
  Not modelled at all: the service's XML/JSON deserialisation, credentials,
  the socket transport, the CMake files (build configuration, no run-time
  behaviour); the MD5 algorithm itself, which the test only compares with
  itself and with digests of the library, and the test's random data.
\<close>

section \<open>Range requests of FileClient\<close>



text \<open>
  C10. \<open>FileClient::UploadRangeFromUrl\<close> with a source offset sends the source
  range as the target range and no source range at all: the destination
  offset and length the caller passed are dropped.
\<close>

theorem upload_range_from_url_source_overrides_target:
  assumes "ufo_SourceOffset opts = Some so"
  shows "uu_TargetRange (UploadRangeFromUrl_request src off len opts) =
           range_string so (ufo_SourceLength opts)
         \<and> uu_SourceRange (UploadRangeFromUrl_request src off len opts) = None"
  using assms by (simp add: UploadRangeFromUrl_request_def)

theorem upload_range_from_url_source_overrides_target_witness:
  "uu_TargetRange
     (UploadRangeFromUrl_request ''https://a/b'' 0 512
        \<lparr>ufo_SourceOffset = Some 1024, ufo_SourceLength = Some 512,
         ufo_SourceContentCrc64 = None, ufo_SourceIfMatchCrc64 = None,
         ufo_SourceIfNoneMatchCrc64 = None, ufo_LeaseId = None\<rparr>) = ''bytes=1024-1535''"
proof -
  have "uu_TargetRange
     (UploadRangeFromUrl_request ''https://a/b'' 0 512
        \<lparr>ufo_SourceOffset = Some 1024, ufo_SourceLength = Some 512,
         ufo_SourceContentCrc64 = None, ufo_SourceIfMatchCrc64 = None,
         ufo_SourceIfNoneMatchCrc64 = None, ufo_LeaseId = None\<rparr>) =
        range_string 1024 (Some 512)"
    using upload_range_from_url_source_overrides_target by simp
  also have "\<dots> = ''bytes=1024-1535''"
    by code_simp
  finally show ?thesis .
qed

end
